theory Spec2Isabelle
  imports Main "HOL-Library.Word"
begin

unbundle bit_operations_syntax

section \<open>Go values used by package bootstrap\<close>

subsection \<open>Strings and bytes\<close>

text \<open>
  A Go string is a sequence of bytes; \<^typ>\<open>string\<close> (a list of 8-bit characters) is
  used for it. A Go byte is an \<^typ>\<open>8 word\<close>.
\<close>

type_synonym byte = "8 word"

text \<open>\<^verbatim>\<open>strings.HasPrefix\<close> and \<^verbatim>\<open>strings.HasSuffix\<close>.\<close>

fun HasPrefix :: "string \<Rightarrow> string \<Rightarrow> bool" where
  "HasPrefix s [] = True"
| "HasPrefix [] (p # ps) = False"
| "HasPrefix (c # cs) (p # ps) = (c = p \<and> HasPrefix cs ps)"

definition HasSuffix :: "string \<Rightarrow> string \<Rightarrow> bool" where
  "HasSuffix s suffix = HasPrefix (rev s) (rev suffix)"

text \<open>
  \<^verbatim>\<open>strings.Index(s, sep)\<close>: the offset of the first occurrence of \<open>sep\<close> in \<open>s\<close>,
  \<open>None\<close> for Go's \<open>-1\<close>.
\<close>

fun Index :: "string \<Rightarrow> string \<Rightarrow> nat option" where
  "Index [] sep = (if sep = [] then Some 0 else None)"
| "Index (c # cs) sep =
     (if HasPrefix (c # cs) sep then Some 0 else map_option Suc (Index cs sep))"

text \<open>
  \<^verbatim>\<open>strings.SplitN(s, sep, n)\<close> for a non-empty separator and \<open>n > 0\<close> (the call in
  \<open>releaseRefDigest\<close> is \<open>SplitN(str, ":", 2)\<close>): Go's loop cuts at most \<open>n - 1\<close>
  times at the first occurrence of \<open>sep\<close> and puts the rest in the last element.
\<close>

fun SplitN :: "string \<Rightarrow> string \<Rightarrow> nat \<Rightarrow> string list" where
  "SplitN s sep 0 = []"
| "SplitN s sep (Suc 0) = [s]"
| "SplitN s sep (Suc (Suc n)) =
     (case Index s sep of
        None \<Rightarrow> [s]
      | Some m \<Rightarrow> take m s # SplitN (drop (m + length sep) s) sep (Suc n))"

text \<open>
  \<^verbatim>\<open>hex.EncodeToString\<close>: two characters of \<open>0123456789abcdef\<close> per byte, the high
  nibble first.
\<close>

definition hextable :: string where
  "hextable = ''0123456789abcdef''"

fun EncodeToString :: "byte list \<Rightarrow> string" where
  "EncodeToString [] = []"
| "EncodeToString (v # vs) =
     hextable ! unat (drop_bit 4 v) # hextable ! unat (v AND 0x0f) # EncodeToString vs"

text \<open>
  The value of \<^verbatim>\<open>sha256.Sum256\<close> has Go type \<open>[32]byte\<close>: an array of exactly 32
  bytes. The hash function itself belongs to the Go standard library; the functions
  below take it as the parameter \<open>Sum256\<close>.
\<close>

typedef sum256 = "{bs :: byte list. length bs = 32}"
  by (rule exI [of _ "replicate 32 0"]) simp

setup_lifting type_definition_sum256

text \<open>An array whose 32 bytes are all the same, for concrete runs.\<close>

lift_definition constant_sum :: "nat \<Rightarrow> sum256" is "\<lambda>n. replicate 32 (of_nat n)"
  by simp

text \<open>
  A Go slice expression \<open>s[:n]\<close> on a string panics when \<open>n\<close> exceeds the length.
\<close>

datatype 'a go = Panic | Returns 'a

definition slice_to :: "string \<Rightarrow> nat \<Rightarrow> string go" where
  "slice_to s n = (if n \<le> length s then Returns (take n s) else Panic)"

subsection \<open>Maps\<close>

text \<open>
  A Go map with string keys is an association list with distinct keys; indexing is
  \<open>map_of\<close>, an assignment \<open>m[k] = v\<close> is \<open>map_put\<close>, and a \<open>range\<close> loop visits
  the entries in an order of the keys that the runtime chooses (\<open>order\<close>).
\<close>

definition map_put :: "string \<Rightarrow> 'v \<Rightarrow> (string \<times> 'v) list \<Rightarrow> (string \<times> 'v) list" where
  "map_put k v m =
     (if map_of m k = None then m @ [(k, v)]
      else map (\<lambda>(k', v'). if k' = k then (k', v) else (k', v')) m)"

definition go_range :: "(string list \<Rightarrow> string list) \<Rightarrow> (string \<times> 'v) list \<Rightarrow> (string \<times> 'v) list" where
  "go_range order m =
     List.map_filter (\<lambda>k. map_option (Pair k) (map_of m k)) (order (map fst m))"

subsection \<open>Errors\<close>

text \<open>
  Go \<open>error\<close> values: a system call's error number (inside \<open>*os.PathError\<close> or
  \<open>*os.LinkError\<close>), a message (\<open>errors.New\<close>, \<open>fmt.Errorf\<close>), an error wrapped
  with a message (\<open>errors.Wrap\<close>, \<open>errors.Wrapf\<close>) and wrangler's \<open>merr.Errors\<close>.
\<close>

datatype errno = ENOENT | EEXIST | ENOTEMPTY | ENOTDIR | EISDIR | EACCES | EPERM | EBUSY
  | EROFS | ENOSPC | EIO

datatype error =
    Errno errno
  | ErrorString string
  | Wrap error string
  | Errors "error list"

text \<open>
  \<^verbatim>\<open>merr.NewErrors(errs...)\<close>: no error for an empty list, the error itself for a
  single one, the list otherwise. (The callers here only pass non-nil errors.)
\<close>

fun NewErrors :: "error list \<Rightarrow> error option" where
  "NewErrors [] = None"
| "NewErrors [e] = Some e"
| "NewErrors es = Some (Errors es)"

text \<open>
  \<^verbatim>\<open>os.IsExist\<close> and \<^verbatim>\<open>os.IsNotExist\<close> look at the error number of a system
  call's error; they do not unwrap \<open>errors.Wrap\<close>.
\<close>

fun IsExist :: "error \<Rightarrow> bool" where
  "IsExist (Errno e) = (e = EEXIST \<or> e = ENOTEMPTY)"
| "IsExist _ = False"

fun IsNotExist :: "error \<Rightarrow> bool" where
  "IsNotExist (Errno e) = (e = ENOENT)"
| "IsNotExist _ = False"

subsection \<open>Image references\<close>

text \<open>
  \<open>name.Reference\<close> of go-containerregistry is an interface with the two
  implementations \<open>name.Tag\<close> and \<open>name.Digest\<close>. Of each the code reads the
  reference string (\<open>String()\<close>), the name used in log lines (\<open>Name()\<close>) and the tag
  or digest string (\<open>TagStr()\<close>, \<open>DigestStr()\<close>).
\<close>

record Tag =
  tag_String :: string
  tag_Name :: string
  TagStr :: string

record Digest =
  digest_String :: string
  digest_Name :: string
  DigestStr :: string

datatype Reference = RefTag Tag | RefDigest Digest

fun ref_String :: "Reference \<Rightarrow> string" where
  "ref_String (RefTag t) = tag_String t"
| "ref_String (RefDigest d) = digest_String d"

fun ref_Name :: "Reference \<Rightarrow> string" where
  "ref_Name (RefTag t) = tag_Name t"
| "ref_Name (RefDigest d) = digest_Name d"

section \<open>Reference digest namer\<close>

text \<open>
  \<^verbatim>\<open>var releasePattern = regexp.MustCompile("^v[0-9]")\<close>: \<open>MatchString\<close> holds when
  the string starts with \<open>v\<close> and an ASCII digit.
\<close>

definition is_digit :: "char \<Rightarrow> bool" where
  "is_digit c = (c \<in> set ''0123456789'')"

fun releasePattern_MatchString :: "string \<Rightarrow> bool" where
  "releasePattern_MatchString (c # d # s) = (c = CHR ''v'' \<and> is_digit d)"
| "releasePattern_MatchString _ = False"

text \<open>
  \<open>releaseRefDigest\<close> (bootstrap.go, lines 215-228). The result is \<open>Panic\<close> where
  the Go code would panic in \<open>[:12]\<close>, \<open>Returns (Inl err)\<close> for \<open>("", err)\<close> and
  \<open>Returns (Inr s)\<close> for \<open>(s, nil)\<close>.
\<close>

definition releaseRefDigest :: "(string \<Rightarrow> sum256) \<Rightarrow> Reference \<Rightarrow> (error + string) go" where
  "releaseRefDigest Sum256 ref =
     (case ref of
        RefTag t \<Rightarrow>
          if releasePattern_MatchString (TagStr t) then
            (let hash = Sum256 (ref_String ref) in
             case slice_to (EncodeToString (Rep_sum256 hash)) 12 of
               Panic \<Rightarrow> Panic
             | Returns h12 \<Rightarrow> Returns (Inr (TagStr t @ ''-'' @ h12)))
          else
            Returns (Inl (ErrorString (''Runtime image '' @ ref_String ref
              @ '' is not a not a reference to a digest or version tag (^v[0-9])'')))
      | RefDigest d \<Rightarrow>
          (let str = DigestStr d; parts = SplitN str '':'' 2 in
           if length parts = 2 then Returns (Inr (parts ! 1))
           else Returns (Inr (parts ! 0))))"

section \<open>Decompression adapters\<close>

text \<open>
  The closers of the unnamed source file (\<open>zstdReadCloser\<close>, \<open>multiReadCloser\<close>,
  \<open>splitReadCloser\<close>). An \<open>io.Closer\<close> is a function on the state of the world
  \<open>'w\<close> that returns its error; the \<open>Close\<close> of a \<open>*zstd.Decoder\<close> returns
  nothing.
\<close>

type_synonym 'w closer = "'w \<Rightarrow> error option \<times> 'w"

definition zstdReadCloser_Close :: "('w \<Rightarrow> 'w) \<Rightarrow> 'w closer \<Rightarrow> 'w closer" where
  "zstdReadCloser_Close r c w = (let w1 = r w in c w1)"

definition multiReadCloser_Close :: "'w closer \<Rightarrow> 'w closer \<Rightarrow> 'w closer" where
  "multiReadCloser_Close r c w =
     (case r w of (err1, w1) \<Rightarrow>
        let errs = (case err1 of Some e \<Rightarrow> [e] | None \<Rightarrow> []) in
        case c w1 of (err2, w2) \<Rightarrow>
          let errs = errs @ (case err2 of Some e \<Rightarrow> [e] | None \<Rightarrow> []) in
          (NewErrors errs, w2))"

definition splitReadCloser_Close :: "'w closer \<Rightarrow> 'w closer" where
  "splitReadCloser_Close c w = c w"

section \<open>Archive format selection\<close>

text \<open>
  \<open>util.HasSuffixI\<close> of k3s lowers the string with \<open>strings.ToLower\<close> and tests each
  suffix with \<open>strings.HasSuffix\<close>. \<open>ToLower\<close> is modelled on the ASCII letters; every
  other byte is kept. (The suffixes tested here are ASCII, and no character outside
  ASCII lowers to one of their letters.)
\<close>

definition lower_char :: "char \<Rightarrow> char" where
  "lower_char c =
     (if c \<in> set ''ABCDEFGHIJKLMNOPQRSTUVWXYZ'' then char_of (of_char c + (32::nat)) else c)"

definition ToLower :: "string \<Rightarrow> string" where
  "ToLower s = map lower_char s"

definition HasSuffixI :: "string \<Rightarrow> string list \<Rightarrow> bool" where
  "HasSuffixI s suffixes = list_ex (\<lambda>suffix. HasSuffix (ToLower s) (ToLower suffix)) suffixes"

text \<open>
  The \<open>tarball.Opener\<close> closures that \<open>preloadFile\<close> builds, one per case of its
  switch: \<open>os.Open\<close> alone, or \<open>os.Open\<close> wrapped in a decompressor and an adapter.
\<close>

datatype opener =
    OpenTar
  | OpenLz4_SplitReadCloser
  | OpenBzip2_SplitReadCloser
  | OpenGzip_MultiReadCloser
  | OpenZstd_ZstdReadCloser

text \<open>
  The switch of \<open>preloadFile\<close> (bootstrap.go, lines 377-428): \<open>Skip\<close> is its
  \<open>return nil, nil\<close>, \<open>Unhandled\<close> its \<open>default\<close> case. The suffix strings are
  those of the source, the first one of the zstd case without a leading dot.
\<close>

datatype selected = Skip | Use opener | Unhandled error

definition preloadFile_switch :: "string \<Rightarrow> selected" where
  "preloadFile_switch fileName =
     (if HasSuffixI fileName [''.txt''] then Skip
      else if HasSuffixI fileName [''.tar''] then Use OpenTar
      else if HasSuffixI fileName [''.tar.lz4''] then Use OpenLz4_SplitReadCloser
      else if HasSuffixI fileName [''.tar.bz2'', ''.tbz''] then Use OpenBzip2_SplitReadCloser
      else if HasSuffixI fileName [''.tar.gz'', ''.tgz''] then Use OpenGzip_MultiReadCloser
      else if HasSuffixI fileName [''tar.zst'', ''.tzst''] then Use OpenZstd_ZstdReadCloser
      else Unhandled (ErrorString ''unhandled file type''))"

section \<open>The operating system and the libraries\<close>

subsection \<open>Lexical path functions\<close>

text \<open>
  \<open>filepath.Clean\<close>, \<open>filepath.Join\<close> and \<open>filepath.Dir\<close> of the Go library on a
  system whose separator is the slash: \<open>Clean\<close> drops empty and \<open>.\<close> elements,
  resolves \<open>..\<close> against the element before it (dropping it at the root) and returns
  \<open>.\<close> for an empty result.
\<close>

type_synonym path = string

fun split_slash :: "string \<Rightarrow> string list" where
  "split_slash [] = [[]]"
| "split_slash (c # cs) =
     (if c = CHR ''/'' then [] # split_slash cs
      else (case split_slash cs of
              e # es \<Rightarrow> (c # e) # es
            | [] \<Rightarrow> [[c]]))"

fun join_slash :: "string list \<Rightarrow> string" where
  "join_slash [] = []"
| "join_slash [e] = e"
| "join_slash (e # es) = e @ CHR ''/'' # join_slash es"

fun clean_elems :: "string list \<Rightarrow> string list \<Rightarrow> bool \<Rightarrow> string list" where
  "clean_elems [] out rooted = rev out"
| "clean_elems (e # es) out rooted =
     (if e = [] \<or> e = ''.'' then clean_elems es out rooted
      else if e = ''..'' then
        (case out of
           [] \<Rightarrow> if rooted then clean_elems es out rooted else clean_elems es [e] rooted
         | t # ts \<Rightarrow>
             if t = ''..'' then clean_elems es (e # out) rooted else clean_elems es ts rooted)
      else clean_elems es (e # out) rooted)"

definition Clean :: "path \<Rightarrow> path" where
  "Clean p =
     (case p of
        [] \<Rightarrow> ''.''
      | c # cs \<Rightarrow>
          (let rooted = (c = CHR ''/'');
               body = join_slash (clean_elems (split_slash p) [] rooted)
           in if rooted then CHR ''/'' # body else if body = [] then ''.'' else body))"

definition Join :: "string list \<Rightarrow> path" where
  "Join elem =
     (case dropWhile (\<lambda>e. e = []) elem of
        [] \<Rightarrow> []
      | e # es \<Rightarrow> Clean (join_slash (e # es)))"

definition Dir :: "path \<Rightarrow> path" where
  "Dir p = Clean (rev (dropWhile (\<lambda>c. c \<noteq> CHR ''/'') (rev p)))"

text \<open>The directories of the data directory (bootstrap.go, lines 43-67).\<close>

definition binDirForDigest :: "path \<Rightarrow> string \<Rightarrow> path" where
  "binDirForDigest dataDir refDigest = Join [dataDir, ''data'', refDigest, ''bin'']"

definition manifestsDir :: "path \<Rightarrow> path" where
  "manifestsDir dataDir = Join [dataDir, ''server'', ''manifests'']"

definition imagesDir :: "path \<Rightarrow> path" where
  "imagesDir dataDir = Join [dataDir, ''agent'', ''images'']"

definition symlinkBinDir :: "path \<Rightarrow> path" where
  "symlinkBinDir dataDir = Join [dataDir, ''bin'']"

definition runtimeCacheDir :: "path \<Rightarrow> path" where
  "runtimeCacheDir dataDir = Join [dataDir, ''agent'', ''cache'', ''runtime'']"

subsection \<open>Values that cross the interface\<close>

type_synonym fd = nat

record FileInfo =
  IsDir :: bool
  Mode :: nat

datatype openflag = O_RDWR | O_CREATE | O_TRUNC

definition perm_0755 :: nat where
  "perm_0755 = 493"

text \<open>
  A tar stream as \<open>tar.Reader.Next\<close> delivers it: the headers with the content of
  their entries, and what ends the stream (\<open>None\<close> for \<open>io.EOF\<close>, or an error).
  \<open>'b\<close> is the type of file contents.
\<close>

datatype typeflag = TypeReg | TypeDir | TypeOther

record 'b tar_entry =
  Name :: string
  Typeflag :: typeflag
  entry_Mode :: nat
  Body :: 'b

type_synonym 'b tar_stream = "'b tar_entry list \<times> error option"

text \<open>
  The part of a \<open>helmv1.HelmChart\<close> that \<open>rewriteChart\<close> reads and writes:
  \<open>Spec.Set\<close> (a Go map, \<open>None\<close> when nil) and \<open>Spec.JobImage\<close>; \<open>chart_rest\<close>
  stands for all other fields. A value of \<open>intstr.IntOrString\<close> has a type tag, an
  integer and a string; the zero value is what indexing a map yields for a missing key.
\<close>

datatype intstr_type = intstr_Int | intstr_String

record IntOrString =
  Type :: intstr_type
  IntVal :: int
  StrVal :: string

definition FromString :: "string \<Rightarrow> IntOrString" where
  "FromString val = \<lparr>Type = intstr_String, IntVal = 0, StrVal = val\<rparr>"

definition zero_IntOrString :: IntOrString where
  "zero_IntOrString = \<lparr>Type = intstr_Int, IntVal = 0, StrVal = []\<rparr>"

definition index_Set :: "(string \<times> IntOrString) list \<Rightarrow> string \<Rightarrow> IntOrString" where
  "index_Set m k = (case map_of m k of Some v \<Rightarrow> v | None \<Rightarrow> zero_IntOrString)"

record HelmChart =
  spec_Set :: "(string \<times> IntOrString) list option"
  spec_JobImage :: string
  chart_rest :: string

datatype object = HelmChartObj HelmChart | OtherObj string

text \<open>
  \<open>images.Resolver\<close> belongs to package \<open>images\<close> of this repository, which is not
  among the sources. The three values the code reads from it are taken as given: the
  runtime image reference, the same under the default registry, and the name of the
  configured registry.
\<close>

record Resolver =
  MustGetReference_Runtime :: Reference
  MustGetReference_Runtime_DefaultRegistry :: Reference
  Registry_Name :: string

definition DefaultRegistry :: string where
  "DefaultRegistry = ''index.docker.io''"

subsection \<open>The interface\<close>

text \<open>
  Everything outside the code is a parameter: \<open>'w\<close> is the state of the world (the
  filesystem, the registries, the clock), and each operation of the Go library used by
  the code is a function that takes the world and returns its Go result and the world
  after it. Nothing is assumed about these functions, so a theorem about the code holds
  for every behaviour of the system, every failure included. \<open>'img\<close> is \<open>v1.Image\<close>,
  \<open>'b\<close> the contents of a file and \<open>'reg\<close> the loaded registry configuration.

  \<open>filepath_Walk\<close> yields the calls Walk makes to its callback (path, info and error)
  as long as the callback returns nil. \<open>range_keys\<close> is the order in which a
  \<open>range\<close> loop visits the keys of a map. \<open>mutate_Extract\<close> is the flattened
  filesystem of an image as a tar stream. \<open>ser_Decode\<close> and \<open>ser_Encode\<close> are the
  two directions of the Kubernetes YAML serializer, and \<open>getPrivateRegistries\<close> is a
  function of this package that is not among the sources.
\<close>

record ('w, 'img, 'b, 'reg) os =
  os_Stat :: "path \<Rightarrow> 'w \<Rightarrow> (error + FileInfo) \<times> 'w"
  os_MkdirAll :: "path \<Rightarrow> nat \<Rightarrow> 'w \<Rightarrow> error option \<times> 'w"
  os_Rename :: "path \<Rightarrow> path \<Rightarrow> 'w \<Rightarrow> error option \<times> 'w"
  os_RemoveAll :: "path \<Rightarrow> 'w \<Rightarrow> error option \<times> 'w"
  os_Symlink :: "path \<Rightarrow> path \<Rightarrow> 'w \<Rightarrow> error option \<times> 'w"
  os_Chmod :: "path \<Rightarrow> nat \<Rightarrow> 'w \<Rightarrow> error option \<times> 'w"
  os_OpenFile :: "path \<Rightarrow> openflag list \<Rightarrow> nat \<Rightarrow> 'w \<Rightarrow> (error + fd) \<times> 'w"
  file_Close :: "fd \<Rightarrow> 'w \<Rightarrow> error option \<times> 'w"
  file_Write :: "fd \<Rightarrow> 'b \<Rightarrow> 'w \<Rightarrow> error option \<times> 'w"
  io_Copy :: "fd \<Rightarrow> 'b \<Rightarrow> 'w \<Rightarrow> error option \<times> 'w"
  ioutil_TempDir :: "path \<Rightarrow> string \<Rightarrow> 'w \<Rightarrow> (error + path) \<times> 'w"
  ioutil_ReadDir :: "path \<Rightarrow> 'w \<Rightarrow> (error + string list) \<times> 'w"
  ioutil_ReadFile :: "path \<Rightarrow> 'w \<Rightarrow> (error + 'b) \<times> 'w"
  filepath_Walk :: "path \<Rightarrow> 'w \<Rightarrow> (path \<times> FileInfo \<times> error option) list \<times> 'w"
  range_keys :: "string list \<Rightarrow> string list"
  sha256_Sum256 :: "string \<Rightarrow> sum256"
  tarball_Image :: "opener \<Rightarrow> path \<Rightarrow> Tag \<Rightarrow> 'w \<Rightarrow> (error + 'img) \<times> 'w"
  remote_Image :: "Reference \<Rightarrow> 'reg \<Rightarrow> 'w \<Rightarrow> (error + 'img) \<times> 'w"
  getPrivateRegistries :: "path \<Rightarrow> 'w \<Rightarrow> (error + 'reg) \<times> 'w"
  cache_Image :: "'img \<Rightarrow> path \<Rightarrow> 'img"
  mutate_Extract :: "'img \<Rightarrow> 'b tar_stream"
  imageReader_Close :: "'w \<Rightarrow> error option \<times> 'w"
  ser_Decode :: "'b \<Rightarrow> error + object"
  ser_Encode :: "HelmChart \<Rightarrow> error + 'b"
  DefaultJobImage :: string

subsection \<open>The state of a run\<close>

text \<open>
  A run threads the world, the list of the calls it has made to the system with the
  error each returned, and the lines it has logged through logrus.
\<close>

datatype call =
    C_Stat path
  | C_MkdirAll path
  | C_Rename path path
  | C_RemoveAll path
  | C_Symlink path path
  | C_Chmod path
  | C_OpenFile path "openflag list"
  | C_Close fd
  | C_Write fd
  | C_Copy fd
  | C_TempDir path string
  | C_ReadDir path
  | C_ReadFile path
  | C_Walk path
  | C_tarball_Image opener path
  | C_remote_Image Reference
  | C_getPrivateRegistries path
  | C_imageReader_Close

datatype level = DebugLevel | InfoLevel | ErrorLevel

datatype logarg = S string | E error

record 'w state =
  world :: 'w
  trace :: "(call \<times> error option) list"
  logs :: "(level \<times> string \<times> logarg list) list"

definition logf :: "level \<Rightarrow> string \<Rightarrow> logarg list \<Rightarrow> 'w state \<Rightarrow> 'w state" where
  "logf lvl format args s = s\<lparr>logs := logs s @ [(lvl, format, args)]\<rparr>"

definition sys :: "call \<Rightarrow> ('w \<Rightarrow> error option \<times> 'w) \<Rightarrow> 'w state \<Rightarrow> error option \<times> 'w state" where
  "sys c f s =
     (case f (world s) of
        (err, w) \<Rightarrow> (err, s\<lparr>world := w, trace := trace s @ [(c, err)]\<rparr>))"

definition sysv :: "call \<Rightarrow> ('w \<Rightarrow> (error + 'a) \<times> 'w) \<Rightarrow> 'w state \<Rightarrow> (error + 'a) \<times> 'w state" where
  "sysv c f s =
     (case f (world s) of
        (r, w) \<Rightarrow>
          (r, s\<lparr>world := w,
                 trace := trace s @ [(c, case r of Inl err \<Rightarrow> Some err | Inr v \<Rightarrow> None)]\<rparr>))"

definition Stat where "Stat os name = sysv (C_Stat name) (os_Stat os name)"
definition MkdirAll where "MkdirAll os p perm = sys (C_MkdirAll p) (os_MkdirAll os p perm)"
definition Rename where "Rename os old new = sys (C_Rename old new) (os_Rename os old new)"
definition RemoveAll where "RemoveAll os p = sys (C_RemoveAll p) (os_RemoveAll os p)"
definition Symlink where "Symlink os old new = sys (C_Symlink old new) (os_Symlink os old new)"
definition Chmod where "Chmod os name mode = sys (C_Chmod name) (os_Chmod os name mode)"
definition OpenFile where
  "OpenFile os name flag perm = sysv (C_OpenFile name flag) (os_OpenFile os name flag perm)"
definition Close where "Close os f = sys (C_Close f) (file_Close os f)"
definition Write where "Write os f b = sys (C_Write f) (file_Write os f b)"
definition Copy where "Copy os f b = sys (C_Copy f) (io_Copy os f b)"
definition TempDir where
  "TempDir os dir pattern = sysv (C_TempDir dir pattern) (ioutil_TempDir os dir pattern)"
definition ReadDir where "ReadDir os dirname = sysv (C_ReadDir dirname) (ioutil_ReadDir os dirname)"
definition ReadFile where "ReadFile os name = sysv (C_ReadFile name) (ioutil_ReadFile os name)"

definition Walk where
  "Walk os root s =
     (case filepath_Walk os root (world s) of
        (items, w) \<Rightarrow> (items, s\<lparr>world := w, trace := trace s @ [(C_Walk root, None)]\<rparr>))"

section \<open>Selective extractor and atomic placement\<close>

text \<open>\<open>dirExists\<close> (bootstrap.go, lines 70-75).\<close>

definition dirExists where
  "dirExists os dir s =
     (case Stat os dir s of
        (Inr fi, s1) \<Rightarrow> (IsDir fi, s1)
      | (Inl err, s1) \<Rightarrow> (False, s1))"

text \<open>
  \<open>extract\<close> (bootstrap.go, lines 161-209), named \<open>extract'\<close> here.
  \<open>extract_loop\<close> is its \<open>for\<close> loop over \<open>t.Next()\<close>: the headers still to
  come and the end of the stream are arguments.
\<close>

fun extract_loop where
  "extract_loop os targetDir dirs [] fin s = (fin, s)"
| "extract_loop os targetDir dirs (h # hs) fin s =
     (let targetName = Join [targetDir, Name h];
          targetDir' = Dir (Name h)
      in case Typeflag h of
           TypeDir \<Rightarrow>
             if map_of dirs targetDir' = None then extract_loop os targetDir dirs hs fin s
             else
               (case Stat os targetName s of
                  (Inr fi, s1) \<Rightarrow> extract_loop os targetDir dirs hs fin s1
                | (Inl err, s1) \<Rightarrow>
                    (case MkdirAll os targetName perm_0755 s1 of
                       (Some err, s2) \<Rightarrow> (Some err, s2)
                     | (None, s2) \<Rightarrow> extract_loop os targetDir dirs hs fin s2))
         | TypeReg \<Rightarrow>
             if map_of dirs targetDir' = None then extract_loop os targetDir dirs hs fin s
             else
               (let s1 = logf InfoLevel ''Extracting file %s'' [S (Name h)] s;
                    mode = entry_Mode h AND perm_0755
                in case OpenFile os targetName [O_RDWR, O_CREATE, O_TRUNC] mode s1 of
                     (Inl err, s2) \<Rightarrow> (Some err, s2)
                   | (Inr f, s2) \<Rightarrow>
                       (case Copy os f (Body h) s2 of
                          (Some err, s3) \<Rightarrow> (Some err, snd (Close os f s3))
                        | (None, s3) \<Rightarrow>
                            (case Close os f s3 of
                               (Some err, s4) \<Rightarrow> (Some err, s4)
                             | (None, s4) \<Rightarrow> extract_loop os targetDir dirs hs fin s4)))
         | TypeOther \<Rightarrow> extract_loop os targetDir dirs hs fin s)"

definition extract' where
  "extract' os targetDir dirs reader s =
     (case MkdirAll os targetDir perm_0755 s of
        (Some err, s1) \<Rightarrow> (Some err, s1)
      | (None, s1) \<Rightarrow> extract_loop os targetDir dirs (fst reader) (snd reader) s1)"

text \<open>
  The inner loop of \<open>extractToDirs\<close> (bootstrap.go, lines 284-301): the files of a
  staged directory are renamed into a destination that exists already.
\<close>

fun move_files where
  "move_files os tempSource dest [] errs s = (errs, s)"
| "move_files os tempSource dest (file # files) errs s =
     (let src = Join [tempSource, file];
          dst = Join [dest, file]
      in case Rename os src dst s of
           (None, s1) \<Rightarrow> move_files os tempSource dest files errs s1
         | (Some err, s1) \<Rightarrow>
             if IsExist err then
               (case RemoveAll os dst s1 of
                  (Some err, s2) \<Rightarrow>
                    move_files os tempSource dest files
                      (errs @ [Wrap err (''failed to remove '' @ dst)]) s2
                | (None, s2) \<Rightarrow>
                    (case Rename os src dst s2 of
                       (Some err, s3) \<Rightarrow>
                         move_files os tempSource dest files
                           (errs @ [Wrap err (''failed to rename '' @ src @ '' to '' @ dst)]) s3
                     | (None, s3) \<Rightarrow> move_files os tempSource dest files errs s3))
             else
               move_files os tempSource dest files
                 (errs @ [Wrap err (''failed to rename '' @ src @ '' to '' @ dst)]) s1)"

text \<open>
  The outer loop of \<open>extractToDirs\<close> (bootstrap.go, lines 250-302) over the entries of
  \<open>dirs\<close>. \<open>Inl err\<close> is the \<open>return err\<close> inside the loop, \<open>Inr errs\<close> the
  errors collected when the loop ends.
\<close>

fun move_dirs where
  "move_dirs os tempDir [] errs s = (Inr errs, s)"
| "move_dirs os tempDir ((source, dest) # rest) errs s =
     (let tempSource = Join [tempDir, source]
      in case Stat os tempSource s of
           (Inl err, s1) \<Rightarrow> move_dirs os tempDir rest (errs @ [err]) s1
         | (Inr fi, s1) \<Rightarrow>
             (let s2 = logf DebugLevel ''Moving extracted content from %s to %s''
                         [S tempSource, S dest] s1;
                  destParent = Dir dest;
                  (made, s3) =
                    (case Stat os destParent s2 of
                       (Inr fi', s') \<Rightarrow> (None, s')
                     | (Inl err, s') \<Rightarrow> MkdirAll os destParent perm_0755 s')
              in case made of
                   Some err \<Rightarrow> (Inl err, s3)
                 | None \<Rightarrow>
                     (case Rename os tempSource dest s3 of
                        (None, s4) \<Rightarrow> move_dirs os tempDir rest errs s4
                      | (Some err, s4) \<Rightarrow>
                          if \<not> IsExist err then move_dirs os tempDir rest (errs @ [err]) s4
                          else
                            (case ReadDir os tempSource s4 of
                               (Inl err, s5) \<Rightarrow> move_dirs os tempDir rest (errs @ [err]) s5
                             | (Inr files, s5) \<Rightarrow>
                                 (case move_files os tempSource dest files errs s5 of
                                    (errs', s6) \<Rightarrow> move_dirs os tempDir rest errs' s6)))))"

text \<open>
  \<open>extractToDirs\<close> (bootstrap.go, lines 232-305). \<open>extractToDirs_body\<close> is the code
  after the two \<open>defer\<close> statements; the deferred calls run when it returns, the
  later one first, and their results are dropped.
\<close>

definition extractToDirs_body where
  "extractToDirs_body os img tempDir dirs s =
     (let imageReader = mutate_Extract os img
      in case extract' os tempDir dirs imageReader s of
           (Some err, s1) \<Rightarrow> (Some err, s1)
         | (None, s1) \<Rightarrow>
             (case move_dirs os tempDir (go_range (range_keys os) dirs) [] s1 of
                (Inl err, s2) \<Rightarrow> (Some err, s2)
              | (Inr errs, s2) \<Rightarrow> (NewErrors errs, s2)))"

definition extractToDirs where
  "extractToDirs os img dataDir dirs s =
     (case TempDir os dataDir ''runtime-*'' s of
        (Inl err, s1) \<Rightarrow> (Some err, s1)
      | (Inr tempDir, s1) \<Rightarrow>
          (case extractToDirs_body os img tempDir dirs s1 of
             (result, s2) \<Rightarrow>
               (let s3 = snd (sys C_imageReader_Close (imageReader_Close os) s2);
                    s4 = snd (RemoveAll os tempDir s3)
                in (result, s4))))"

section \<open>Local image locator\<close>

text \<open>
  \<open>preloadFile\<close> (bootstrap.go, lines 375-436): after the switch,
  \<open>tarball.Image\<close> opens the file through the chosen opener and looks the tag up; its
  error is logged at debug level and not returned.
\<close>

definition preloadFile where
  "preloadFile os imageTag fileName s =
     (case preloadFile_switch fileName of
        Skip \<Rightarrow> ((None, None), s)
      | Unhandled err \<Rightarrow> ((None, Some err), s)
      | Use opener \<Rightarrow>
          (case sysv (C_tarball_Image opener fileName)
                  (tarball_Image os opener fileName imageTag) s of
             (Inl err, s1) \<Rightarrow>
               ((None, None),
                logf DebugLevel ''Did not find %s in %s: %s''
                  [S (tag_String imageTag), S fileName, E err] s1)
           | (Inr img, s1) \<Rightarrow> ((Some img, None), s1)))"

text \<open>
  The callback that \<open>preloadBootstrapImage\<close> gives to \<open>filepath.Walk\<close> (lines
  347-355), run over the calls Walk makes: \<open>Inl err\<close> is the error Walk returns,
  \<open>Inr files\<close> the map the callback has filled.
\<close>

fun walk_images where
  "walk_images [] files = Inr files"
| "walk_images ((path, info, err) # items) files =
     (case err of
        Some e \<Rightarrow> Inl e
      | None \<Rightarrow>
          if \<not> IsDir info then walk_images items (map_put path info files)
          else walk_images items files)"

text \<open>The loop over the files (lines 360-369).\<close>

fun preload_files where
  "preload_files os imageTag [] s = (None, s)"
| "preload_files os imageTag ((fileName, info) # files) s =
     (case preloadFile os imageTag fileName s of
        ((Some img, err), s1) \<Rightarrow>
          (Some img,
           logf DebugLevel ''Found %s in %s'' [S (tag_String imageTag), S fileName] s1)
      | ((None, Some err), s1) \<Rightarrow>
          preload_files os imageTag files
            (logf InfoLevel ''Failed to check %s: %v'' [S fileName, E err] s1)
      | ((None, None), s1) \<Rightarrow> preload_files os imageTag files s1)"

text \<open>\<open>preloadBootstrapImage\<close> (bootstrap.go, lines 329-372).\<close>

definition preloadBootstrapImage where
  "preloadBootstrapImage os dataDir imageRef s =
     (case imageRef of
        RefDigest d \<Rightarrow>
          ((None, None),
           logf DebugLevel ''No local image available for %s: reference is not a tag''
             [S (ref_String imageRef)] s)
      | RefTag imageTag \<Rightarrow>
          (let imagesDir = imagesDir dataDir
           in case Stat os imagesDir s of
                (Inl err, s1) \<Rightarrow>
                  if IsNotExist err then
                    ((None, None),
                     logf DebugLevel
                       ''No local image available for %s: directory %s does not exist''
                       [S (tag_String imageTag), S imagesDir] s1)
                  else ((None, Some err), s1)
              | (Inr fi, s1) \<Rightarrow>
                  (case Walk os imagesDir s1 of
                     (items, s2) \<Rightarrow>
                       (case walk_images items [] of
                          Inl err \<Rightarrow> ((None, Some err), s2)
                        | Inr files \<Rightarrow>
                            (case preload_files os imageTag
                                    (go_range (range_keys os) files) s2 of
                               (Some img, s3) \<Rightarrow> ((Some img, None), s3)
                             | (None, s3) \<Rightarrow>
                                 ((None, None),
                                  logf DebugLevel
                                    ''No local image available for %s: not found in any file in %s''
                                    [S (tag_String imageTag), S imagesDir] s3))))))"

text \<open>
  \<open>preloadBootstrapFromRuntime\<close> (bootstrap.go, lines 310-325); \<open>preload_refs\<close>
  is its loop over the references.
\<close>

fun preload_refs where
  "preload_refs os dataDir [] s = ((None, None), s)"
| "preload_refs os dataDir (ref # refs) s =
     (case preloadBootstrapImage os dataDir ref s of
        ((Some img, err), s1) \<Rightarrow> ((Some img, err), s1)
      | ((None, Some err), s1) \<Rightarrow>
          preload_refs os dataDir refs
            (logf ErrorLevel ''Failed to load for bootstrap image %s: %v''
               [S (ref_Name ref), E err] s1)
      | ((None, None), s1) \<Rightarrow> preload_refs os dataDir refs s1)"

definition preloadBootstrapFromRuntime where
  "preloadBootstrapFromRuntime os dataDir resolver s =
     (let refs = [MustGetReference_Runtime resolver];
          refs = (if Registry_Name resolver \<noteq> DefaultRegistry
                  then refs @ [MustGetReference_Runtime_DefaultRegistry resolver]
                  else refs)
      in preload_refs os dataDir refs s)"

section \<open>Manifest rewriter\<close>

text \<open>
  \<open>rewriteChart\<close> (bootstrap.go, lines 478-545). \<open>set_chart_values\<close> is its
  middle part (lines 503-525), which changes the decoded chart in memory and tells
  whether anything changed. \<open>serializer.Encode(chart, f)\<close> is the serialisation
  followed by the write to \<open>f\<close>.
\<close>

definition set_chart_values :: "string \<Rightarrow> string \<Rightarrow> string \<Rightarrow> HelmChart \<Rightarrow> HelmChart \<times> bool" where
  "set_chart_values defaultJobImage dataDir systemDefaultRegistry chart =
     (let chartChanged = False;
          set0 = (case spec_Set chart of None \<Rightarrow> [] | Some m \<Rightarrow> m);
          (set1, chartChanged) =
            (if StrVal (index_Set set0 ''global.rke2DataDir'') \<noteq> dataDir
             then (map_put ''global.rke2DataDir'' (FromString dataDir) set0, True)
             else (set0, chartChanged));
          (set2, chartChanged) =
            (if StrVal (index_Set set1 ''global.systemDefaultRegistry'') \<noteq> systemDefaultRegistry
             then (map_put ''global.systemDefaultRegistry'' (FromString systemDefaultRegistry) set1,
                   True)
             else (set1, chartChanged));
          jobImage = (if systemDefaultRegistry \<noteq> []
                      then systemDefaultRegistry @ ''/'' @ defaultJobImage
                      else defaultJobImage);
          (jobImage', chartChanged) =
            (if spec_JobImage chart \<noteq> jobImage then (jobImage, True)
             else (spec_JobImage chart, chartChanged))
      in (chart\<lparr>spec_Set := Some set2, spec_JobImage := jobImage'\<rparr>, chartChanged))"

definition rewriteChart where
  "rewriteChart os fileName info dataDir systemDefaultRegistry s =
     (case ReadFile os fileName s of
        (Inl err, s1) \<Rightarrow> (Some (Wrap err (''Failed to read manifest '' @ fileName)), s1)
      | (Inr bytes, s1) \<Rightarrow>
          (case ser_Decode os bytes of
             Inl err \<Rightarrow>
               (None, logf DebugLevel ''Failed to decode manifest %s: %s'' [S fileName, E err] s1)
           | Inr (OtherObj ty) \<Rightarrow>
               (None, logf DebugLevel ''Manifest %s is %T, not HelmChart'' [S fileName, S ty] s1)
           | Inr (HelmChartObj chart0) \<Rightarrow>
               (case set_chart_values (DefaultJobImage os) dataDir systemDefaultRegistry chart0 of
                  (chart, chartChanged) \<Rightarrow>
                    if chartChanged then
                      (case OpenFile os fileName [O_RDWR, O_TRUNC] (Mode info) s1 of
                         (Inl err, s2) \<Rightarrow>
                           (Some (Wrap err (''Unable to open HelmChart '' @ fileName)), s2)
                       | (Inr f, s2) \<Rightarrow>
                           (case (case ser_Encode os chart of
                                    Inl err \<Rightarrow> (Some err, s2)
                                  | Inr b \<Rightarrow> Write os f b s2) of
                              (Some err, s3) \<Rightarrow>
                                (Some (Wrap err (''Failed to serialize modified HelmChart '' @ fileName)),
                                 snd (Close os f s3))
                            | (None, s3) \<Rightarrow>
                                (case Close os f s3 of
                                   (Some err, s4) \<Rightarrow>
                                     (Some (Wrap err (''Failed to write modified HelmChart '' @ fileName)),
                                      s4)
                                 | (None, s4) \<Rightarrow>
                                     (None,
                                      logf InfoLevel
                                        ''Updated HelmChart %s to apply --system-default-registry modifications''
                                        [S fileName] s4))))
                    else (None, s1))))"

text \<open>
  \<open>setChartValues\<close> (bootstrap.go, lines 443-473): \<open>walk_manifests\<close> is the callback
  given to \<open>filepath.Walk\<close>, \<open>rewrite_charts\<close> the loop over the files found.
\<close>

fun walk_manifests where
  "walk_manifests [] files = Inr files"
| "walk_manifests ((path, info, err) # items) files =
     (case err of
        Some e \<Rightarrow> Inl e
      | None \<Rightarrow>
          if IsDir info then walk_manifests items files
          else if HasSuffix path ''.yml'' \<or> HasSuffix path ''.yaml''
            then walk_manifests items (map_put path info files)
          else walk_manifests items files)"

fun rewrite_charts where
  "rewrite_charts os [] dataDir systemDefaultRegistry errs s = (errs, s)"
| "rewrite_charts os ((fileName, info) # files) dataDir systemDefaultRegistry errs s =
     (case rewriteChart os fileName info dataDir systemDefaultRegistry s of
        (Some err, s1) \<Rightarrow> rewrite_charts os files dataDir systemDefaultRegistry (errs @ [err]) s1
      | (None, s1) \<Rightarrow> rewrite_charts os files dataDir systemDefaultRegistry errs s1)"

definition setChartValues where
  "setChartValues os dataDir systemDefaultRegistry s =
     (let manifestsDir = manifestsDir dataDir
      in case Walk os manifestsDir s of
           (items, s1) \<Rightarrow>
             (case walk_manifests items [] of
                Inl err \<Rightarrow> (Some err, s1)
              | Inr files \<Rightarrow>
                  (case rewrite_charts os (go_range (range_keys os) files)
                          dataDir systemDefaultRegistry [] s1 of
                     (errs, s2) \<Rightarrow> (NewErrors errs, s2))))"

section \<open>Stage\<close>

text \<open>
  The extraction plan of \<open>Stage\<close> (bootstrap.go, lines 125-134): the map
  \<open>extractPaths\<close> after the \<open>if\<close> statement, with the state after \<open>dirExists\<close> and
  the log line.
\<close>

definition extractPaths where
  "extractPaths os dataDir ref refDigest s =
     (let refBinDir = binDirForDigest dataDir refDigest;
          manifestsDir = manifestsDir dataDir;
          extractPaths = [(''charts'', manifestsDir)]
      in case dirExists os refBinDir s of
           (True, s1) \<Rightarrow>
             (extractPaths,
              logf InfoLevel ''Runtime image %s bin dir already exists at %s; skipping extract''
                [S (ref_String ref), S refBinDir] s1)
         | (False, s1) \<Rightarrow> (map_put ''bin'' refBinDir extractPaths, s1))"

text \<open>
  The end of \<open>Stage\<close> (bootstrap.go, lines 136-156), from the call of
  \<open>extractToDirs\<close> on.
\<close>

definition Stage_place where
  "Stage_place os dataDir resolver img refBinDir dirs s =
     (case extractToDirs os img dataDir dirs s of
        (Some err, s1) \<Rightarrow> (Inl (Wrap err ''failed to extract runtime image''), s1)
      | (None, s1) \<Rightarrow>
          (case Chmod os refBinDir perm_0755 s1 of
             (Some err, s2) \<Rightarrow> (Inl err, s2)
           | (None, s2) \<Rightarrow>
               (case setChartValues os dataDir (Registry_Name resolver) s2 of
                  (Some err, s3) \<Rightarrow>
                    (Inl (Wrap err ''failed to set system-default-registry on HelmCharts''), s3)
                | (None, s3) \<Rightarrow>
                    (let s4 = snd (RemoveAll os (symlinkBinDir dataDir) s3);
                         s5 = snd (Symlink os refBinDir (symlinkBinDir dataDir) s4)
                     in (Inr refBinDir, s5)))))"

text \<open>
  \<open>Stage\<close> (bootstrap.go, lines 85-157). The result is \<open>Returns (Inl err)\<close> for
  \<open>("", err)\<close> and \<open>Returns (Inr dir)\<close> for \<open>(dir, nil)\<close>.
\<close>

definition Stage where
  "Stage os dataDir privateRegistry resolver s =
     (let ref = MustGetReference_Runtime resolver
      in case releaseRefDigest (sha256_Sum256 os) ref of
           Panic \<Rightarrow> (Panic, s)
         | Returns (Inl err) \<Rightarrow> (Returns (Inl err), s)
         | Returns (Inr refDigest) \<Rightarrow>
             (let refBinDir = binDirForDigest dataDir refDigest;
                  cacheDir = runtimeCacheDir dataDir
              in case preloadBootstrapFromRuntime os dataDir resolver s of
                   ((img, Some err), s1) \<Rightarrow> (Returns (Inl err), s1)
                 | ((img, None), s1) \<Rightarrow>
                     (case (case img of
                              Some i \<Rightarrow> (Inr i, s1)
                            | None \<Rightarrow>
                                (case sysv (C_getPrivateRegistries privateRegistry)
                                        (getPrivateRegistries os privateRegistry) s1 of
                                   (Inl err, s2) \<Rightarrow>
                                     (Inl (Wrap err
                                        (''failed to load private registry configuration from ''
                                          @ privateRegistry)), s2)
                                 | (Inr registries, s2) \<Rightarrow>
                                     (case sysv (C_remote_Image ref)
                                             (remote_Image os ref registries)
                                             (logf InfoLevel ''Pulling runtime image %s''
                                                [S (ref_String ref)] s2) of
                                        (Inl err, s3) \<Rightarrow>
                                          (Inl (Wrap err
                                             (''failed to get runtime image '' @ ref_String ref)), s3)
                                      | (Inr i, s3) \<Rightarrow> (Inr i, s3)))) of
                        (Inl err, s4) \<Rightarrow> (Returns (Inl err), s4)
                      | (Inr img, s4) \<Rightarrow>
                          (let img = cache_Image os img cacheDir
                           in case extractPaths os dataDir ref refDigest s4 of
                                (dirs, s5) \<Rightarrow>
                                  (case Stage_place os dataDir resolver img refBinDir dirs s5 of
                                     (r, s6) \<Rightarrow> (Returns r, s6))))))"

text \<open>
  The part of \<open>Stage\<close> that obtains the image (bootstrap.go, lines 99-121), from
  the local archives or else from the registry, on its own: \<open>Inl err\<close> is the error
  \<open>Stage\<close> returns there.
\<close>

definition Stage_image where
  "Stage_image os dataDir privateRegistry resolver s =
     (let ref = MustGetReference_Runtime resolver
      in case preloadBootstrapFromRuntime os dataDir resolver s of
           ((img, Some err), s1) \<Rightarrow> (Inl err, s1)
         | ((img, None), s1) \<Rightarrow>
             (case img of
                Some i \<Rightarrow> (Inr i, s1)
              | None \<Rightarrow>
                  (case sysv (C_getPrivateRegistries privateRegistry)
                          (getPrivateRegistries os privateRegistry) s1 of
                     (Inl err, s2) \<Rightarrow>
                       (Inl (Wrap err
                          (''failed to load private registry configuration from ''
                            @ privateRegistry)), s2)
                   | (Inr registries, s2) \<Rightarrow>
                       (case sysv (C_remote_Image ref)
                               (remote_Image os ref registries)
                               (logf InfoLevel ''Pulling runtime image %s''
                                  [S (ref_String ref)] s2) of
                          (Inl err, s3) \<Rightarrow>
                            (Inl (Wrap err
                               (''failed to get runtime image '' @ ref_String ref)), s3)
                        | (Inr i, s3) \<Rightarrow> (Inr i, s3)))))"

section \<open>Observing a run\<close>

text \<open>
  A run only appends to the list of calls and to the log: \<open>extends s s'\<close> says that
  state \<open>s'\<close> continues state \<open>s\<close>.
\<close>

definition extends :: "'w state \<Rightarrow> 'w state \<Rightarrow> bool" where
  "extends s s' = ((\<exists>tr. trace s' = trace s @ tr) \<and> (\<exists>ls. logs s' = logs s @ ls))"

text \<open>
  The notions used to state the idempotence of the manifest rewriter: \<open>Set_StrVal c k\<close>
  is the Go expression \<open>c.Spec.Set[k].StrVal\<close> (a nil map reads as an empty one),
  and \<open>needs_write\<close> tells whether \<open>rewriteChart\<close> goes on to write the file whose
  contents it has read: they decode to a chart that \<open>set_chart_values\<close> changes.
  A path of a world is \<open>settled\<close> when it holds no file or a file whose contents need
  no write (\<open>contents\<close> tells what the files of a world hold), and \<open>is_ReadFile\<close>
  tells the reads of a file among the calls.
\<close>

definition Set_StrVal :: "HelmChart \<Rightarrow> string \<Rightarrow> string" where
  "Set_StrVal c k = StrVal (index_Set (case spec_Set c of None \<Rightarrow> [] | Some m \<Rightarrow> m) k)"

definition needs_write where
  "needs_write os dataDir systemDefaultRegistry b =
     (case ser_Decode os b of
        Inr (HelmChartObj chart0) \<Rightarrow>
          snd (set_chart_values (DefaultJobImage os) dataDir systemDefaultRegistry chart0)
      | other \<Rightarrow> False)"

definition settled where
  "settled os contents dataDir systemDefaultRegistry w f =
     (case contents w f of
        None \<Rightarrow> True
      | Some b \<Rightarrow> \<not> needs_write os dataDir systemDefaultRegistry b)"

definition is_ReadFile :: "call \<Rightarrow> bool" where
  "is_ReadFile c = (case c of C_ReadFile name \<Rightarrow> True | other \<Rightarrow> False)"

text \<open>
  The calls of a part of a run: \<open>since s s'\<close> are the calls made from state \<open>s\<close> to
  state \<open>s'\<close>, \<open>occurs xs tr\<close> says that the calls \<open>xs\<close> were made one after the
  other in \<open>tr\<close>, and \<open>calls_are P s s'\<close> that every call made from \<open>s\<close> to
  \<open>s'\<close> satisfies \<open>P\<close>.
\<close>

definition since :: "'w state \<Rightarrow> 'w state \<Rightarrow> (call \<times> error option) list" where
  "since s s' = drop (length (trace s)) (trace s')"

definition occurs :: "'a list \<Rightarrow> 'a list \<Rightarrow> bool" where
  "occurs xs tr = (\<exists>tr1 tr2. tr = tr1 @ xs @ tr2)"

definition calls_are :: "(call \<Rightarrow> bool) \<Rightarrow> 'w state \<Rightarrow> 'w state \<Rightarrow> bool" where
  "calls_are P s s' = (\<exists>tr. trace s' = trace s @ tr \<and> list_all (\<lambda>e. P (fst e)) tr)"

text \<open>
  What staging and placing an image by a plan may create: \<open>staging_call\<close> holds of
  every call but these three kinds. A file is created (\<open>O_CREATE\<close>) only as the staged
  copy, under the staging directory, of a regular file of the image whose directory is a
  key of the plan. A directory is made only as the staging directory, as the staged copy
  of a directory of the image whose parent is a key of the plan, or as the parent of a
  destination of the plan. A rename only moves a staged subtree of the plan to its
  destination, or a file of that subtree into its destination.
\<close>

definition staging_call :: "path \<Rightarrow> (string \<times> path) list \<Rightarrow> 'b tar_entry list \<Rightarrow> call \<Rightarrow> bool" where
  "staging_call tempDir plan entries c =
     (case c of
        C_OpenFile p flags \<Rightarrow>
          O_CREATE \<in> set flags \<longrightarrow>
            (\<exists>h \<in> set entries. Typeflag h = TypeReg \<and> map_of plan (Dir (Name h)) \<noteq> None
               \<and> p = Join [tempDir, Name h])
      | C_MkdirAll p \<Rightarrow>
          p = tempDir
          \<or> (\<exists>h \<in> set entries. Typeflag h = TypeDir \<and> map_of plan (Dir (Name h)) \<noteq> None
               \<and> p = Join [tempDir, Name h])
          \<or> (\<exists>source dest. (source, dest) \<in> set plan \<and> p = Dir dest)
      | C_Rename src dst \<Rightarrow>
          (\<exists>source dest. (source, dest) \<in> set plan
             \<and> ((src = Join [tempDir, source] \<and> dst = dest)
                \<or> (\<exists>file. src = Join [Join [tempDir, source], file] \<and> dst = Join [dest, file])))
      | other \<Rightarrow> True)"

text \<open>
  The staged subtree \<open>source\<close> has been placed at \<open>dest\<close> between \<open>s\<close> and
  \<open>s'\<close>: \<open>os.Stat\<close> has found it, and either it was renamed to its destination,
  or that rename failed because the destination exists, \<open>ioutil.ReadDir\<close> listed the
  subtree, and every file listed was renamed into the destination.
\<close>

definition placed where
  "placed os tempDir source dest s s' =
     ((C_Stat (Join [tempDir, source]), None) \<in> set (since s s')
      \<and> ((C_Rename (Join [tempDir, source]) dest, None) \<in> set (since s s')
         \<or> (\<exists>e sa sb files. IsExist e
              \<and> (C_Rename (Join [tempDir, source]) dest, Some e) \<in> set (since s s')
              \<and> extends s sa \<and> extends sb s'
              \<and> ReadDir os (Join [tempDir, source]) sa = (Inr files, sb)
              \<and> (\<forall>file \<in> set files.
                    (C_Rename (Join [Join [tempDir, source], file]) (Join [dest, file]), None)
                      \<in> set (since sb s')))))"

section \<open>An in-memory system\<close>

text \<open>
  A small system that implements the interface, used to run the code on concrete
  inputs. Its world is a table of the nodes of a filesystem (absolute, clean paths; the
  root is implicit), the files that have been opened, a table of calls that fail with
  an error number whenever they are made, the image archives on disk and the images of
  the remote registry. The contents of a file are a list of documents; an image is its
  flattened filesystem. It is simpler than a real system: symbolic links are not
  followed, \<open>ReadDir\<close> and \<open>Walk\<close> list the nodes in the order of the table, file
  modes are not stored, and the temporary directory made from a pattern is numbered 1.
  The properties below that hold of every system are stated for an arbitrary interface;
  this one serves to run the code.
\<close>

datatype node = NDir | NFile "object list" | NLink path

type_synonym image = "object list tar_stream"

record memfs =
  nodes :: "(path \<times> node) list"
  handles :: "path list"
  faults :: "(call \<times> errno) list"
  archives :: "(path \<times> string \<times> image) list"
  registry :: "(string \<times> image) list"

definition mem_fault :: "memfs \<Rightarrow> call \<Rightarrow> error option" where
  "mem_fault w c = map_option Errno (map_of (faults w) c)"

definition is_under :: "path \<Rightarrow> path \<Rightarrow> bool" where
  "is_under p k = (k = p \<or> HasPrefix k (p @ ''/''))"

definition is_dir :: "memfs \<Rightarrow> path \<Rightarrow> bool" where
  "is_dir w p = (p = ''/'' \<or> map_of (nodes w) p = Some NDir)"

definition info_of :: "node \<Rightarrow> FileInfo" where
  "info_of n = \<lparr>IsDir = (n = NDir), Mode = (if n = NDir then perm_0755 else 420)\<rparr>"

definition Base :: "path \<Rightarrow> string" where
  "Base p = rev (takeWhile (\<lambda>c. c \<noteq> CHR ''/'') (rev p))"

fun prefixes_from :: "path \<Rightarrow> string list \<Rightarrow> path list" where
  "prefixes_from acc [] = []"
| "prefixes_from acc (e # es) = (acc @ ''/'' @ e) # prefixes_from (acc @ ''/'' @ e) es"

fun mkdirs :: "path list \<Rightarrow> (path \<times> node) list \<Rightarrow> errno + (path \<times> node) list" where
  "mkdirs [] ns = Inr ns"
| "mkdirs (q # qs) ns =
     (case map_of ns q of
        None \<Rightarrow> mkdirs qs (ns @ [(q, NDir)])
      | Some NDir \<Rightarrow> mkdirs qs ns
      | Some n \<Rightarrow> Inl ENOTDIR)"

definition mem_Stat :: "path \<Rightarrow> memfs \<Rightarrow> (error + FileInfo) \<times> memfs" where
  "mem_Stat p w =
     (case mem_fault w (C_Stat p) of
        Some e \<Rightarrow> (Inl e, w)
      | None \<Rightarrow>
          (case map_of (nodes w) p of
             None \<Rightarrow> (Inl (Errno ENOENT), w)
           | Some n \<Rightarrow> (Inr (info_of n), w)))"

definition mem_MkdirAll :: "path \<Rightarrow> nat \<Rightarrow> memfs \<Rightarrow> error option \<times> memfs" where
  "mem_MkdirAll p perm w =
     (case mem_fault w (C_MkdirAll p) of
        Some e \<Rightarrow> (Some e, w)
      | None \<Rightarrow>
          (case mkdirs (prefixes_from [] (filter (\<lambda>e. e \<noteq> []) (split_slash p))) (nodes w) of
             Inl e \<Rightarrow> (Some (Errno e), w)
           | Inr ns \<Rightarrow> (None, w\<lparr>nodes := ns\<rparr>)))"

definition move_nodes :: "path \<Rightarrow> path \<Rightarrow> (path \<times> node) list \<Rightarrow> (path \<times> node) list" where
  "move_nodes old new ns =
     map (\<lambda>(k, n). if is_under old k then (new @ drop (length old) k, n) else (k, n))
       (filter (\<lambda>(k, n). \<not> is_under new k) ns)"

definition mem_Rename :: "path \<Rightarrow> path \<Rightarrow> memfs \<Rightarrow> error option \<times> memfs" where
  "mem_Rename old new w =
     (case mem_fault w (C_Rename old new) of
        Some e \<Rightarrow> (Some e, w)
      | None \<Rightarrow>
          (case map_of (nodes w) old of
             None \<Rightarrow> (Some (Errno ENOENT), w)
           | Some n \<Rightarrow>
               if \<not> is_dir w (Dir new) then (Some (Errno ENOENT), w)
               else
                 (case map_of (nodes w) new of
                    None \<Rightarrow> (None, w\<lparr>nodes := move_nodes old new (nodes w)\<rparr>)
                  | Some m \<Rightarrow>
                      if n = NDir \<and> m = NDir then
                        (if list_ex (\<lambda>(k, x). k \<noteq> new \<and> is_under new k) (nodes w)
                         then (Some (Errno ENOTEMPTY), w)
                         else (None, w\<lparr>nodes := move_nodes old new (nodes w)\<rparr>))
                      else if n = NDir then (Some (Errno ENOTDIR), w)
                      else if m = NDir then (Some (Errno EISDIR), w)
                      else (None, w\<lparr>nodes := move_nodes old new (nodes w)\<rparr>))))"

definition mem_RemoveAll :: "path \<Rightarrow> memfs \<Rightarrow> error option \<times> memfs" where
  "mem_RemoveAll p w =
     (case mem_fault w (C_RemoveAll p) of
        Some e \<Rightarrow> (Some e, w)
      | None \<Rightarrow> (None, w\<lparr>nodes := filter (\<lambda>(k, n). \<not> is_under p k) (nodes w)\<rparr>))"

definition mem_Symlink :: "path \<Rightarrow> path \<Rightarrow> memfs \<Rightarrow> error option \<times> memfs" where
  "mem_Symlink old new w =
     (case mem_fault w (C_Symlink old new) of
        Some e \<Rightarrow> (Some e, w)
      | None \<Rightarrow>
          if map_of (nodes w) new \<noteq> None then (Some (Errno EEXIST), w)
          else if \<not> is_dir w (Dir new) then (Some (Errno ENOENT), w)
          else (None, w\<lparr>nodes := nodes w @ [(new, NLink old)]\<rparr>))"

definition mem_Chmod :: "path \<Rightarrow> nat \<Rightarrow> memfs \<Rightarrow> error option \<times> memfs" where
  "mem_Chmod name mode w =
     (case mem_fault w (C_Chmod name) of
        Some e \<Rightarrow> (Some e, w)
      | None \<Rightarrow> if map_of (nodes w) name = None then (Some (Errno ENOENT), w) else (None, w))"

definition mem_OpenFile :: "path \<Rightarrow> openflag list \<Rightarrow> nat \<Rightarrow> memfs \<Rightarrow> (error + fd) \<times> memfs" where
  "mem_OpenFile name flag perm w =
     (case mem_fault w (C_OpenFile name flag) of
        Some e \<Rightarrow> (Inl e, w)
      | None \<Rightarrow>
          (case map_of (nodes w) name of
             Some NDir \<Rightarrow> (Inl (Errno EISDIR), w)
           | Some (NLink t) \<Rightarrow> (Inl (Errno EIO), w)
           | Some (NFile b) \<Rightarrow>
               (Inr (length (handles w)),
                w\<lparr>nodes := (if O_TRUNC \<in> set flag then map_put name (NFile []) (nodes w)
                             else nodes w),
                  handles := handles w @ [name]\<rparr>)
           | None \<Rightarrow>
               if O_CREATE \<in> set flag \<and> is_dir w (Dir name) then
                 (Inr (length (handles w)),
                  w\<lparr>nodes := nodes w @ [(name, NFile [])], handles := handles w @ [name]\<rparr>)
               else (Inl (Errno ENOENT), w)))"

definition mem_append :: "call \<Rightarrow> fd \<Rightarrow> object list \<Rightarrow> memfs \<Rightarrow> error option \<times> memfs" where
  "mem_append c f b w =
     (case mem_fault w c of
        Some e \<Rightarrow> (Some e, w)
      | None \<Rightarrow>
          if f < length (handles w) then
            (case map_of (nodes w) (handles w ! f) of
               Some (NFile old) \<Rightarrow>
                 (None, w\<lparr>nodes := map_put (handles w ! f) (NFile (old @ b)) (nodes w)\<rparr>)
             | other \<Rightarrow> (Some (Errno EIO), w))
          else (Some (Errno EIO), w))"

definition mem_Close :: "fd \<Rightarrow> memfs \<Rightarrow> error option \<times> memfs" where
  "mem_Close f w = (mem_fault w (C_Close f), w)"

definition mem_TempDir :: "path \<Rightarrow> string \<Rightarrow> memfs \<Rightarrow> (error + path) \<times> memfs" where
  "mem_TempDir dir pattern w =
     (case mem_fault w (C_TempDir dir pattern) of
        Some e \<Rightarrow> (Inl e, w)
      | None \<Rightarrow>
          (let name = Join [dir, takeWhile (\<lambda>c. c \<noteq> CHR ''*'') pattern @ ''1'']
           in if \<not> is_dir w dir then (Inl (Errno ENOENT), w)
              else if map_of (nodes w) name \<noteq> None then (Inl (Errno EEXIST), w)
              else (Inr name, w\<lparr>nodes := nodes w @ [(name, NDir)]\<rparr>)))"

definition mem_ReadDir :: "path \<Rightarrow> memfs \<Rightarrow> (error + string list) \<times> memfs" where
  "mem_ReadDir p w =
     (case mem_fault w (C_ReadDir p) of
        Some e \<Rightarrow> (Inl e, w)
      | None \<Rightarrow>
          (case map_of (nodes w) p of
             None \<Rightarrow> (Inl (Errno ENOENT), w)
           | Some NDir \<Rightarrow>
               (Inr (map (\<lambda>(k, n). Base k) (filter (\<lambda>(k, n). k \<noteq> p \<and> Dir k = p) (nodes w))), w)
           | Some n \<Rightarrow> (Inl (Errno ENOTDIR), w)))"

definition mem_ReadFile :: "path \<Rightarrow> memfs \<Rightarrow> (error + object list) \<times> memfs" where
  "mem_ReadFile p w =
     (case mem_fault w (C_ReadFile p) of
        Some e \<Rightarrow> (Inl e, w)
      | None \<Rightarrow>
          (case map_of (nodes w) p of
             None \<Rightarrow> (Inl (Errno ENOENT), w)
           | Some (NFile b) \<Rightarrow> (Inr b, w)
           | Some NDir \<Rightarrow> (Inl (Errno EISDIR), w)
           | Some (NLink t) \<Rightarrow> (Inl (Errno EIO), w)))"

definition mem_Walk :: "path \<Rightarrow> memfs \<Rightarrow> (path \<times> FileInfo \<times> error option) list \<times> memfs" where
  "mem_Walk root w =
     (case map_of (nodes w) root of
        None \<Rightarrow> ([(root, info_of NDir, Some (Errno ENOENT))], w)
      | Some n \<Rightarrow>
          (map (\<lambda>(k, n). (k, info_of n, None)) (filter (\<lambda>(k, n). is_under root k) (nodes w)), w))"

definition mem_tarball_Image :: "opener \<Rightarrow> path \<Rightarrow> Tag \<Rightarrow> memfs \<Rightarrow> (error + image) \<times> memfs" where
  "mem_tarball_Image opener p t w =
     (case mem_fault w (C_tarball_Image opener p) of
        Some e \<Rightarrow> (Inl e, w)
      | None \<Rightarrow>
          (case filter (\<lambda>(q, name, img). q = p \<and> name = tag_Name t) (archives w) of
             [] \<Rightarrow> (Inl (ErrorString ''tag not found in tarball''), w)
           | (q, name, img) # others \<Rightarrow> (Inr img, w)))"

definition mem_remote_Image :: "Reference \<Rightarrow> unit \<Rightarrow> memfs \<Rightarrow> (error + image) \<times> memfs" where
  "mem_remote_Image ref registries w =
     (case mem_fault w (C_remote_Image ref) of
        Some e \<Rightarrow> (Inl e, w)
      | None \<Rightarrow>
          (case map_of (registry w) (ref_String ref) of
             None \<Rightarrow> (Inl (ErrorString ''manifest unknown''), w)
           | Some img \<Rightarrow> (Inr img, w)))"

definition mem_Decode :: "object list \<Rightarrow> error + object" where
  "mem_Decode b = (case b of [obj] \<Rightarrow> Inr obj | other \<Rightarrow> Inl (ErrorString ''cannot decode''))"

definition mem_os :: "(memfs, image, object list, unit) os" where
  "mem_os =
     \<lparr>os_Stat = mem_Stat, os_MkdirAll = mem_MkdirAll, os_Rename = mem_Rename,
      os_RemoveAll = mem_RemoveAll, os_Symlink = mem_Symlink, os_Chmod = mem_Chmod,
      os_OpenFile = mem_OpenFile, file_Close = mem_Close,
      file_Write = (\<lambda>f. mem_append (C_Write f) f), io_Copy = (\<lambda>f. mem_append (C_Copy f) f),
      ioutil_TempDir = mem_TempDir, ioutil_ReadDir = mem_ReadDir,
      ioutil_ReadFile = mem_ReadFile, filepath_Walk = mem_Walk,
      range_keys = (\<lambda>keys. keys),
      sha256_Sum256 = (\<lambda>s. constant_sum 0xab),
      tarball_Image = mem_tarball_Image, remote_Image = mem_remote_Image,
      getPrivateRegistries =
        (\<lambda>p w. (case mem_fault w (C_getPrivateRegistries p) of
                   Some e \<Rightarrow> Inl e | None \<Rightarrow> Inr (), w)),
      cache_Image = (\<lambda>img dir. img),
      mutate_Extract = (\<lambda>img. img),
      imageReader_Close = (\<lambda>w. (mem_fault w C_imageReader_Close, w)),
      ser_Decode = mem_Decode,
      ser_Encode = (\<lambda>chart. Inr [HelmChartObj chart]),
      DefaultJobImage = ''rancher/klipper-helm:v0.6.1-build20210616''\<rparr>"

text \<open>What is in the world: the ground truth that the contracts of the system calls speak about.\<close>

definition mem_present :: "memfs \<Rightarrow> path \<Rightarrow> bool" where
  "mem_present w p = (map_of (nodes w) p \<noteq> None)"

definition mem_readlink :: "memfs \<Rightarrow> path \<Rightarrow> path option" where
  "mem_readlink w p = (case map_of (nodes w) p of Some (NLink t) \<Rightarrow> Some t | other \<Rightarrow> None)"

definition mem_contents :: "memfs \<Rightarrow> path \<Rightarrow> object list option" where
  "mem_contents w p = (case map_of (nodes w) p of Some (NFile b) \<Rightarrow> Some b | other \<Rightarrow> None)"

definition init_state :: "'w \<Rightarrow> 'w state" where
  "init_state w = \<lparr>world = w, trace = [], logs = []\<rparr>"

section \<open>Concrete runs\<close>

text \<open>
  The inputs of the concrete runs below: a runtime image reference by tag and one by
  digest, an image with binaries, a chart and a file outside the plan, and the world of
  a first boot, where the data directory \<open>/d\<close> is empty and the registry serves the
  image.
\<close>

definition runtime_tag :: Tag where
  "runtime_tag =
     \<lparr>tag_String = ''index.docker.io/rancher/rke2-runtime:v1.21.2'',
      tag_Name = ''index.docker.io/rancher/rke2-runtime:v1.21.2'',
      TagStr = ''v1.21.2''\<rparr>"

definition runtime_digest :: Digest where
  "runtime_digest =
     \<lparr>digest_String = ''index.docker.io/rancher/rke2-runtime@sha256:deadbeef'',
      digest_Name = ''index.docker.io/rancher/rke2-runtime@sha256:deadbeef'',
      DigestStr = ''sha256:deadbeef''\<rparr>"

definition tag_resolver :: Resolver where
  "tag_resolver =
     \<lparr>MustGetReference_Runtime = RefTag runtime_tag,
      MustGetReference_Runtime_DefaultRegistry = RefTag runtime_tag,
      Registry_Name = ''index.docker.io''\<rparr>"

definition digest_resolver :: Resolver where
  "digest_resolver =
     \<lparr>MustGetReference_Runtime = RefDigest runtime_digest,
      MustGetReference_Runtime_DefaultRegistry = RefDigest runtime_digest,
      Registry_Name = ''index.docker.io''\<rparr>"

definition coredns_chart :: HelmChart where
  "coredns_chart = \<lparr>spec_Set = None, spec_JobImage = [], chart_rest = ''rke2-coredns''\<rparr>"

definition runtime_image :: image where
  "runtime_image =
     ([\<lparr>Name = ''bin/'', Typeflag = TypeDir, entry_Mode = 493, Body = []\<rparr>,
       \<lparr>Name = ''bin/kubectl'', Typeflag = TypeReg, entry_Mode = 493, Body = [OtherObj ''ELF'']\<rparr>,
       \<lparr>Name = ''charts/'', Typeflag = TypeDir, entry_Mode = 493, Body = []\<rparr>,
       \<lparr>Name = ''charts/rke2-coredns.yaml'', Typeflag = TypeReg, entry_Mode = 420,
         Body = [HelmChartObj coredns_chart]\<rparr>,
       \<lparr>Name = ''etc/passwd'', Typeflag = TypeReg, entry_Mode = 420, Body = [OtherObj ''text'']\<rparr>],
      None)"

definition binaries_image :: image where
  "binaries_image =
     ([\<lparr>Name = ''bin/'', Typeflag = TypeDir, entry_Mode = 493, Body = []\<rparr>,
       \<lparr>Name = ''bin/kubectl'', Typeflag = TypeReg, entry_Mode = 493, Body = [OtherObj ''ELF'']\<rparr>],
      None)"

definition first_boot :: memfs where
  "first_boot =
     \<lparr>nodes = [(''/d'', NDir)], handles = [], faults = [], archives = [],
      registry = [(''index.docker.io/rancher/rke2-runtime:v1.21.2'', runtime_image),
                  (''index.docker.io/rancher/rke2-runtime@sha256:deadbeef'', runtime_image)]\<rparr>"

text \<open>The data directory of a node whose \<open>/d/data\<close> is a regular file.\<close>

definition data_is_a_file :: memfs where
  "data_is_a_file = first_boot\<lparr>nodes := [(''/d'', NDir), (''/d/data'', NFile [])]\<rparr>"

text \<open>
  A node with an images directory: a checksum file, a file of an unknown type, a tar
  file that does not hold the image, one that does, and a later one that holds another
  image under the same tag.
\<close>

definition airgap :: memfs where
  "airgap =
     first_boot
       \<lparr>nodes :=
          [(''/d'', NDir), (''/d/agent'', NDir), (''/d/agent/images'', NDir),
           (''/d/agent/images/sha256sum-amd64.txt'', NFile []),
           (''/d/agent/images/images.zip'', NFile []),
           (''/d/agent/images/other.tar'', NFile []),
           (''/d/agent/images/rke2-images.tar.gz'', NFile []),
           (''/d/agent/images/zz.tar'', NFile [])],
        archives :=
          [(''/d/agent/images/rke2-images.tar.gz'',
            ''index.docker.io/rancher/rke2-runtime:v1.21.2'', runtime_image),
           (''/d/agent/images/zz.tar'',
            ''index.docker.io/rancher/rke2-runtime:v1.21.2'', binaries_image),
           (''/d/agent/images/rke2-images.tar.gz'',
            ''index.docker.io/rancher/rke2-runtime@sha256:deadbeef'', runtime_image)]\<rparr>"

text \<open>A node whose manifests directory holds the chart as the image ships it.\<close>

definition manifests_placed :: memfs where
  "manifests_placed =
     first_boot
       \<lparr>nodes := [(''/d'', NDir), (''/d/server'', NDir), (''/d/server/manifests'', NDir),
                  (''/d/server/manifests/rke2-coredns.yaml'', NFile [HelmChartObj coredns_chart])]\<rparr>"

text \<open>
  A node whose manifests directory holds the chart, a manifest that is no chart and a
  file that is no manifest.
\<close>

definition manifests_mixed :: memfs where
  "manifests_mixed =
     first_boot
       \<lparr>nodes := [(''/d'', NDir), (''/d/server'', NDir), (''/d/server/manifests'', NDir),
                  (''/d/server/manifests/rke2-coredns.yaml'', NFile [HelmChartObj coredns_chart]),
                  (''/d/server/manifests/config.yml'', NFile [OtherObj ''ConfigMap'']),
                  (''/d/server/manifests/README'', NFile [OtherObj ''text''])]\<rparr>"

text \<open>
  A node that has booted before: the binaries of the runtime image are in place, the
  manifests directory holds the chart and \<open>/d/bin\<close> is the symlink.
\<close>

definition second_boot :: memfs where
  "second_boot =
     first_boot
       \<lparr>nodes := [(''/d'', NDir), (''/d/data'', NDir),
                  (''/d/data/v1.21.2-abababababab'', NDir),
                  (''/d/data/v1.21.2-abababababab/bin'', NDir),
                  (''/d/data/v1.21.2-abababababab/bin/kubectl'', NFile [OtherObj ''ELF'']),
                  (''/d/server'', NDir), (''/d/server/manifests'', NDir),
                  (''/d/server/manifests/rke2-coredns.yaml'', NFile [HelmChartObj coredns_chart]),
                  (''/d/bin'', NLink ''/d/data/v1.21.2-abababababab/bin'')]\<rparr>"

section \<open>Properties\<close>

subsection \<open>Hex encoding and splitting\<close>

lemma length_EncodeToString: "length (EncodeToString bs) = 2 * length bs"
  by (induction bs) simp_all

lemma hi_nibble: "unat (drop_bit 4 (v::byte)) < 16"
proof -
  have "unat v < 256"
    using unsigned_less [of v, where 'a = nat] by simp
  moreover have "unat (drop_bit 4 v) = drop_bit 4 (unat v)"
    by (rule unat_drop_bit_eq)
  moreover have "drop_bit 4 (unat v) = unat v div 16"
    by (simp add: drop_bit_eq_div)
  ultimately show ?thesis by arith
qed

lemma lo_nibble: "unat ((v::byte) AND 0x0f) < 16"
proof -
  have "v AND 0x0f \<le> 0x0f" by (rule word_and_le1)
  then show ?thesis by (simp add: word_le_nat_alt)
qed

lemma length_hextable: "length hextable = 16"
  by (simp add: hextable_def)

lemma set_EncodeToString: "set (EncodeToString bs) \<subseteq> set hextable"
proof (induction bs)
  case Nil
  show ?case by simp
next
  case (Cons v vs)
  have "hextable ! unat (drop_bit 4 v) \<in> set hextable"
    and "hextable ! unat (v AND 0x0f) \<in> set hextable"
    using hi_nibble [of v] lo_nibble [of v] by (simp_all only: nth_mem length_hextable)
  with Cons show ?case by simp
qed

lemma length_hash_hex: "length (EncodeToString (Rep_sum256 h)) = 64"
  using Rep_sum256 [of h] by (simp add: length_EncodeToString)

lemma Index_first: "c \<notin> set a \<Longrightarrow> Index (a @ c # b) [c] = Some (length a)"
  by (induction a) auto

lemma SplitN_colon:
  "CHR '':'' \<notin> set alg \<Longrightarrow> SplitN (alg @ '':'' @ hex) '':'' 2 = [alg, hex]"
  using Index_first [of "CHR '':''" alg hex] by (simp add: numeral_2_eq_2)

subsection \<open>The runtime identity of a reference\<close>

lemma releaseRefDigest_tag:
  assumes "releasePattern_MatchString (TagStr t)"
  shows "releaseRefDigest Sum256 (RefTag t) =
    Returns (Inr (TagStr t @ ''-'' @ take 12 (EncodeToString (Rep_sum256 (Sum256 (tag_String t))))))"
  using assms by (simp add: releaseRefDigest_def slice_to_def length_hash_hex)

lemma releaseRefDigest_digest:
  assumes "DigestStr d = alg @ '':'' @ hex" and "CHR '':'' \<notin> set alg"
  shows "releaseRefDigest Sum256 (RefDigest d) = Returns (Inr hex)"
  using assms SplitN_colon [of alg hex] by (simp add: releaseRefDigest_def)

text \<open>
  C1. For a tag reference whose tag matches the release pattern (a leading \<open>v\<close> and a
  digit), \<open>releaseRefDigest\<close> returns, without an error, the tag, a dash and the
  first 12 hexadecimal characters of the SHA-256 hash of the reference string; for a
  digest reference whose digest string is \<open>alg:hex\<close> it returns \<open>hex\<close> without an
  error; the result is a function of the reference, so equal references give equal
  results. \<open>Sum256\<close> is any function into 32-byte arrays, the hash of the Go
  library in particular.
\<close>

theorem releaseRefDigest_identity:
  "(releasePattern_MatchString (TagStr t) \<longrightarrow>
      releaseRefDigest Sum256 (RefTag t) =
        Returns (Inr (TagStr t @ ''-''
          @ take 12 (EncodeToString (Rep_sum256 (Sum256 (ref_String (RefTag t)))))))
      \<and> length (take 12 (EncodeToString (Rep_sum256 (Sum256 (ref_String (RefTag t)))))) = 12
      \<and> set (take 12 (EncodeToString (Rep_sum256 (Sum256 (ref_String (RefTag t))))))
          \<subseteq> set hextable)
   \<and> (DigestStr d = alg @ '':'' @ hex \<and> CHR '':'' \<notin> set alg \<longrightarrow>
      releaseRefDigest Sum256 (RefDigest d) = Returns (Inr hex))
   \<and> (ref = ref' \<longrightarrow> releaseRefDigest Sum256 ref = releaseRefDigest Sum256 ref')"
proof (intro conjI impI)
  assume "releasePattern_MatchString (TagStr t)"
  then show "releaseRefDigest Sum256 (RefTag t) =
      Returns (Inr (TagStr t @ ''-''
        @ take 12 (EncodeToString (Rep_sum256 (Sum256 (ref_String (RefTag t)))))))"
    by (simp add: releaseRefDigest_tag)
next
  show "length (take 12 (EncodeToString (Rep_sum256 (Sum256 (ref_String (RefTag t)))))) = 12"
    by (simp add: length_hash_hex)
next
  show "set (take 12 (EncodeToString (Rep_sum256 (Sum256 (ref_String (RefTag t))))))
      \<subseteq> set hextable"
    using set_take_subset set_EncodeToString by (rule subset_trans)
next
  assume "DigestStr d = alg @ '':'' @ hex \<and> CHR '':'' \<notin> set alg"
  then show "releaseRefDigest Sum256 (RefDigest d) = Returns (Inr hex)"
    by (simp add: releaseRefDigest_digest)
next
  assume "ref = ref'"
  then show "releaseRefDigest Sum256 ref = releaseRefDigest Sum256 ref'"
    by simp
qed

theorem releaseRefDigest_identity_witness:
  "releaseRefDigest (\<lambda>s. constant_sum 0xab)
     (RefTag \<lparr>tag_String = ''index.docker.io/rancher/rke2-runtime:v1.21.2-rke2r1'',
       tag_Name = ''index.docker.io/rancher/rke2-runtime:v1.21.2-rke2r1'',
       TagStr = ''v1.21.2-rke2r1''\<rparr>)
     = Returns (Inr ''v1.21.2-rke2r1-abababababab'')
   \<and> releaseRefDigest (\<lambda>s. constant_sum 0xab)
     (RefDigest \<lparr>digest_String = ''index.docker.io/rancher/rke2-runtime@sha256:deadbeef'',
       digest_Name = ''index.docker.io/rancher/rke2-runtime@sha256:deadbeef'',
       DigestStr = ''sha256:deadbeef''\<rparr>)
     = Returns (Inr ''deadbeef'')"
proof -
  have rep: "Rep_sum256 (constant_sum 0xab) = replicate 32 0xab"
    by (simp add: constant_sum.rep_eq)
  have enc: "take 12 (EncodeToString (replicate 32 (0xab :: byte))) = ''abababababab''"
    by code_simp
  show ?thesis
    using releaseRefDigest_identity [of
      "\<lparr>tag_String = ''index.docker.io/rancher/rke2-runtime:v1.21.2-rke2r1'',
        tag_Name = ''index.docker.io/rancher/rke2-runtime:v1.21.2-rke2r1'',
        TagStr = ''v1.21.2-rke2r1''\<rparr>"
      "\<lambda>s. constant_sum 0xab"
      "\<lparr>digest_String = ''index.docker.io/rancher/rke2-runtime@sha256:deadbeef'',
        digest_Name = ''index.docker.io/rancher/rke2-runtime@sha256:deadbeef'',
        DigestStr = ''sha256:deadbeef''\<rparr>"
      "''sha256''" "''deadbeef''"]
    by (simp add: rep enc is_digit_def)
qed

subsection \<open>Runs only append to the list of calls and to the log\<close>

lemma extends_refl [simp]: "extends s s"
  by (simp add: extends_def)

lemma extends_trans: "extends s s1 \<Longrightarrow> extends s1 s2 \<Longrightarrow> extends s s2"
  by (auto simp: extends_def)

lemma extends_logf [simp]: "extends s (logf lvl fmt args s)"
  by (simp add: extends_def logf_def)

lemma sys_eq:
  "sys c f s = (r, s') \<Longrightarrow>
     trace s' = trace s @ [(c, r)] \<and> logs s' = logs s \<and> f (world s) = (r, world s')"
  by (auto simp: sys_def split: prod.splits)

lemma sysv_eq:
  "sysv c f s = (r, s') \<Longrightarrow>
     trace s' = trace s @ [(c, case r of Inl err \<Rightarrow> Some err | Inr v \<Rightarrow> None)]
     \<and> logs s' = logs s \<and> f (world s) = (r, world s')"
  by (auto simp: sysv_def split: prod.splits)

lemma logf_simps [simp]:
  "trace (logf lvl fmt args s) = trace s"
  "logs (logf lvl fmt args s) = logs s @ [(lvl, fmt, args)]"
  "world (logf lvl fmt args s) = world s"
  by (simp_all add: logf_def)

lemma calls_eq:
  "MkdirAll os p perm s = (e1, s') \<Longrightarrow>
     trace s' = trace s @ [(C_MkdirAll p, e1)] \<and> logs s' = logs s"
  "Rename os p q s = (e1, s') \<Longrightarrow>
     trace s' = trace s @ [(C_Rename p q, e1)] \<and> logs s' = logs s"
  "RemoveAll os p s = (e1, s') \<Longrightarrow>
     trace s' = trace s @ [(C_RemoveAll p, e1)] \<and> logs s' = logs s"
  "Symlink os p q s = (e1, s') \<Longrightarrow>
     trace s' = trace s @ [(C_Symlink p q, e1)] \<and> logs s' = logs s"
  "Chmod os p perm s = (e1, s') \<Longrightarrow>
     trace s' = trace s @ [(C_Chmod p, e1)] \<and> logs s' = logs s"
  "Close os f s = (e1, s') \<Longrightarrow>
     trace s' = trace s @ [(C_Close f, e1)] \<and> logs s' = logs s"
  "Write os f b s = (e1, s') \<Longrightarrow>
     trace s' = trace s @ [(C_Write f, e1)] \<and> logs s' = logs s"
  "Copy os f b s = (e1, s') \<Longrightarrow>
     trace s' = trace s @ [(C_Copy f, e1)] \<and> logs s' = logs s"
  "Stat os p s = (v1, s') \<Longrightarrow>
     trace s' = trace s @ [(C_Stat p, case v1 of Inl err \<Rightarrow> Some err | Inr v \<Rightarrow> None)]
     \<and> logs s' = logs s"
  "OpenFile os p fl perm s = (v2, s') \<Longrightarrow>
     trace s' = trace s @ [(C_OpenFile p fl, case v2 of Inl err \<Rightarrow> Some err | Inr v \<Rightarrow> None)]
     \<and> logs s' = logs s"
  "TempDir os p q s = (v3, s') \<Longrightarrow>
     trace s' = trace s @ [(C_TempDir p q, case v3 of Inl err \<Rightarrow> Some err | Inr v \<Rightarrow> None)]
     \<and> logs s' = logs s"
  "ReadDir os p s = (v4, s') \<Longrightarrow>
     trace s' = trace s @ [(C_ReadDir p, case v4 of Inl err \<Rightarrow> Some err | Inr v \<Rightarrow> None)]
     \<and> logs s' = logs s"
  "ReadFile os p s = (v5, s') \<Longrightarrow>
     trace s' = trace s @ [(C_ReadFile p, case v5 of Inl err \<Rightarrow> Some err | Inr v \<Rightarrow> None)]
     \<and> logs s' = logs s"
  "Walk os p s = (v6, s') \<Longrightarrow>
     trace s' = trace s @ [(C_Walk p, None)] \<and> logs s' = logs s"
  unfolding MkdirAll_def Rename_def RemoveAll_def Symlink_def Chmod_def Close_def Write_def
    Copy_def Stat_def OpenFile_def TempDir_def ReadDir_def ReadFile_def
  by (auto dest: sys_eq sysv_eq simp: Walk_def split: prod.splits)

lemma snd_calls_eq [simp]:
  "trace (snd (Close os f s)) = trace s @ [(C_Close f, fst (Close os f s))]"
  "logs (snd (Close os f s)) = logs s"
  "trace (snd (RemoveAll os p s)) = trace s @ [(C_RemoveAll p, fst (RemoveAll os p s))]"
  "logs (snd (RemoveAll os p s)) = logs s"
  "trace (snd (Symlink os p q s)) = trace s @ [(C_Symlink p q, fst (Symlink os p q s))]"
  "logs (snd (Symlink os p q s)) = logs s"
  by (auto simp: Close_def RemoveAll_def Symlink_def sys_def split: prod.splits)

lemma snd_sys [simp]:
  "trace (snd (sys c f s)) = trace s @ [(c, fst (f (world s)))]"
  "logs (snd (sys c f s)) = logs s"
  "world (snd (sys c f s)) = snd (f (world s))"
  "fst (sys c f s) = fst (f (world s))"
  by (simp_all add: sys_def split: prod.splits)

lemma snd_sysv [simp]:
  "trace (snd (sysv c f s)) = trace s @ [(c, case fst (f (world s)) of Inl err \<Rightarrow> Some err | Inr v \<Rightarrow> None)]"
  "logs (snd (sysv c f s)) = logs s"
  "world (snd (sysv c f s)) = snd (f (world s))"
  "fst (sysv c f s) = fst (f (world s))"
  by (simp_all add: sysv_def split: prod.splits)

lemma logged_mono:
  "extends s1 s2 \<Longrightarrow> \<exists>l \<in> set (logs s1). Q l \<Longrightarrow> \<exists>l \<in> set (logs s2). Q l"
  by (auto simp: extends_def)

lemma extends_extract_loop:
  "extract_loop os t dirs hs fin s = (r, s') \<Longrightarrow> extends s s'"
proof (induction hs arbitrary: s)
  case Nil
  then show ?case by simp
next
  case (Cons h hs)
  note IH = Cons.IH [unfolded extends_def]
  from Cons.prems show ?case
    by (auto simp: Let_def extends_def split: typeflag.splits if_splits prod.splits sum.splits option.splits
        dest!: calls_eq IH)
qed

lemma extends_extract':
  "extract' os t dirs reader s = (r, s') \<Longrightarrow> extends s s'"
  by (auto simp: extract'_def split: prod.splits option.splits
      dest!: calls_eq extends_extract_loop [unfolded extends_def] simp: extends_def)

lemma extends_move_files:
  "move_files os src dest files errs s = (errs', s') \<Longrightarrow> extends s s'"
proof (induction files arbitrary: errs s)
  case Nil
  then show ?case by simp
next
  case (Cons f files)
  note IH = Cons.IH [unfolded extends_def]
  from Cons.prems show ?case
    by (auto simp: Let_def extends_def split: if_splits prod.splits option.splits
        dest!: calls_eq IH)
qed

lemma extends_move_dirs:
  "move_dirs os tempDir dirs errs s = (r, s') \<Longrightarrow> extends s s'"
proof (induction dirs arbitrary: errs s)
  case Nil
  then show ?case by simp
next
  case (Cons d dirs)
  note IH = Cons.IH [unfolded extends_def]
  obtain source dest where d: "d = (source, dest)" by (cases d)
  from Cons.prems show ?case unfolding d
    by (auto simp: Let_def extends_def split: if_splits prod.splits option.splits sum.splits
        dest!: calls_eq IH extends_move_files [unfolded extends_def])
qed

lemma extends_extractToDirs_body:
  "extractToDirs_body os img tempDir dirs s = (r, s') \<Longrightarrow> extends s s'"
  by (auto simp: extractToDirs_body_def Let_def extends_def split: prod.splits option.splits sum.splits
      dest!: extends_extract' [unfolded extends_def] extends_move_dirs [unfolded extends_def])

lemma extends_extractToDirs:
  "extractToDirs os img dataDir dirs s = (r, s') \<Longrightarrow> extends s s'"
  by (auto simp: extractToDirs_def Let_def extends_def split: prod.splits option.splits sum.splits
      dest!: calls_eq extends_extractToDirs_body [unfolded extends_def])

lemma extends_preloadFile:
  "preloadFile os t f s = (r, s') \<Longrightarrow> extends s s'"
  by (auto simp: preloadFile_def extends_def split: selected.splits prod.splits sum.splits
      dest!: sysv_eq)

lemma extends_preload_files:
  "preload_files os t files s = (r, s') \<Longrightarrow> extends s s'"
proof (induction files arbitrary: s)
  case Nil
  then show ?case by simp
next
  case (Cons f files)
  note IH = Cons.IH [unfolded extends_def]
  obtain name info where f: "f = (name, info)" by (cases f)
  from Cons.prems show ?case unfolding f
    by (auto simp: extends_def split: prod.splits option.splits
        dest!: IH extends_preloadFile [unfolded extends_def])
qed

lemma extends_preloadBootstrapImage:
  "preloadBootstrapImage os dataDir ref s = (r, s') \<Longrightarrow> extends s s'"
  by (auto simp: preloadBootstrapImage_def Let_def extends_def
      split: Reference.splits prod.splits sum.splits option.splits if_splits
      dest!: calls_eq extends_preload_files [unfolded extends_def])

lemma extends_preload_refs:
  "preload_refs os dataDir refs s = (r, s') \<Longrightarrow> extends s s'"
proof (induction refs arbitrary: s)
  case Nil
  then show ?case by simp
next
  case (Cons ref refs)
  note IH = Cons.IH [unfolded extends_def]
  from Cons.prems show ?case
    by (auto simp: extends_def split: prod.splits option.splits
        dest!: IH extends_preloadBootstrapImage [unfolded extends_def])
qed

lemma extends_preloadBootstrapFromRuntime:
  "preloadBootstrapFromRuntime os dataDir resolver s = (r, s') \<Longrightarrow> extends s s'"
  unfolding preloadBootstrapFromRuntime_def Let_def by (rule extends_preload_refs)

lemma extends_rewriteChart:
  "rewriteChart os fileName info dataDir reg s = (r, s') \<Longrightarrow> extends s s'"
  by (auto simp: rewriteChart_def extends_def
      split: prod.splits sum.splits option.splits object.splits if_splits
      dest!: calls_eq)

lemma extends_rewrite_charts:
  "rewrite_charts os files dataDir reg errs s = (errs', s') \<Longrightarrow> extends s s'"
proof (induction files arbitrary: errs s)
  case Nil
  then show ?case by simp
next
  case (Cons f files)
  note IH = Cons.IH [unfolded extends_def]
  obtain name info where f: "f = (name, info)" by (cases f)
  from Cons.prems show ?case unfolding f
    by (auto simp: extends_def split: prod.splits option.splits
        dest!: IH extends_rewriteChart [unfolded extends_def])
qed

lemma extends_setChartValues:
  "setChartValues os dataDir reg s = (r, s') \<Longrightarrow> extends s s'"
  by (auto simp: setChartValues_def Let_def extends_def split: prod.splits sum.splits
      dest!: calls_eq extends_rewrite_charts [unfolded extends_def])

lemma extends_extractPaths:
  "extractPaths os dataDir ref refDigest s = (dirs, s') \<Longrightarrow> extends s s'"
  by (auto simp: extractPaths_def dirExists_def Let_def extends_def
      split: prod.splits sum.splits bool.splits if_splits dest!: calls_eq)

lemma extends_Stage_place:
  "Stage_place os dataDir resolver img refBinDir dirs s = (r, s') \<Longrightarrow> extends s s'"
  by (auto simp: Stage_place_def Let_def extends_def split: prod.splits option.splits
      dest!: calls_eq extends_extractToDirs [unfolded extends_def]
        extends_setChartValues [unfolded extends_def])

subsection \<open>The in-memory system keeps the contracts of the system calls\<close>

lemma mem_RemoveAll_removes:
  "\<forall>p w w'. os_RemoveAll mem_os p w = (None, w') \<longrightarrow> \<not> mem_present w' p"
proof (intro allI impI)
  fix p w w'
  assume a: "os_RemoveAll mem_os p w = (None, w')"
  have "map_of (filter (\<lambda>(k, n). \<not> is_under p k) xs) p = None" for xs :: "(path \<times> node) list"
    by (induction xs) (auto simp: is_under_def)
  with a show "\<not> mem_present w' p"
    by (auto simp: mem_os_def mem_RemoveAll_def mem_present_def split: option.splits)
qed

lemma mem_Symlink_links:
  "\<forall>old new w w'. os_Symlink mem_os old new w = (None, w') \<longrightarrow> mem_readlink w' new = Some old"
  by (auto simp: mem_os_def mem_Symlink_def mem_readlink_def map_add_def
      split: option.splits if_splits)

subsection \<open>The staging directory\<close>

text \<open>
  C8 (as amended). When \<open>ioutil.TempDir\<close> has created the staging directory,
  \<open>extractToDirs\<close> ends with the call \<open>os.RemoveAll\<close> on it, whatever it returns
  (extraction failure, placement failure or success), and drops the error of that call.
  So the staging directory no longer exists when \<open>extractToDirs\<close> returns, provided
  this removal succeeds. \<open>present\<close> is what exists in a world; the second
  hypothesis is the contract of \<open>os.RemoveAll\<close>.
\<close>

theorem extractToDirs_removes_staging:
  assumes tmp: "ioutil_TempDir os dataDir ''runtime-*'' (world s) = (Inr tempDir, w1)"
    and removed: "\<forall>p w w'. os_RemoveAll os p w = (None, w') \<longrightarrow> \<not> present w' p"
  shows "\<exists>tr r. trace (snd (extractToDirs os img dataDir dirs s)) = tr @ [(C_RemoveAll tempDir, r)]
           \<and> (r = None \<longrightarrow> \<not> present (world (snd (extractToDirs os img dataDir dirs s))) tempDir)"
proof -
  obtain s1 where t: "TempDir os dataDir ''runtime-*'' s = (Inr tempDir, s1)"
    using tmp by (simp add: TempDir_def sysv_def)
  obtain result s2 where b: "extractToDirs_body os img tempDir dirs s1 = (result, s2)"
    by (cases "extractToDirs_body os img tempDir dirs s1")
  define s3 where "s3 = snd (sys C_imageReader_Close (imageReader_Close os) s2)"
  obtain r s4 where rm: "RemoveAll os tempDir s3 = (r, s4)"
    by (cases "RemoveAll os tempDir s3")
  have res: "extractToDirs os img dataDir dirs s = (result, s4)"
    by (simp add: extractToDirs_def t b rm [unfolded s3_def] Let_def)
  from rm have tr: "trace s4 = trace s3 @ [(C_RemoveAll tempDir, r)]"
    and w: "os_RemoveAll os tempDir (world s3) = (r, world s4)"
    by (auto simp: RemoveAll_def dest: sys_eq)
  from w removed have "r = None \<longrightarrow> \<not> present (world s4) tempDir"
    by auto
  with tr res show ?thesis by auto
qed


text \<open>
  Two runs in the in-memory system: a first boot, where placement succeeds, and a node
  whose \<open>/d/data\<close> is a file, where placement fails. The staging directory
  \<open>/d/runtime-1\<close> is gone after both.
\<close>

theorem extractToDirs_removes_staging_witness:
  "fst (extractToDirs mem_os runtime_image ''/d''
          [(''charts'', ''/d/server/manifests''), (''bin'', ''/d/data/v1/bin'')]
          (init_state first_boot)) = None
   \<and> \<not> mem_present (world (snd (extractToDirs mem_os runtime_image ''/d''
          [(''charts'', ''/d/server/manifests''), (''bin'', ''/d/data/v1/bin'')]
          (init_state first_boot)))) ''/d/runtime-1''
   \<and> fst (extractToDirs mem_os runtime_image ''/d''
          [(''charts'', ''/d/server/manifests''), (''bin'', ''/d/data/v1/bin'')]
          (init_state data_is_a_file)) = Some (Errno ENOTDIR)
   \<and> \<not> mem_present (world (snd (extractToDirs mem_os runtime_image ''/d''
          [(''charts'', ''/d/server/manifests''), (''bin'', ''/d/data/v1/bin'')]
          (init_state data_is_a_file)))) ''/d/runtime-1''"
proof -
  let ?dirs = "[(''charts'', ''/d/server/manifests''), (''bin'', ''/d/data/v1/bin'')]"
  let ?run = "\<lambda>w. extractToDirs mem_os runtime_image ''/d'' ?dirs (init_state w)"
  have t1: "ioutil_TempDir mem_os ''/d'' ''runtime-*'' (world (init_state first_boot))
      = (Inr ''/d/runtime-1'', first_boot\<lparr>nodes := nodes first_boot @ [(''/d/runtime-1'', NDir)]\<rparr>)"
    by code_simp
  have t2: "ioutil_TempDir mem_os ''/d'' ''runtime-*'' (world (init_state data_is_a_file))
      = (Inr ''/d/runtime-1'',
         data_is_a_file\<lparr>nodes := nodes data_is_a_file @ [(''/d/runtime-1'', NDir)]\<rparr>)"
    by code_simp
  have l1: "last (trace (snd (?run first_boot))) = (C_RemoveAll ''/d/runtime-1'', None)"
    by code_simp
  have l2: "last (trace (snd (?run data_is_a_file))) = (C_RemoveAll ''/d/runtime-1'', None)"
    by code_simp
  have r1: "fst (?run first_boot) = None"
    by code_simp
  have r2: "fst (?run data_is_a_file) = Some (Errno ENOTDIR)"
    by code_simp
  from extractToDirs_removes_staging [where present = mem_present and img = runtime_image
      and dirs = ?dirs, OF t1 mem_RemoveAll_removes]
  obtain tr r where "trace (snd (?run first_boot)) = tr @ [(C_RemoveAll ''/d/runtime-1'', r)]"
    and "r = None \<longrightarrow> \<not> mem_present (world (snd (?run first_boot))) ''/d/runtime-1''"
    by blast
  with l1 have g1: "\<not> mem_present (world (snd (?run first_boot))) ''/d/runtime-1''"
    by simp
  from extractToDirs_removes_staging [where present = mem_present and img = runtime_image
      and dirs = ?dirs, OF t2 mem_RemoveAll_removes]
  obtain tr r where "trace (snd (?run data_is_a_file)) = tr @ [(C_RemoveAll ''/d/runtime-1'', r)]"
    and "r = None \<longrightarrow> \<not> mem_present (world (snd (?run data_is_a_file))) ''/d/runtime-1''"
    by blast
  with l2 have g2: "\<not> mem_present (world (snd (?run data_is_a_file))) ''/d/runtime-1''"
    by simp
  from r1 g1 r2 g2 show ?thesis by simp
qed

text \<open>
  The claim as stated promises the removal on every exit path. In a world where the
  removal of the staging directory fails with \<open>EBUSY\<close>, \<open>extractToDirs\<close> returns
  nil and the staging directory is still there.
\<close>

theorem extractToDirs_removes_staging_counterexample:
  "fst (ioutil_TempDir mem_os ''/d'' ''runtime-*''
      (first_boot\<lparr>faults := [(C_RemoveAll ''/d/runtime-1'', EBUSY)]\<rparr>)) = Inr ''/d/runtime-1''
   \<and> fst (extractToDirs mem_os runtime_image ''/d''
          [(''charts'', ''/d/server/manifests''), (''bin'', ''/d/data/v1/bin'')]
          (init_state (first_boot\<lparr>faults := [(C_RemoveAll ''/d/runtime-1'', EBUSY)]\<rparr>))) = None
   \<and> mem_present (world (snd (extractToDirs mem_os runtime_image ''/d''
          [(''charts'', ''/d/server/manifests''), (''bin'', ''/d/data/v1/bin'')]
          (init_state (first_boot\<lparr>faults := [(C_RemoveAll ''/d/runtime-1'', EBUSY)]\<rparr>)))))
        ''/d/runtime-1''"
  by code_simp

subsection \<open>The symlink to the current binaries\<close>

text \<open>
  C9 (as amended). On every run of \<open>Stage\<close> that returns a nil error, the last two
  calls are \<open>os.RemoveAll\<close> on \<open>dataDir/bin\<close> and \<open>os.Symlink\<close> from the bin
  directory of the current runtime identity to \<open>dataDir/bin\<close>; the errors of both
  are dropped. The path is that symlink when the call of \<open>os.Symlink\<close> succeeded.
  \<open>readlink\<close> is what a symlink of a world points to; the second hypothesis is the
  contract of \<open>os.Symlink\<close>.
\<close>

theorem Stage_symlink:
  assumes ok: "Stage os dataDir privateRegistry resolver s = (Returns (Inr dir), s')"
    and linked: "\<forall>old new w w'. os_Symlink os old new w = (None, w') \<longrightarrow>
        readlink w' new = Some old"
  shows "\<exists>tr r1 r2.
      trace s' = tr @ [(C_RemoveAll (symlinkBinDir dataDir), r1),
                       (C_Symlink dir (symlinkBinDir dataDir), r2)]
      \<and> (\<exists>refDigest. releaseRefDigest (sha256_Sum256 os) (MustGetReference_Runtime resolver)
              = Returns (Inr refDigest) \<and> dir = binDirForDigest dataDir refDigest)
      \<and> (r2 = None \<longrightarrow> readlink (world s') (symlinkBinDir dataDir) = Some dir)"
proof -
  from ok obtain refDigest img dirs s5 where
    rd: "releaseRefDigest (sha256_Sum256 os) (MustGetReference_Runtime resolver) = Returns (Inr refDigest)"
    and pl: "Stage_place os dataDir resolver img (binDirForDigest dataDir refDigest) dirs s5 = (Inr dir, s')"
    by (auto simp: Stage_def Let_def split: go.splits sum.splits prod.splits option.splits)
  from pl obtain s3 where
    d: "dir = binDirForDigest dataDir refDigest"
    and s': "s' = snd (Symlink os dir (symlinkBinDir dataDir)
                  (snd (RemoveAll os (symlinkBinDir dataDir) s3)))"
    by (auto simp: Stage_place_def Let_def split: prod.splits option.splits)
  define s4 where "s4 = snd (RemoveAll os (symlinkBinDir dataDir) s3)"
  obtain r2 where sl: "Symlink os dir (symlinkBinDir dataDir) s4 = (r2, s')"
    using s' by (cases "Symlink os dir (symlinkBinDir dataDir) s4") (simp add: s4_def)
  from sl have tr2: "trace s' = trace s4 @ [(C_Symlink dir (symlinkBinDir dataDir), r2)]"
    and w: "os_Symlink os dir (symlinkBinDir dataDir) (world s4) = (r2, world s')"
    by (auto simp: Symlink_def dest: sys_eq)
  have tr1: "trace s4 = trace s3 @ [(C_RemoveAll (symlinkBinDir dataDir),
      fst (RemoveAll os (symlinkBinDir dataDir) s3))]"
    by (simp add: s4_def)
  from w linked have "r2 = None \<longrightarrow> readlink (world s') (symlinkBinDir dataDir) = Some dir"
    by auto
  with tr1 tr2 rd d show ?thesis by auto
qed


text \<open>A first boot in the in-memory system: \<open>Stage\<close> succeeds and the symlink is in place.\<close>

theorem Stage_symlink_witness:
  "fst (Stage mem_os ''/d'' ''/etc/rancher/rke2/registries.yaml'' tag_resolver
          (init_state first_boot)) = Returns (Inr ''/d/data/v1.21.2-abababababab/bin'')
   \<and> mem_readlink (world (snd (Stage mem_os ''/d'' ''/etc/rancher/rke2/registries.yaml''
          tag_resolver (init_state first_boot)))) ''/d/bin''
       = Some ''/d/data/v1.21.2-abababababab/bin''"
proof -
  let ?run = "Stage mem_os ''/d'' ''/etc/rancher/rke2/registries.yaml'' tag_resolver
          (init_state first_boot)"
  have r: "fst ?run = Returns (Inr ''/d/data/v1.21.2-abababababab/bin'')"
    by code_simp
  have l: "last (trace (snd ?run))
      = (C_Symlink ''/d/data/v1.21.2-abababababab/bin'' ''/d/bin'', None)"
    by code_simp
  have sl: "symlinkBinDir ''/d'' = ''/d/bin''"
    by code_simp
  from r have ok: "?run = (Returns (Inr ''/d/data/v1.21.2-abababababab/bin''), snd ?run)"
    by (simp add: prod_eq_iff)
  from Stage_symlink [where readlink = mem_readlink, OF ok mem_Symlink_links]
  obtain tr r1 r2 where
    "trace (snd ?run) = tr @ [(C_RemoveAll (symlinkBinDir ''/d''), r1),
        (C_Symlink ''/d/data/v1.21.2-abababababab/bin'' (symlinkBinDir ''/d''), r2)]"
    and "r2 = None \<longrightarrow> mem_readlink (world (snd ?run)) (symlinkBinDir ''/d'')
        = Some ''/d/data/v1.21.2-abababababab/bin''"
    by blast
  with l sl have "mem_readlink (world (snd ?run)) ''/d/bin''
        = Some ''/d/data/v1.21.2-abababababab/bin''"
    by simp
  with r show ?thesis by simp
qed

text \<open>
  The claim as stated promises the symlink on every run that returns a nil error. In a
  world where \<open>os.Symlink\<close> fails with \<open>EPERM\<close>, \<open>Stage\<close> still returns the bin
  directory and a nil error, and there is nothing at \<open>/d/bin\<close>.
\<close>

theorem Stage_symlink_counterexample:
  "fst (Stage mem_os ''/d'' ''/etc/rancher/rke2/registries.yaml'' tag_resolver
          (init_state (first_boot\<lparr>faults :=
             [(C_Symlink ''/d/data/v1.21.2-abababababab/bin'' ''/d/bin'', EPERM)]\<rparr>)))
      = Returns (Inr ''/d/data/v1.21.2-abababababab/bin'')
   \<and> mem_readlink (world (snd (Stage mem_os ''/d'' ''/etc/rancher/rke2/registries.yaml''
          tag_resolver (init_state (first_boot\<lparr>faults :=
             [(C_Symlink ''/d/data/v1.21.2-abababababab/bin'' ''/d/bin'', EPERM)]\<rparr>)))))
        ''/d/bin'' = None
   \<and> mem_present (world (snd (Stage mem_os ''/d'' ''/etc/rancher/rke2/registries.yaml''
          tag_resolver (init_state (first_boot\<lparr>faults :=
             [(C_Symlink ''/d/data/v1.21.2-abababababab/bin'' ''/d/bin'', EPERM)]\<rparr>)))))
        ''/d/bin'' = False"
  by code_simp

subsection \<open>Digest references and the local search\<close>

lemma preloadBootstrapImage_digest:
  "preloadBootstrapImage os dataDir (RefDigest d) s =
     ((None, None), logf DebugLevel ''No local image available for %s: reference is not a tag''
        [S (digest_String d)] s)"
  by (simp add: preloadBootstrapImage_def)

lemma releaseRefDigest_digest_ok:
  "\<exists>refDigest. releaseRefDigest Sum256 (RefDigest d) = Returns (Inr refDigest)"
  by (simp add: releaseRefDigest_def Let_def)

text \<open>
  C10. When the runtime image reference is a digest (and so is the reference under the
  default registry, when the configured registry is another one),
  \<open>preloadBootstrapImage\<close> returns no image and no error without a single call to
  the system, so does \<open>preloadBootstrapFromRuntime\<close>, and the first call that
  \<open>Stage\<close> makes is the load of the registry configuration, followed, when that
  succeeds, by the pull from the remote registry. No hypothesis is made about the
  images directory: an archive there that holds the image changes nothing.
\<close>

theorem Stage_digest_bypasses_local_search:
  assumes dg: "MustGetReference_Runtime resolver = RefDigest d"
    and dg': "Registry_Name resolver \<noteq> DefaultRegistry \<longrightarrow>
        (\<exists>d'. MustGetReference_Runtime_DefaultRegistry resolver = RefDigest d')"
  shows "fst (preloadBootstrapImage os dataDir (RefDigest d) s) = (None, None)
    \<and> trace (snd (preloadBootstrapImage os dataDir (RefDigest d) s)) = trace s
    \<and> world (snd (preloadBootstrapImage os dataDir (RefDigest d) s)) = world s
    \<and> fst (preloadBootstrapFromRuntime os dataDir resolver s) = (None, None)
    \<and> trace (snd (preloadBootstrapFromRuntime os dataDir resolver s)) = trace s
    \<and> world (snd (preloadBootstrapFromRuntime os dataDir resolver s)) = world s
    \<and> (\<exists>r tr. trace (snd (Stage os dataDir privateRegistry resolver s))
            = trace s @ (C_getPrivateRegistries privateRegistry, r) # tr
          \<and> (r = None \<longrightarrow> (\<exists>r' tr'. tr = (C_remote_Image (RefDigest d), r') # tr')))"
proof -
  have img: "fst (preloadBootstrapImage os dataDir (RefDigest d) s) = (None, None)
    \<and> trace (snd (preloadBootstrapImage os dataDir (RefDigest d) s)) = trace s
    \<and> world (snd (preloadBootstrapImage os dataDir (RefDigest d) s)) = world s"
    by (simp add: preloadBootstrapImage_digest)
  obtain s1 where rt: "preloadBootstrapFromRuntime os dataDir resolver s = ((None, None), s1)"
    and tr1: "trace s1 = trace s" and w1: "world s1 = world s"
    using dg dg'
    by (cases "Registry_Name resolver = DefaultRegistry")
      (auto simp: preloadBootstrapFromRuntime_def preloadBootstrapImage_digest)
  obtain refDigest where rd:
    "releaseRefDigest (sha256_Sum256 os) (RefDigest d) = Returns (Inr refDigest)"
    using releaseRefDigest_digest_ok by blast
  obtain v s2 where gp: "sysv (C_getPrivateRegistries privateRegistry)
      (getPrivateRegistries os privateRegistry) s1 = (v, s2)"
    by (cases "sysv (C_getPrivateRegistries privateRegistry)
      (getPrivateRegistries os privateRegistry) s1")
  from gp have tr2: "trace s2 = trace s @ [(C_getPrivateRegistries privateRegistry,
      case v of Inl err \<Rightarrow> Some err | Inr x \<Rightarrow> None)]"
    by (auto dest: sysv_eq simp: tr1)
  have stage: "\<exists>r tr. trace (snd (Stage os dataDir privateRegistry resolver s))
            = trace s @ (C_getPrivateRegistries privateRegistry, r) # tr
          \<and> (r = None \<longrightarrow> (\<exists>r' tr'. tr = (C_remote_Image (RefDigest d), r') # tr'))"
  proof (cases v)
    case (Inl err)
    then have "snd (Stage os dataDir privateRegistry resolver s) = s2"
      by (simp add: Stage_def dg rd rt gp Let_def)
    with tr2 Inl show ?thesis by simp
  next
    case (Inr registries)
    define s2' where "s2' = logf InfoLevel ''Pulling runtime image %s'' [S (digest_String d)] s2"
    obtain v' s3 where ri: "sysv (C_remote_Image (RefDigest d))
        (remote_Image os (RefDigest d) registries) s2' = (v', s3)"
      by (cases "sysv (C_remote_Image (RefDigest d))
        (remote_Image os (RefDigest d) registries) s2'")
    from ri have tr3: "trace s3 = trace s @ [(C_getPrivateRegistries privateRegistry, None),
        (C_remote_Image (RefDigest d), case v' of Inl err \<Rightarrow> Some err | Inr x \<Rightarrow> None)]"
      by (auto dest: sysv_eq simp: tr2 Inr s2'_def)
    show ?thesis
    proof (cases v')
      case (Inl err)
      then have "snd (Stage os dataDir privateRegistry resolver s) = s3"
        by (simp add: Stage_def dg rd rt gp Inr ri [unfolded s2'_def] Let_def)
      with tr3 Inl show ?thesis by simp
    next
      case (Inr i)
      obtain dirs s5 where ep: "extractPaths os dataDir (RefDigest d) refDigest s3 = (dirs, s5)"
        by (cases "extractPaths os dataDir (RefDigest d) refDigest s3")
      obtain r6 s6 where sp: "Stage_place os dataDir resolver
          (cache_Image os i (runtimeCacheDir dataDir)) (binDirForDigest dataDir refDigest) dirs s5
          = (r6, s6)"
        by (cases "Stage_place os dataDir resolver
          (cache_Image os i (runtimeCacheDir dataDir)) (binDirForDigest dataDir refDigest) dirs s5")
      have "snd (Stage os dataDir privateRegistry resolver s) = s6"
        using \<open>v = Inr registries\<close> Inr
        by (simp add: Stage_def dg rd rt gp ri [unfolded s2'_def] ep sp Let_def)
      moreover have "extends s3 s6"
        using extends_extractPaths [OF ep] extends_Stage_place [OF sp] by (rule extends_trans)
      ultimately show ?thesis
        using tr3 by (auto simp: extends_def)
    qed
  qed
  from img rt tr1 w1 stage show ?thesis by simp
qed


text \<open>
  A node whose images directory holds an archive with the image under the digest
  reference: the archive is never opened, and \<open>Stage\<close> starts with the registry
  configuration and the remote pull.
\<close>

theorem Stage_digest_bypasses_local_search_witness:
  "fst (preloadBootstrapImage mem_os ''/d'' (RefDigest runtime_digest) (init_state airgap))
      = (None, None)
   \<and> trace (snd (preloadBootstrapImage mem_os ''/d'' (RefDigest runtime_digest)
        (init_state airgap))) = []
   \<and> fst (preloadBootstrapFromRuntime mem_os ''/d'' digest_resolver (init_state airgap))
      = (None, None)
   \<and> trace (snd (preloadBootstrapFromRuntime mem_os ''/d'' digest_resolver (init_state airgap)))
      = []
   \<and> take 2 (trace (snd (Stage mem_os ''/d'' ''/etc/rancher/rke2/registries.yaml''
        digest_resolver (init_state airgap))))
      = [(C_getPrivateRegistries ''/etc/rancher/rke2/registries.yaml'', None),
         (C_remote_Image (RefDigest runtime_digest), None)]
   \<and> fst (tarball_Image mem_os OpenGzip_MultiReadCloser ''/d/agent/images/rke2-images.tar.gz''
        \<lparr>tag_String = digest_String runtime_digest, tag_Name = digest_Name runtime_digest,
          TagStr = []\<rparr> airgap) = Inr runtime_image"
proof -
  have dg: "MustGetReference_Runtime digest_resolver = RefDigest runtime_digest"
    by (simp add: digest_resolver_def)
  have dg': "Registry_Name digest_resolver \<noteq> DefaultRegistry \<longrightarrow>
        (\<exists>d'. MustGetReference_Runtime_DefaultRegistry digest_resolver = RefDigest d')"
    by (simp add: digest_resolver_def)
  have t0: "trace (init_state airgap) = []"
    by (simp add: init_state_def)
  have st: "take 2 (trace (snd (Stage mem_os ''/d'' ''/etc/rancher/rke2/registries.yaml''
        digest_resolver (init_state airgap))))
      = [(C_getPrivateRegistries ''/etc/rancher/rke2/registries.yaml'', None),
         (C_remote_Image (RefDigest runtime_digest), None)]"
    by code_simp
  have ar: "fst (tarball_Image mem_os OpenGzip_MultiReadCloser ''/d/agent/images/rke2-images.tar.gz''
        \<lparr>tag_String = digest_String runtime_digest, tag_Name = digest_Name runtime_digest,
          TagStr = []\<rparr> airgap) = Inr runtime_image"
    by code_simp
  from Stage_digest_bypasses_local_search [OF dg dg', of mem_os "''/d''" "init_state airgap"] st ar
  show ?thesis
    by (simp add: t0)
qed

subsection \<open>The scan of the images directory\<close>

lemma preloadFile_None_logged:
  assumes "preloadFile os t g s = ((None, e), s1)"
  shows "extends s s1 \<and> (preloadFile_switch g = Skip
      \<or> (e \<noteq> None \<and> s1 = s)
      \<or> (\<exists>l \<in> set (logs s1). S g \<in> set (snd (snd l))))"
  using assms
  by (auto simp: preloadFile_def extends_def split: selected.splits prod.splits sum.splits
      dest!: sysv_eq)

lemma preload_files_none:
  assumes "fst (preload_files os t pre s) = None"
  shows "preload_files os t (pre @ rest) s
        = preload_files os t rest (snd (preload_files os t pre s))
      \<and> (\<forall>(g, i) \<in> set pre. preloadFile_switch g = Skip
            \<or> (\<exists>l \<in> set (logs (snd (preload_files os t pre s))). S g \<in> set (snd (snd l))))"
  using assms
proof (induction pre arbitrary: s)
  case Nil
  show ?case by simp
next
  case (Cons p pre)
  obtain g i where p: "p = (g, i)" by (cases p)
  obtain x e s1 where pf0: "preloadFile os t g s = ((x, e), s1)"
    by (cases "preloadFile os t g s") auto
  from Cons.prems have "x = None"
    by (auto simp: p pf0 split: option.splits)
  with pf0 have pf: "preloadFile os t g s = ((None, e), s1)" by simp
  define s2 where "s2 = (case e of None \<Rightarrow> s1
    | Some err \<Rightarrow> logf InfoLevel ''Failed to check %s: %v'' [S g, E err] s1)"
  have step: "preload_files os t (p # xs) s = preload_files os t xs s2" for xs
    by (simp add: p pf s2_def split: option.splits)
  from Cons.prems have rest: "fst (preload_files os t pre s2) = None"
    by (simp only: step)
  from preloadFile_None_logged [OF pf]
  have l2: "preloadFile_switch g = Skip \<or> (\<exists>l \<in> set (logs s2). S g \<in> set (snd (snd l)))"
    by (auto simp: s2_def extends_def split: option.splits)
  note IH = Cons.IH [OF rest]
  have b: "extends s2 (snd (preload_files os t pre s2))"
    by (rule extends_preload_files [OF surjective_pairing])
  from l2 b have "preloadFile_switch g = Skip
      \<or> (\<exists>l \<in> set (logs (snd (preload_files os t pre s2))). S g \<in> set (snd (snd l)))"
    by (auto simp: extends_def)
  with IH show ?case
    using step [of "pre @ rest"] step [of pre] by (auto simp: p)
qed

lemma preload_files_match:
  assumes "fst (preloadFile os t f s) = (Some img, None)"
  shows "preload_files os t ((f, info) # post) s =
     (Some img, logf DebugLevel ''Found %s in %s'' [S (tag_String t), S f] (snd (preloadFile os t f s)))"
  using assms by (cases "preloadFile os t f s") auto

lemma preloadBootstrapImage_not_exist:
  assumes "os_Stat os (imagesDir dataDir) (world s) = (Inl err, w1)" and "IsNotExist err"
  shows "fst (preloadBootstrapImage os dataDir (RefTag t) s) = (None, None)
    \<and> trace (snd (preloadBootstrapImage os dataDir (RefTag t) s))
        = trace s @ [(C_Stat (imagesDir dataDir), Some err)]"
  using assms by (simp add: preloadBootstrapImage_def Stat_def sysv_def Let_def)

lemma preloadBootstrapImage_walk:
  assumes "os_Stat os (imagesDir dataDir) (world s) = (Inr fi, w1)"
    and "filepath_Walk os (imagesDir dataDir) w1 = (items, w2)"
    and "walk_images items [] = Inr files"
  shows "fst (preloadBootstrapImage os dataDir (RefTag t) s) =
     (fst (preload_files os t (go_range (range_keys os) files)
        (s\<lparr>world := w2, trace := trace s @ [(C_Stat (imagesDir dataDir), None),
           (C_Walk (imagesDir dataDir), None)]\<rparr>)), None)"
  using assms
  by (simp add: preloadBootstrapImage_def Stat_def sysv_def Walk_def Let_def
      split: prod.splits option.splits)

text \<open>
  C5. When \<open>os.Stat\<close> reports that the images directory does not exist,
  \<open>preloadBootstrapImage\<close> returns no image and no error, and makes no other call.
  When the directory is there and the walk succeeds, the result is that of the loop
  over the files, never an error. In that loop, when the files \<open>pre\<close> yield no image
  (whether \<open>preloadFile\<close> returns an error for them or not) and the next file \<open>f\<close>
  yields one, the scan has gone on through all of \<open>pre\<close>, each file of \<open>pre\<close> that
  is not skipped as a \<open>.txt\<close> file has a log line naming it, and the scan ends at
  \<open>f\<close> with its image: the files after \<open>f\<close> play no part.
\<close>

theorem preloadBootstrapImage_scan:
  "(os_Stat os (imagesDir dataDir) (world s) = (Inl err, w1) \<and> IsNotExist err \<longrightarrow>
      fst (preloadBootstrapImage os dataDir (RefTag t) s) = (None, None)
      \<and> trace (snd (preloadBootstrapImage os dataDir (RefTag t) s))
          = trace s @ [(C_Stat (imagesDir dataDir), Some err)])
   \<and> (os_Stat os (imagesDir dataDir) (world s) = (Inr fi, w1)
        \<and> filepath_Walk os (imagesDir dataDir) w1 = (items, w2)
        \<and> walk_images items [] = Inr files \<longrightarrow>
      fst (preloadBootstrapImage os dataDir (RefTag t) s) =
        (fst (preload_files os t (go_range (range_keys os) files)
           (s\<lparr>world := w2, trace := trace s @ [(C_Stat (imagesDir dataDir), None),
              (C_Walk (imagesDir dataDir), None)]\<rparr>)), None))
   \<and> (fst (preload_files os t pre s') = None
        \<and> fst (preloadFile os t f (snd (preload_files os t pre s'))) = (Some img, None) \<longrightarrow>
      fst (preload_files os t (pre @ (f, info) # post) s') = Some img
      \<and> preload_files os t (pre @ (f, info) # post) s' = preload_files os t (pre @ [(f, info)]) s'
      \<and> (\<forall>(g, i) \<in> set pre. preloadFile_switch g = Skip
            \<or> (\<exists>l \<in> set (logs (snd (preload_files os t (pre @ (f, info) # post) s'))).
                  S g \<in> set (snd (snd l)))))"
proof -
  have a: "os_Stat os (imagesDir dataDir) (world s) = (Inl err, w1) \<and> IsNotExist err \<longrightarrow>
      fst (preloadBootstrapImage os dataDir (RefTag t) s) = (None, None)
      \<and> trace (snd (preloadBootstrapImage os dataDir (RefTag t) s))
          = trace s @ [(C_Stat (imagesDir dataDir), Some err)]"
  proof (intro impI)
    assume h: "os_Stat os (imagesDir dataDir) (world s) = (Inl err, w1) \<and> IsNotExist err"
    show "fst (preloadBootstrapImage os dataDir (RefTag t) s) = (None, None)
      \<and> trace (snd (preloadBootstrapImage os dataDir (RefTag t) s))
          = trace s @ [(C_Stat (imagesDir dataDir), Some err)]"
      by (rule preloadBootstrapImage_not_exist [OF conjunct1 [OF h] conjunct2 [OF h]])
  qed
  have b: "os_Stat os (imagesDir dataDir) (world s) = (Inr fi, w1)
        \<and> filepath_Walk os (imagesDir dataDir) w1 = (items, w2)
        \<and> walk_images items [] = Inr files \<longrightarrow>
      fst (preloadBootstrapImage os dataDir (RefTag t) s) =
        (fst (preload_files os t (go_range (range_keys os) files)
           (s\<lparr>world := w2, trace := trace s @ [(C_Stat (imagesDir dataDir), None),
              (C_Walk (imagesDir dataDir), None)]\<rparr>)), None)"
  proof (intro impI)
    assume h: "os_Stat os (imagesDir dataDir) (world s) = (Inr fi, w1)
        \<and> filepath_Walk os (imagesDir dataDir) w1 = (items, w2)
        \<and> walk_images items [] = Inr files"
    show "fst (preloadBootstrapImage os dataDir (RefTag t) s) =
        (fst (preload_files os t (go_range (range_keys os) files)
           (s\<lparr>world := w2, trace := trace s @ [(C_Stat (imagesDir dataDir), None),
              (C_Walk (imagesDir dataDir), None)]\<rparr>)), None)"
      by (rule preloadBootstrapImage_walk [OF conjunct1 [OF h] conjunct1 [OF conjunct2 [OF h]]
            conjunct2 [OF conjunct2 [OF h]]])
  qed
  have c: "fst (preload_files os t (pre @ (f, info) # post) s') = Some img
      \<and> preload_files os t (pre @ (f, info) # post) s' = preload_files os t (pre @ [(f, info)]) s'
      \<and> (\<forall>(g, i) \<in> set pre. preloadFile_switch g = Skip
            \<or> (\<exists>l \<in> set (logs (snd (preload_files os t (pre @ (f, info) # post) s'))).
                  S g \<in> set (snd (snd l))))"
    if none: "fst (preload_files os t pre s') = None"
      and hit: "fst (preloadFile os t f (snd (preload_files os t pre s'))) = (Some img, None)"
  proof -
    define s1 where "s1 = snd (preload_files os t pre s')"
    have p1: "preload_files os t (pre @ rest) s' = preload_files os t rest s1" for rest
      using preload_files_none [OF none, of rest] by (simp add: s1_def)
    have l1: "\<forall>(g, i) \<in> set pre. preloadFile_switch g = Skip
            \<or> (\<exists>l \<in> set (logs s1). S g \<in> set (snd (snd l)))"
      using preload_files_none [OF none, of "[]"] by (simp add: s1_def)
    have m1: "preload_files os t ((f, info) # rest) s1 = (Some img,
        logf DebugLevel ''Found %s in %s'' [S (tag_String t), S f] (snd (preloadFile os t f s1)))"
      for rest
      using hit by (intro preload_files_match) (simp add: s1_def)
    have ext: "extends s1 (snd (preload_files os t ((f, info) # post) s1))"
      by (rule extends_preload_files [OF surjective_pairing])
    have "\<forall>(g, i) \<in> set pre. preloadFile_switch g = Skip
            \<or> (\<exists>l \<in> set (logs (snd (preload_files os t ((f, info) # post) s1))).
                  S g \<in> set (snd (snd l)))"
    proof (rule ballI)
      fix x assume x: "x \<in> set pre"
      obtain g i where xg: "x = (g, i)" by (cases x)
      from l1 x have "preloadFile_switch g = Skip
          \<or> (\<exists>l \<in> set (logs s1). S g \<in> set (snd (snd l)))"
        unfolding xg by blast
      then have "preloadFile_switch g = Skip
          \<or> (\<exists>l \<in> set (logs (snd (preload_files os t ((f, info) # post) s1))).
                  S g \<in> set (snd (snd l)))"
        using logged_mono [OF ext, of "\<lambda>l. S g \<in> set (snd (snd l))"] by blast
      then show "case x of (g, i) \<Rightarrow> preloadFile_switch g = Skip
            \<or> (\<exists>l \<in> set (logs (snd (preload_files os t ((f, info) # post) s1))).
                  S g \<in> set (snd (snd l)))"
        unfolding xg by (simp only: prod.case)
    qed
    then show ?thesis
      by (simp only: p1 m1 fst_conv simp_thms)
  qed
  show ?thesis
    apply (intro conjI)
    subgoal by (rule a)
    subgoal by (rule b)
    subgoal by (intro impI, elim conjE, rule c; assumption)
    done
qed


text \<open>
  A first boot (no images directory), and a node whose images directory holds a
  checksum file, a file of an unknown type, an archive without the image, an archive
  with it and a later archive: the image of the fourth file is returned.
\<close>

theorem preloadBootstrapImage_scan_witness:
  "fst (preloadBootstrapImage mem_os ''/d'' (RefTag runtime_tag) (init_state first_boot))
      = (None, None)
   \<and> trace (snd (preloadBootstrapImage mem_os ''/d'' (RefTag runtime_tag) (init_state first_boot)))
      = [(C_Stat ''/d/agent/images'', Some (Errno ENOENT))]
   \<and> fst (preload_files mem_os runtime_tag
        ([(''/d/agent/images/sha256sum-amd64.txt'', info_of (NFile [])),
          (''/d/agent/images/images.zip'', info_of (NFile [])),
          (''/d/agent/images/other.tar'', info_of (NFile []))]
         @ (''/d/agent/images/rke2-images.tar.gz'', info_of (NFile []))
         # [(''/d/agent/images/zz.tar'', info_of (NFile []))])
        (init_state airgap)) = Some runtime_image
   \<and> fst (preloadBootstrapImage mem_os ''/d'' (RefTag runtime_tag) (init_state airgap))
      = (Some runtime_image, None)"
proof -
  let ?pre = "[(''/d/agent/images/sha256sum-amd64.txt'', info_of (NFile [])),
          (''/d/agent/images/images.zip'', info_of (NFile [])),
          (''/d/agent/images/other.tar'', info_of (NFile []))]"
  let ?f = "''/d/agent/images/rke2-images.tar.gz''"
  let ?post = "[(''/d/agent/images/zz.tar'', info_of (NFile []))]"
  have dir: "imagesDir ''/d'' = ''/d/agent/images''"
    by code_simp
  have st: "os_Stat mem_os (imagesDir ''/d'') (world (init_state first_boot))
      = (Inl (Errno ENOENT), first_boot) \<and> IsNotExist (Errno ENOENT)"
    by code_simp
  have none: "fst (preload_files mem_os runtime_tag ?pre (init_state airgap)) = None"
    by code_simp
  have hit: "fst (preloadFile mem_os runtime_tag ?f
      (snd (preload_files mem_os runtime_tag ?pre (init_state airgap)))) = (Some runtime_image, None)"
    by code_simp
  have whole: "fst (preloadBootstrapImage mem_os ''/d'' (RefTag runtime_tag) (init_state airgap))
      = (Some runtime_image, None)"
    by code_simp
  have t0: "trace (init_state first_boot) = []"
    by (simp add: init_state_def)
  note inst = preloadBootstrapImage_scan [of mem_os "''/d''" "init_state first_boot"
      "Errno ENOENT" first_boot runtime_tag _ _ _ _ ?pre "init_state airgap" ?f runtime_image
      "info_of (NFile [])" ?post]
  from inst [THEN conjunct1] st
  have g1: "fst (preloadBootstrapImage mem_os ''/d'' (RefTag runtime_tag) (init_state first_boot))
      = (None, None)
    \<and> trace (snd (preloadBootstrapImage mem_os ''/d'' (RefTag runtime_tag) (init_state first_boot)))
      = [(C_Stat ''/d/agent/images'', Some (Errno ENOENT))]"
    by (simp add: dir t0)
  from inst [THEN conjunct2, THEN conjunct2] none hit
  have g2: "fst (preload_files mem_os runtime_tag (?pre @ (?f, info_of (NFile [])) # ?post)
        (init_state airgap)) = Some runtime_image"
    by blast
  from g1 g2 whole show ?thesis by simp
qed

subsection \<open>Atomic placement\<close>

text \<open>
  C2 (the code at the failing input). On a node whose \<open>/d/data\<close> is a regular file
  the parent of the bin destination cannot be created, and \<open>extractToDirs\<close> leaves
  its loop with \<open>return err\<close> (bootstrap.go, line 263) instead of recording the error.
  With an image that has no charts and the plan visited charts first, the error
  recorded for the absent staged charts is dropped: only \<open>ENOTDIR\<close> is returned.
  With the full image and the plan visited bin first, the charts entry is never
  processed: no rename of the staged charts is made and the manifests directory is not
  there afterwards, while with charts visited first it is.
\<close>

theorem extractToDirs_returns_early_at_failing_input:
  "fst (extractToDirs mem_os binaries_image ''/d''
          [(''charts'', ''/d/server/manifests''), (''bin'', ''/d/data/v1/bin'')]
          (init_state data_is_a_file)) = Some (Errno ENOTDIR)
   \<and> (C_Stat ''/d/runtime-1/charts'', Some (Errno ENOENT))
        \<in> set (trace (snd (extractToDirs mem_os binaries_image ''/d''
          [(''charts'', ''/d/server/manifests''), (''bin'', ''/d/data/v1/bin'')]
          (init_state data_is_a_file))))
   \<and> fst (extractToDirs mem_os runtime_image ''/d''
          [(''bin'', ''/d/data/v1/bin''), (''charts'', ''/d/server/manifests'')]
          (init_state data_is_a_file)) = Some (Errno ENOTDIR)
   \<and> filter (\<lambda>e. fst e = C_Rename ''/d/runtime-1/charts'' ''/d/server/manifests'')
        (trace (snd (extractToDirs mem_os runtime_image ''/d''
          [(''bin'', ''/d/data/v1/bin''), (''charts'', ''/d/server/manifests'')]
          (init_state data_is_a_file))))
       = []
   \<and> mem_present (world (snd (extractToDirs mem_os runtime_image ''/d''
          [(''bin'', ''/d/data/v1/bin''), (''charts'', ''/d/server/manifests'')]
          (init_state data_is_a_file)))) ''/d/server/manifests'' = False
   \<and> fst (extractToDirs mem_os runtime_image ''/d''
          [(''charts'', ''/d/server/manifests''), (''bin'', ''/d/data/v1/bin'')]
          (init_state data_is_a_file)) = Some (Errno ENOTDIR)
   \<and> mem_present (world (snd (extractToDirs mem_os runtime_image ''/d''
          [(''charts'', ''/d/server/manifests''), (''bin'', ''/d/data/v1/bin'')]
          (init_state data_is_a_file)))) ''/d/server/manifests'' = True"
  by code_simp

subsection \<open>Manifest rewriter\<close>

lemma map_of_map_put: "map_of (map_put k v m) k' = (if k' = k then Some v else map_of m k')"
proof (cases "map_of m k")
  case None
  then show ?thesis by (simp add: map_put_def map_add_def split: option.splits)
next
  case (Some x)
  have "map_of (map (\<lambda>(k', v'). if k' = k then (k', v) else (k', v')) m) k'
      = (if k' = k then map_option (\<lambda>_. v) (map_of m k') else map_of m k')"
    by (induction m) auto
  with Some show ?thesis by (auto simp: map_put_def)
qed

lemma index_Set_map_put:
  "index_Set (map_put k v m) k' = (if k' = k then v else index_Set m k')"
  by (simp add: index_Set_def map_of_map_put)

lemma set_chart_values_sets:
  assumes "set_chart_values dji dataDir reg c0 = (c, changed)"
  shows "Set_StrVal c ''global.rke2DataDir'' = dataDir
    \<and> Set_StrVal c ''global.systemDefaultRegistry'' = reg
    \<and> spec_JobImage c = (if reg \<noteq> [] then reg @ ''/'' @ dji else dji)"
  using assms
  by (auto simp: set_chart_values_def Set_StrVal_def Let_def index_Set_map_put FromString_def
      split: if_splits)

lemma set_chart_values_fixpoint:
  assumes "Set_StrVal c ''global.rke2DataDir'' = dataDir"
    and "Set_StrVal c ''global.systemDefaultRegistry'' = reg"
    and "spec_JobImage c = (if reg \<noteq> [] then reg @ ''/'' @ dji else dji)"
  shows "snd (set_chart_values dji dataDir reg c) = False"
  using assms
  by (auto simp: set_chart_values_def Set_StrVal_def Let_def split: if_splits)

lemma ReadFile_world:
  assumes "ReadFile os f s = (x, sa)"
  shows "ioutil_ReadFile os f (world s) = (x, world sa)"
    and "trace sa = trace s @ [(C_ReadFile f, case x of Inl err \<Rightarrow> Some err | Inr v \<Rightarrow> None)]"
  using assms by (auto simp: ReadFile_def dest: sysv_eq)

lemma rewriteChart_read_fail:
  assumes "ReadFile os f s = (Inl e, sa)"
  shows "rewriteChart os f info dataDir reg s = (Some (Wrap e (''Failed to read manifest '' @ f)), sa)"
  using assms by (simp add: rewriteChart_def)

lemma rewriteChart_read_only:
  assumes "ReadFile os f s = (Inr b, sa)" and "\<not> needs_write os dataDir reg b"
  shows "fst (rewriteChart os f info dataDir reg s) = None
    \<and> trace (snd (rewriteChart os f info dataDir reg s)) = trace sa
    \<and> world (snd (rewriteChart os f info dataDir reg s)) = world sa"
  using assms
  by (auto simp: rewriteChart_def needs_write_def split: sum.splits object.splits prod.splits)

lemma rewriteChart_first_run:
  assumes "rewriteChart os f info dataDir reg s = (None, s1)"
  shows "\<exists>b sa. ReadFile os f s = (Inr b, sa)
    \<and> ((\<not> needs_write os dataDir reg b \<and> world s1 = world sa)
       \<or> (\<exists>c0 c fd w1 bb w2. ser_Decode os b = Inr (HelmChartObj c0)
            \<and> set_chart_values (DefaultJobImage os) dataDir reg c0 = (c, True)
            \<and> ser_Encode os c = Inr bb
            \<and> os_OpenFile os f [O_RDWR, O_TRUNC] (Mode info) (world sa) = (Inr fd, w1)
            \<and> file_Write os fd bb w1 = (None, w2)
            \<and> file_Close os fd w2 = (None, world s1)))"
  using assms
  by (auto simp: rewriteChart_def needs_write_def OpenFile_def Write_def Close_def
      split: sum.splits object.splits prod.splits if_splits option.splits
      dest!: sysv_eq sys_eq)

lemma settled_cong:
  "contents w' = contents w \<Longrightarrow> settled os contents dataDir reg w' f = settled os contents dataDir reg w f"
  by (simp add: settled_def)

lemma encoded_settled:
  assumes R: "\<forall>c b. ser_Encode os c = Inr b \<longrightarrow>
        (\<exists>c'. ser_Decode os b = Inr (HelmChartObj c')
          \<and> spec_JobImage c' = spec_JobImage c
          \<and> Set_StrVal c' ''global.rke2DataDir'' = Set_StrVal c ''global.rke2DataDir''
          \<and> Set_StrVal c' ''global.systemDefaultRegistry''
              = Set_StrVal c ''global.systemDefaultRegistry'')"
    and scv: "set_chart_values (DefaultJobImage os) dataDir reg c0 = (c, changed)"
    and enc: "ser_Encode os c = Inr bb"
  shows "\<not> needs_write os dataDir reg bb"
proof -
  from R enc obtain c' where dec: "ser_Decode os bb = Inr (HelmChartObj c')"
    and j: "spec_JobImage c' = spec_JobImage c"
    and d: "Set_StrVal c' ''global.rke2DataDir'' = Set_StrVal c ''global.rke2DataDir''"
    and g: "Set_StrVal c' ''global.systemDefaultRegistry''
              = Set_StrVal c ''global.systemDefaultRegistry''"
    by blast
  from set_chart_values_sets [OF scv] j d g
  have "snd (set_chart_values (DefaultJobImage os) dataDir reg c') = False"
    by (intro set_chart_values_fixpoint) simp_all
  with dec show ?thesis
    by (simp add: needs_write_def)
qed

lemma rewriteChart_settles:
  assumes R: "\<forall>c b. ser_Encode os c = Inr b \<longrightarrow>
        (\<exists>c'. ser_Decode os b = Inr (HelmChartObj c')
          \<and> spec_JobImage c' = spec_JobImage c
          \<and> Set_StrVal c' ''global.rke2DataDir'' = Set_StrVal c ''global.rke2DataDir''
          \<and> Set_StrVal c' ''global.systemDefaultRegistry''
              = Set_StrVal c ''global.systemDefaultRegistry'')"
    and K1: "\<forall>f w b w'. ioutil_ReadFile os f w = (Inr b, w') \<longrightarrow> contents w f = Some b"
    and K2: "\<forall>f w. contents (snd (ioutil_ReadFile os f w)) = contents w"
    and K3: "\<forall>f m w fd w1 b w2 w3. os_OpenFile os f [O_RDWR, O_TRUNC] m w = (Inr fd, w1)
        \<and> file_Write os fd b w1 = (None, w2) \<and> file_Close os fd w2 = (None, w3)
        \<longrightarrow> contents w3 = (contents w)(f \<mapsto> b)"
    and run: "rewriteChart os f info dataDir reg s = (None, s1)"
  shows "settled os contents dataDir reg (world s1) f
    \<and> (\<forall>g. settled os contents dataDir reg (world s) g
          \<longrightarrow> settled os contents dataDir reg (world s1) g)"
proof -
  from rewriteChart_first_run [OF run] obtain b sa where
    rd1: "ReadFile os f s = (Inr b, sa)"
    and alt: "(\<not> needs_write os dataDir reg b \<and> world s1 = world sa)
       \<or> (\<exists>c0 c fd w1 bb w2. ser_Decode os b = Inr (HelmChartObj c0)
            \<and> set_chart_values (DefaultJobImage os) dataDir reg c0 = (c, True)
            \<and> ser_Encode os c = Inr bb
            \<and> os_OpenFile os f [O_RDWR, O_TRUNC] (Mode info) (world sa) = (Inr fd, w1)
            \<and> file_Write os fd bb w1 = (None, w2)
            \<and> file_Close os fd w2 = (None, world s1))"
    by blast
  note w = ReadFile_world(1) [OF rd1]
  from K1 w have c: "contents (world s) f = Some b"
    by blast
  from K2 w have ro: "contents (world sa) = contents (world s)"
    by (metis snd_conv)
  from alt show ?thesis
  proof
    assume a: "\<not> needs_write os dataDir reg b \<and> world s1 = world sa"
    with ro have same: "contents (world s1) = contents (world s)"
      by simp
    from a c have "settled os contents dataDir reg (world s) f"
      by (simp add: settled_def)
    with same show ?thesis
      by (simp add: settled_def)
  next
    assume "\<exists>c0 c fd w1 bb w2. ser_Decode os b = Inr (HelmChartObj c0)
            \<and> set_chart_values (DefaultJobImage os) dataDir reg c0 = (c, True)
            \<and> ser_Encode os c = Inr bb
            \<and> os_OpenFile os f [O_RDWR, O_TRUNC] (Mode info) (world sa) = (Inr fd, w1)
            \<and> file_Write os fd bb w1 = (None, w2)
            \<and> file_Close os fd w2 = (None, world s1)"
    then obtain c0 c fd w1 bb w2 where
      scv: "set_chart_values (DefaultJobImage os) dataDir reg c0 = (c, True)"
      and enc: "ser_Encode os c = Inr bb"
      and op: "os_OpenFile os f [O_RDWR, O_TRUNC] (Mode info) (world sa) = (Inr fd, w1)"
      and wr: "file_Write os fd bb w1 = (None, w2)"
      and cl: "file_Close os fd w2 = (None, world s1)"
      by blast
    from K3 op wr cl have "contents (world s1) = (contents (world sa))(f \<mapsto> bb)"
      by blast
    with ro have upd: "contents (world s1) = (contents (world s))(f \<mapsto> bb)"
      by simp
    from encoded_settled [OF R scv enc] have "\<not> needs_write os dataDir reg bb" .
    with upd show ?thesis
      by (simp add: settled_def)
  qed
qed

lemma rewriteChart_settled:
  assumes K1: "\<forall>f w b w'. ioutil_ReadFile os f w = (Inr b, w') \<longrightarrow> contents w f = Some b"
    and K2: "\<forall>f w. contents (snd (ioutil_ReadFile os f w)) = contents w"
    and st: "settled os contents dataDir reg (world s) f"
    and run: "rewriteChart os f info dataDir reg s = (r, s2)"
  shows "(\<exists>e. trace s2 = trace s @ [(C_ReadFile f, e)])
    \<and> contents (world s2) = contents (world s)"
proof -
  obtain x sb where rd: "ReadFile os f s = (x, sb)"
    by (cases "ReadFile os f s")
  note w = ReadFile_world [OF rd]
  from K2 w(1) have ro: "contents (world sb) = contents (world s)"
    by (metis snd_conv)
  show ?thesis
  proof (cases x)
    case (Inl e)
    with rd rewriteChart_read_fail [of os f s e sb info dataDir reg] w(2) ro run
    show ?thesis by simp
  next
    case (Inr b)
    with K1 w(1) have "contents (world s) f = Some b"
      by blast
    with st have "\<not> needs_write os dataDir reg b"
      by (simp add: settled_def)
    from rewriteChart_read_only [OF rd [unfolded Inr] this, of info] w(2) ro run
    show ?thesis by simp
  qed
qed

lemma rewrite_charts_errs:
  "rewrite_charts os files dataDir reg errs s = (errs', s') \<Longrightarrow> length errs \<le> length errs'"
proof (induction files arbitrary: errs s)
  case Nil
  then show ?case by simp
next
  case (Cons a files)
  obtain f info where a: "a = (f, info)" by (cases a)
  obtain r sa where run: "rewriteChart os f info dataDir reg s = (r, sa)"
    by (cases "rewriteChart os f info dataDir reg s")
  show ?case
  proof (cases r)
    case None
    with Cons.prems a run have "rewrite_charts os files dataDir reg errs sa = (errs', s')"
      by simp
    from Cons.IH [OF this] show ?thesis .
  next
    case (Some err)
    with Cons.prems a run
    have "rewrite_charts os files dataDir reg (errs @ [err]) sa = (errs', s')"
      by simp
    from Cons.IH [OF this] show ?thesis by simp
  qed
qed

lemma rewrite_charts_settles:
  assumes R: "\<forall>c b. ser_Encode os c = Inr b \<longrightarrow>
        (\<exists>c'. ser_Decode os b = Inr (HelmChartObj c')
          \<and> spec_JobImage c' = spec_JobImage c
          \<and> Set_StrVal c' ''global.rke2DataDir'' = Set_StrVal c ''global.rke2DataDir''
          \<and> Set_StrVal c' ''global.systemDefaultRegistry''
              = Set_StrVal c ''global.systemDefaultRegistry'')"
    and K1: "\<forall>f w b w'. ioutil_ReadFile os f w = (Inr b, w') \<longrightarrow> contents w f = Some b"
    and K2: "\<forall>f w. contents (snd (ioutil_ReadFile os f w)) = contents w"
    and K3: "\<forall>f m w fd w1 b w2 w3. os_OpenFile os f [O_RDWR, O_TRUNC] m w = (Inr fd, w1)
        \<and> file_Write os fd b w1 = (None, w2) \<and> file_Close os fd w2 = (None, w3)
        \<longrightarrow> contents w3 = (contents w)(f \<mapsto> b)"
  shows "rewrite_charts os files dataDir reg errs s = (errs, s1) \<Longrightarrow>
    (\<forall>f \<in> fst ` set files. settled os contents dataDir reg (world s1) f)
    \<and> (\<forall>g. settled os contents dataDir reg (world s) g
          \<longrightarrow> settled os contents dataDir reg (world s1) g)"
proof (induction files arbitrary: s)
  case Nil
  then show ?case by simp
next
  case (Cons a files)
  obtain f info where a: "a = (f, info)" by (cases a)
  obtain r sa where run: "rewriteChart os f info dataDir reg s = (r, sa)"
    by (cases "rewriteChart os f info dataDir reg s")
  show ?case
  proof (cases r)
    case (Some err)
    with Cons.prems a run
    have "rewrite_charts os files dataDir reg (errs @ [err]) sa = (errs, s1)"
      by simp
    from rewrite_charts_errs [OF this] show ?thesis by simp
  next
    case None
    with Cons.prems a run have rest: "rewrite_charts os files dataDir reg errs sa = (errs, s1)"
      by simp
    from rewriteChart_settles [OF R K1 K2 K3 run [unfolded None]]
    have f: "settled os contents dataDir reg (world sa) f"
      and keep: "\<forall>g. settled os contents dataDir reg (world s) g
          \<longrightarrow> settled os contents dataDir reg (world sa) g"
      by blast+
    from Cons.IH [OF rest]
    have all: "\<forall>f \<in> fst ` set files. settled os contents dataDir reg (world s1) f"
      and keep': "\<forall>g. settled os contents dataDir reg (world sa) g
          \<longrightarrow> settled os contents dataDir reg (world s1) g"
      by blast+
    from f keep keep' all a show ?thesis
      by auto
  qed
qed

lemma rewrite_charts_settled:
  assumes K1: "\<forall>f w b w'. ioutil_ReadFile os f w = (Inr b, w') \<longrightarrow> contents w f = Some b"
    and K2: "\<forall>f w. contents (snd (ioutil_ReadFile os f w)) = contents w"
  shows "\<forall>f \<in> fst ` set files. settled os contents dataDir reg (world s) f \<Longrightarrow>
    rewrite_charts os files dataDir reg errs s = (errs', s2) \<Longrightarrow>
    (\<exists>tr. trace s2 = trace s @ tr \<and> list_all (\<lambda>e. is_ReadFile (fst e)) tr)
    \<and> contents (world s2) = contents (world s)"
proof (induction files arbitrary: errs s)
  case Nil
  then show ?case by simp
next
  case (Cons a files)
  obtain f info where a: "a = (f, info)" by (cases a)
  obtain r sa where run: "rewriteChart os f info dataDir reg s = (r, sa)"
    by (cases "rewriteChart os f info dataDir reg s")
  from Cons.prems(1) a have "settled os contents dataDir reg (world s) f"
    by simp
  from rewriteChart_settled [OF K1 K2 this run] obtain e where
    tr: "trace sa = trace s @ [(C_ReadFile f, e)]"
    and same: "contents (world sa) = contents (world s)"
    by blast
  from Cons.prems(1) same
  have st: "\<forall>f \<in> fst ` set files. settled os contents dataDir reg (world sa) f"
    by (simp add: settled_def)
  obtain errs1 where rest: "rewrite_charts os files dataDir reg errs1 sa = (errs', s2)"
    using Cons.prems(2) a run by (cases r) auto
  from Cons.IH [OF st rest] obtain tr' where
    "trace s2 = trace sa @ tr'" and "list_all (\<lambda>e. is_ReadFile (fst e)) tr'"
    and "contents (world s2) = contents (world sa)"
    by blast
  with tr same show ?case
    by (simp add: is_ReadFile_def)
qed

lemma keys_go_range:
  assumes "set (order (map fst m)) = set (map fst m)"
  shows "fst ` set (go_range order m) = fst ` set m"
proof -
  have "fst ` set (go_range order m) = {k \<in> set (order (map fst m)). map_of m k \<noteq> None}"
    by (force simp: go_range_def List.map_filter_def image_iff)
  also have "\<dots> = {k \<in> fst ` set m. map_of m k \<noteq> None}"
    using assms by simp
  also have "\<dots> = fst ` set m"
    by (auto simp: map_of_eq_None_iff)
  finally show ?thesis .
qed

lemma Walk_world:
  assumes "Walk os root s = (items, sa)"
  shows "items = fst (filepath_Walk os root (world s))"
    and "world sa = snd (filepath_Walk os root (world s))"
    and "trace sa = trace s @ [(C_Walk root, None)]"
  using assms by (auto simp: Walk_def split: prod.splits)

lemma NewErrors_None: "NewErrors errs = None \<Longrightarrow> errs = []"
  by (cases errs rule: NewErrors.cases) simp_all

lemma setChartValues_first_run:
  assumes "setChartValues os dataDir reg s = (None, s1)"
  shows "\<exists>sa files. walk_manifests (fst (filepath_Walk os (manifestsDir dataDir) (world s))) [] = Inr files
    \<and> world sa = snd (filepath_Walk os (manifestsDir dataDir) (world s))
    \<and> rewrite_charts os (go_range (range_keys os) files) dataDir reg [] sa = ([], s1)"
proof -
  obtain items sa where wk: "Walk os (manifestsDir dataDir) s = (items, sa)"
    by (cases "Walk os (manifestsDir dataDir) s")
  note w = Walk_world [OF wk]
  from assms wk obtain files where f: "walk_manifests items [] = Inr files"
    by (cases "walk_manifests items []") (auto simp: setChartValues_def)
  obtain errs s' where rc: "rewrite_charts os (go_range (range_keys os) files) dataDir reg [] sa = (errs, s')"
    by (cases "rewrite_charts os (go_range (range_keys os) files) dataDir reg [] sa")
  from assms wk f rc have "NewErrors errs = None" and "s' = s1"
    by (simp_all add: setChartValues_def)
  with rc NewErrors_None have "rewrite_charts os (go_range (range_keys os) files) dataDir reg [] sa = ([], s1)"
    by auto
  with f w show ?thesis
    by auto
qed

text \<open>
  C4. After a run of \<open>setChartValues\<close> that returned nil, a second run with the same
  data directory and system default registry walks the manifests directory and then
  only reads files: no call of the second run opens, writes or closes a file, and when
  it ends every file holds the bytes it held after the first run. The reason is the one
  the claim gives: after the first run every manifest it visited is no chart, or decodes
  to a chart whose two \<open>Set\<close> overrides and \<open>JobImage\<close> are the desired values,
  so that \<open>chartChanged\<close> stays false. The hypotheses are the contracts of what lies
  outside the code, stated with \<open>contents\<close>, what the files of a world hold: the
  serializer decodes what it encoded to a chart with the same two overrides and job
  image; a successful read returns the contents of the file; reading a file and walking
  a directory change no contents; a file opened with truncation, written and closed
  without error holds what was written, and every other path holds what it held; a
  \<open>range\<close> loop visits every key of the map; and the second walk finds no manifest
  that the first did not find.
\<close>

theorem setChartValues_idempotent:
  assumes R: "\<forall>c b. ser_Encode os c = Inr b \<longrightarrow>
        (\<exists>c'. ser_Decode os b = Inr (HelmChartObj c')
          \<and> spec_JobImage c' = spec_JobImage c
          \<and> Set_StrVal c' ''global.rke2DataDir'' = Set_StrVal c ''global.rke2DataDir''
          \<and> Set_StrVal c' ''global.systemDefaultRegistry''
              = Set_StrVal c ''global.systemDefaultRegistry'')"
    and K1: "\<forall>f w b w'. ioutil_ReadFile os f w = (Inr b, w') \<longrightarrow> contents w f = Some b"
    and K2: "\<forall>f w. contents (snd (ioutil_ReadFile os f w)) = contents w"
    and K3: "\<forall>f m w fd w1 b w2 w3. os_OpenFile os f [O_RDWR, O_TRUNC] m w = (Inr fd, w1)
        \<and> file_Write os fd b w1 = (None, w2) \<and> file_Close os fd w2 = (None, w3)
        \<longrightarrow> contents w3 = (contents w)(f \<mapsto> b)"
    and K4: "\<forall>p w. contents (snd (filepath_Walk os p w)) = contents w"
    and K5: "\<forall>ks. set (range_keys os ks) = set ks"
    and W: "\<forall>files files'.
        walk_manifests (fst (filepath_Walk os (manifestsDir dataDir) (world s))) [] = Inr files
        \<and> walk_manifests (fst (filepath_Walk os (manifestsDir dataDir) (world s1))) [] = Inr files'
        \<longrightarrow> fst ` set files' \<subseteq> fst ` set files"
    and first: "setChartValues os dataDir systemDefaultRegistry s = (None, s1)"
  shows "(\<exists>tr. trace (snd (setChartValues os dataDir systemDefaultRegistry s1))
            = trace s1 @ (C_Walk (manifestsDir dataDir), None) # tr
          \<and> list_all (\<lambda>e. is_ReadFile (fst e)) tr)
      \<and> contents (world (snd (setChartValues os dataDir systemDefaultRegistry s1)))
          = contents (world s1)"
proof -
  let ?reg = systemDefaultRegistry
  let ?dir = "manifestsDir dataDir"
  from setChartValues_first_run [OF first] obtain sa files where
    f1: "walk_manifests (fst (filepath_Walk os ?dir (world s))) [] = Inr files"
    and rc1: "rewrite_charts os (go_range (range_keys os) files) dataDir ?reg [] sa = ([], s1)"
    by blast
  from K5 have k1: "fst ` set (go_range (range_keys os) files) = fst ` set files"
    by (intro keys_go_range) simp
  from rewrite_charts_settles [OF R K1 K2 K3 rc1] k1
  have settled1: "\<forall>f \<in> fst ` set files. settled os contents dataDir ?reg (world s1) f"
    by simp
  obtain items sb where wk: "Walk os ?dir s1 = (items, sb)"
    by (cases "Walk os ?dir s1")
  note w = Walk_world [OF wk]
  from K4 w(2) have same: "contents (world sb) = contents (world s1)"
    by simp
  show ?thesis
  proof (cases "walk_manifests items []")
    case (Inl e)
    with wk have "setChartValues os dataDir ?reg s1 = (Some e, sb)"
      by (simp add: setChartValues_def)
    with w(3) same show ?thesis
      by simp
  next
    case (Inr files')
    with W f1 w(1) have sub: "fst ` set files' \<subseteq> fst ` set files"
      by blast
    from K5 have "fst ` set (go_range (range_keys os) files') = fst ` set files'"
      by (intro keys_go_range) simp
    with sub settled1
    have "\<forall>f \<in> fst ` set (go_range (range_keys os) files').
        settled os contents dataDir ?reg (world s1) f"
      by blast
    with same
    have st: "\<forall>f \<in> fst ` set (go_range (range_keys os) files').
        settled os contents dataDir ?reg (world sb) f"
      by (simp add: settled_def)
    obtain errs s2 where
      rc2: "rewrite_charts os (go_range (range_keys os) files') dataDir ?reg [] sb = (errs, s2)"
      by (cases "rewrite_charts os (go_range (range_keys os) files') dataDir ?reg [] sb")
    from rewrite_charts_settled [OF K1 K2 st rc2] obtain tr where
      "trace s2 = trace sb @ tr" and "list_all (\<lambda>e. is_ReadFile (fst e)) tr"
      and "contents (world s2) = contents (world sb)"
      by blast
    moreover from wk Inr rc2 have "snd (setChartValues os dataDir ?reg s1) = s2"
      by (simp add: setChartValues_def)
    ultimately show ?thesis
      using w(3) same by simp
  qed
qed

text \<open>
  The in-memory system keeps these contracts. On a node whose manifests directory
  holds the chart as shipped, a manifest that is no chart and another file, the first
  run writes the chart and the second run only walks and reads.
\<close>

lemma mem_serializer_roundtrip:
  "\<forall>c b. ser_Encode mem_os c = Inr b \<longrightarrow>
        (\<exists>c'. ser_Decode mem_os b = Inr (HelmChartObj c')
          \<and> spec_JobImage c' = spec_JobImage c
          \<and> Set_StrVal c' ''global.rke2DataDir'' = Set_StrVal c ''global.rke2DataDir''
          \<and> Set_StrVal c' ''global.systemDefaultRegistry''
              = Set_StrVal c ''global.systemDefaultRegistry'')"
  by (auto simp: mem_os_def mem_Decode_def)

lemma mem_ReadFile_world: "snd (mem_ReadFile p w) = w"
  by (simp add: mem_ReadFile_def split: option.splits node.splits)

lemma mem_read_stable:
  "\<forall>w b w1 b'. ioutil_ReadFile mem_os p w = (Inr b, w1)
        \<and> fst (ioutil_ReadFile mem_os p w1) = Inr b' \<longrightarrow> b' = b"
proof (intro allI impI, elim conjE)
  fix w b w1 b'
  assume a: "ioutil_ReadFile mem_os p w = (Inr b, w1)"
    and b: "fst (ioutil_ReadFile mem_os p w1) = Inr b'"
  from a have "w1 = w" using mem_ReadFile_world [of p w] by (simp add: mem_os_def)
  with a b show "b' = b" by simp
qed

lemma mem_read_only:
  "\<forall>w. mem_contents (snd (ioutil_ReadFile mem_os p w)) = mem_contents w"
  by (simp add: mem_os_def mem_ReadFile_world)

lemma mem_read_after_write:
  "\<forall>w f w1 b w2 w3 b'.
        os_OpenFile mem_os p [O_RDWR, O_TRUNC] m w = (Inr f, w1)
        \<and> file_Write mem_os f b w1 = (None, w2) \<and> file_Close mem_os f w2 = (None, w3)
        \<and> fst (ioutil_ReadFile mem_os p w3) = Inr b' \<longrightarrow> b' = b"
proof (intro allI impI, elim conjE)
  fix w f w1 b w2 w3 b'
  assume op: "os_OpenFile mem_os p [O_RDWR, O_TRUNC] m w = (Inr f, w1)"
    and wr: "file_Write mem_os f b w1 = (None, w2)"
    and cl: "file_Close mem_os f w2 = (None, w3)"
    and rd: "fst (ioutil_ReadFile mem_os p w3) = Inr b'"
  from op have f: "f = length (handles w)" and h1: "handles w1 = handles w @ [p]"
    and n1: "map_of (nodes w1) p = Some (NFile [])"
    by (auto simp: mem_os_def mem_OpenFile_def map_of_map_put
        split: option.splits node.splits if_splits)
  from wr f h1 n1 have n2: "map_of (nodes w2) p = Some (NFile b)"
    by (auto simp: mem_os_def mem_append_def map_of_map_put split: option.splits if_splits)
  from cl have "w3 = w2" by (simp add: mem_os_def mem_Close_def)
  with n2 rd show "b' = b"
    by (auto simp: mem_os_def mem_ReadFile_def split: option.splits)
qed

lemma mem_read_contents:
  "\<forall>f w b w'. ioutil_ReadFile mem_os f w = (Inr b, w') \<longrightarrow> mem_contents w f = Some b"
  by (auto simp: mem_os_def mem_ReadFile_def mem_contents_def
      split: option.splits node.splits)

lemma mem_read_frame:
  "\<forall>f w. mem_contents (snd (ioutil_ReadFile mem_os f w)) = mem_contents w"
  by (simp add: mem_os_def mem_ReadFile_world)

lemma mem_walk_frame:
  "\<forall>p w. mem_contents (snd (filepath_Walk mem_os p w)) = mem_contents w"
  by (simp add: mem_os_def mem_Walk_def split: option.splits)

lemma mem_range_keys: "\<forall>ks. set (range_keys mem_os ks) = set ks"
  by (simp add: mem_os_def)

lemma mem_write_contents:
  "\<forall>f m w fd w1 b w2 w3. os_OpenFile mem_os f [O_RDWR, O_TRUNC] m w = (Inr fd, w1)
        \<and> file_Write mem_os fd b w1 = (None, w2) \<and> file_Close mem_os fd w2 = (None, w3)
        \<longrightarrow> mem_contents w3 = (mem_contents w)(f \<mapsto> b)"
proof (intro allI impI, elim conjE)
  fix f m w fd w1 b w2 w3
  assume op: "os_OpenFile mem_os f [O_RDWR, O_TRUNC] m w = (Inr fd, w1)"
    and wr: "file_Write mem_os fd b w1 = (None, w2)"
    and cl: "file_Close mem_os fd w2 = (None, w3)"
  from op have fd: "fd = length (handles w)" and h1: "handles w1 = handles w @ [f]"
    and n1: "nodes w1 = map_put f (NFile []) (nodes w)"
    by (auto simp: mem_os_def mem_OpenFile_def
        split: option.splits node.splits if_splits)
  from wr fd h1 n1 have n2: "nodes w2 = map_put f (NFile b) (map_put f (NFile []) (nodes w))"
    by (auto simp: mem_os_def mem_append_def map_of_map_put split: option.splits if_splits)
  from cl have "w3 = w2" by (simp add: mem_os_def mem_Close_def)
  with n2 show "mem_contents w3 = (mem_contents w)(f \<mapsto> b)"
    by (auto simp: mem_contents_def map_of_map_put fun_eq_iff)
qed

theorem setChartValues_idempotent_witness:
  "fst (setChartValues mem_os ''/d'' ''index.docker.io'' (init_state manifests_mixed)) = None
   \<and> map fst (trace (snd (setChartValues mem_os ''/d'' ''index.docker.io''
          (init_state manifests_mixed))))
       = [C_Walk ''/d/server/manifests'',
          C_ReadFile ''/d/server/manifests/rke2-coredns.yaml'',
          C_OpenFile ''/d/server/manifests/rke2-coredns.yaml'' [O_RDWR, O_TRUNC],
          C_Write 0, C_Close 0,
          C_ReadFile ''/d/server/manifests/config.yml'']
   \<and> (\<exists>tr. trace (snd (setChartValues mem_os ''/d'' ''index.docker.io''
          (snd (setChartValues mem_os ''/d'' ''index.docker.io'' (init_state manifests_mixed)))))
        = trace (snd (setChartValues mem_os ''/d'' ''index.docker.io''
            (init_state manifests_mixed)))
          @ (C_Walk (manifestsDir ''/d''), None) # tr
        \<and> list_all (\<lambda>e. is_ReadFile (fst e)) tr)
   \<and> mem_contents (world (snd (setChartValues mem_os ''/d'' ''index.docker.io''
          (snd (setChartValues mem_os ''/d'' ''index.docker.io'' (init_state manifests_mixed))))))
       = mem_contents (world (snd (setChartValues mem_os ''/d'' ''index.docker.io''
          (init_state manifests_mixed))))"
proof -
  let ?run = "setChartValues mem_os ''/d'' ''index.docker.io''"
  let ?s = "init_state manifests_mixed"
  let ?s1 = "snd (?run ?s)"
  let ?found = "[(''/d/server/manifests/rke2-coredns.yaml'', info_of (NFile [])),
      (''/d/server/manifests/config.yml'', info_of (NFile []))]"
  have r1: "fst (?run ?s) = None"
    by code_simp
  have t1: "map fst (trace ?s1)
      = [C_Walk ''/d/server/manifests'',
          C_ReadFile ''/d/server/manifests/rke2-coredns.yaml'',
          C_OpenFile ''/d/server/manifests/rke2-coredns.yaml'' [O_RDWR, O_TRUNC],
          C_Write 0, C_Close 0,
          C_ReadFile ''/d/server/manifests/config.yml'']"
    by code_simp
  have wk1: "walk_manifests (fst (filepath_Walk mem_os (manifestsDir ''/d'') (world ?s))) []
      = Inr ?found"
    by code_simp
  have wk2: "walk_manifests (fst (filepath_Walk mem_os (manifestsDir ''/d'') (world ?s1))) []
      = Inr ?found"
    by code_simp
  have W: "\<forall>files files'.
        walk_manifests (fst (filepath_Walk mem_os (manifestsDir ''/d'') (world ?s))) [] = Inr files
        \<and> walk_manifests (fst (filepath_Walk mem_os (manifestsDir ''/d'') (world ?s1))) []
            = Inr files'
        \<longrightarrow> fst ` set files' \<subseteq> fst ` set files"
    unfolding wk1 wk2 by blast
  from r1 have first: "?run ?s = (None, ?s1)"
    by (simp add: prod_eq_iff)
  from setChartValues_idempotent [where contents = mem_contents,
      OF mem_serializer_roundtrip mem_read_contents mem_read_frame mem_write_contents
        mem_walk_frame mem_range_keys W first]
  have "(\<exists>tr. trace (snd (?run ?s1)) = trace ?s1 @ (C_Walk (manifestsDir ''/d''), None) # tr
          \<and> list_all (\<lambda>e. is_ReadFile (fst e)) tr)
      \<and> mem_contents (world (snd (?run ?s1))) = mem_contents (world ?s1)" .
  with r1 t1 show ?thesis
    by (intro conjI) blast+
qed

text \<open>
  A single manifest, from weaker contracts. After a run of \<open>rewriteChart\<close> on a
  manifest that returned nil, a second run makes one call to the system, the read of
  the file: it opens and writes nothing, leaves the contents of every file as they are,
  and returns nil when the read succeeds. Here the contracts are: the serializer decodes
  what it encoded to a chart with the same two overrides and job image; a file that was
  opened with truncation, written and closed without error reads back as written; a
  file read twice in a row reads the same; reading changes no contents.
\<close>

lemma rewriteChart_idempotent:
  assumes R: "\<forall>c b. ser_Encode os c = Inr b \<longrightarrow>
        (\<exists>c'. ser_Decode os b = Inr (HelmChartObj c')
          \<and> spec_JobImage c' = spec_JobImage c
          \<and> Set_StrVal c' ''global.rke2DataDir'' = Set_StrVal c ''global.rke2DataDir''
          \<and> Set_StrVal c' ''global.systemDefaultRegistry''
              = Set_StrVal c ''global.systemDefaultRegistry'')"
    and F: "\<forall>w f w1 b w2 w3 b'.
        os_OpenFile os fileName [O_RDWR, O_TRUNC] (Mode info) w = (Inr f, w1)
        \<and> file_Write os f b w1 = (None, w2) \<and> file_Close os f w2 = (None, w3)
        \<and> fst (ioutil_ReadFile os fileName w3) = Inr b' \<longrightarrow> b' = b"
    and S: "\<forall>w b w1 b'. ioutil_ReadFile os fileName w = (Inr b, w1)
        \<and> fst (ioutil_ReadFile os fileName w1) = Inr b' \<longrightarrow> b' = b"
    and RO: "\<forall>w. contents (snd (ioutil_ReadFile os fileName w)) = contents w"
    and first: "rewriteChart os fileName info dataDir systemDefaultRegistry s = (None, s1)"
  shows "\<exists>r. trace (snd (rewriteChart os fileName info dataDir systemDefaultRegistry s1))
          = trace s1 @ [(C_ReadFile fileName, r)]
      \<and> contents (world (snd (rewriteChart os fileName info dataDir systemDefaultRegistry s1)))
          = contents (world s1)
      \<and> (r = None \<longrightarrow>
          fst (rewriteChart os fileName info dataDir systemDefaultRegistry s1) = None)"
proof -
  let ?reg = systemDefaultRegistry
  obtain x sb where rd2: "ReadFile os fileName s1 = (x, sb)"
    by (cases "ReadFile os fileName s1")
  note w2 = ReadFile_world [OF rd2]
  from RO w2(1) have ro: "contents (world sb) = contents (world s1)"
    by (metis snd_conv)
  show ?thesis
  proof (cases x)
    case (Inl e)
    with rd2 rewriteChart_read_fail [of os fileName s1 e sb info dataDir ?reg] w2(2) ro
    show ?thesis by simp
  next
    case (Inr b')
    from rewriteChart_first_run [OF first] obtain b sa where
      rd1: "ReadFile os fileName s = (Inr b, sa)"
      and alt: "(\<not> needs_write os dataDir ?reg b \<and> world s1 = world sa)
       \<or> (\<exists>c0 c fd w1 bb w2. ser_Decode os b = Inr (HelmChartObj c0)
            \<and> set_chart_values (DefaultJobImage os) dataDir ?reg c0 = (c, True)
            \<and> ser_Encode os c = Inr bb
            \<and> os_OpenFile os fileName [O_RDWR, O_TRUNC] (Mode info) (world sa) = (Inr fd, w1)
            \<and> file_Write os fd bb w1 = (None, w2)
            \<and> file_Close os fd w2 = (None, world s1))"
      by blast
    have stable: "\<not> needs_write os dataDir ?reg b'"
      using alt
    proof
      assume a: "\<not> needs_write os dataDir ?reg b \<and> world s1 = world sa"
      from ReadFile_world(1) [OF rd1] a w2(1) Inr S have "b' = b"
        by (metis fst_conv)
      with a show ?thesis by simp
    next
      assume "\<exists>c0 c fd w1 bb w2. ser_Decode os b = Inr (HelmChartObj c0)
            \<and> set_chart_values (DefaultJobImage os) dataDir ?reg c0 = (c, True)
            \<and> ser_Encode os c = Inr bb
            \<and> os_OpenFile os fileName [O_RDWR, O_TRUNC] (Mode info) (world sa) = (Inr fd, w1)
            \<and> file_Write os fd bb w1 = (None, w2)
            \<and> file_Close os fd w2 = (None, world s1)"
      then obtain c0 c fd w1 bb w2 where
        scv: "set_chart_values (DefaultJobImage os) dataDir ?reg c0 = (c, True)"
        and enc: "ser_Encode os c = Inr bb"
        and op: "os_OpenFile os fileName [O_RDWR, O_TRUNC] (Mode info) (world sa) = (Inr fd, w1)"
        and wr: "file_Write os fd bb w1 = (None, w2)"
        and cl: "file_Close os fd w2 = (None, world s1)"
        by blast
      from F op wr cl w2(1) Inr have b': "b' = bb"
        by (metis fst_conv)
      from R enc obtain c' where dec: "ser_Decode os bb = Inr (HelmChartObj c')"
        and j: "spec_JobImage c' = spec_JobImage c"
        and d: "Set_StrVal c' ''global.rke2DataDir'' = Set_StrVal c ''global.rke2DataDir''"
        and g: "Set_StrVal c' ''global.systemDefaultRegistry''
              = Set_StrVal c ''global.systemDefaultRegistry''"
        by blast
      from set_chart_values_sets [OF scv] j d g
      have "snd (set_chart_values (DefaultJobImage os) dataDir ?reg c') = False"
        by (intro set_chart_values_fixpoint) simp_all
      with dec b' show ?thesis
        by (simp add: needs_write_def)
    qed
    from rewriteChart_read_only [OF rd2 [unfolded Inr] stable, of info] w2(2) ro Inr
    show ?thesis by simp
  qed
qed

text \<open>
  In the in-memory system, the first run on the chart as shipped writes the file and
  the second only reads it.
\<close>

lemma rewriteChart_idempotent_example:
  "fst (rewriteChart mem_os ''/d/server/manifests/rke2-coredns.yaml'' (info_of (NFile []))
          ''/d'' ''index.docker.io'' (init_state manifests_placed)) = None
   \<and> map (\<lambda>e. fst e) (trace (snd (rewriteChart mem_os ''/d/server/manifests/rke2-coredns.yaml''
          (info_of (NFile [])) ''/d'' ''index.docker.io'' (init_state manifests_placed))))
       = [C_ReadFile ''/d/server/manifests/rke2-coredns.yaml'',
          C_OpenFile ''/d/server/manifests/rke2-coredns.yaml'' [O_RDWR, O_TRUNC],
          C_Write 0, C_Close 0]
   \<and> fst (rewriteChart mem_os ''/d/server/manifests/rke2-coredns.yaml'' (info_of (NFile []))
          ''/d'' ''index.docker.io''
          (snd (rewriteChart mem_os ''/d/server/manifests/rke2-coredns.yaml'' (info_of (NFile []))
            ''/d'' ''index.docker.io'' (init_state manifests_placed)))) = None
   \<and> mem_contents (world (snd (rewriteChart mem_os ''/d/server/manifests/rke2-coredns.yaml''
          (info_of (NFile [])) ''/d'' ''index.docker.io''
          (snd (rewriteChart mem_os ''/d/server/manifests/rke2-coredns.yaml'' (info_of (NFile []))
            ''/d'' ''index.docker.io'' (init_state manifests_placed))))))
       = mem_contents (world (snd (rewriteChart mem_os ''/d/server/manifests/rke2-coredns.yaml''
          (info_of (NFile [])) ''/d'' ''index.docker.io'' (init_state manifests_placed))))"
proof -
  let ?f = "''/d/server/manifests/rke2-coredns.yaml''"
  let ?run = "rewriteChart mem_os ?f (info_of (NFile [])) ''/d'' ''index.docker.io''"
  let ?s1 = "snd (?run (init_state manifests_placed))"
  have r1: "fst (?run (init_state manifests_placed)) = None"
    by code_simp
  have t1: "map (\<lambda>e. fst e) (trace ?s1)
      = [C_ReadFile ?f, C_OpenFile ?f [O_RDWR, O_TRUNC], C_Write 0, C_Close 0]"
    by code_simp
  have l2: "last (trace (snd (?run ?s1))) = (C_ReadFile ?f, None)"
    by code_simp
  from r1 have first: "?run (init_state manifests_placed) = (None, ?s1)"
    by (simp add: prod_eq_iff)
  from rewriteChart_idempotent [where contents = mem_contents,
      OF mem_serializer_roundtrip mem_read_after_write mem_read_stable mem_read_only first]
  obtain r where "trace (snd (?run ?s1)) = trace ?s1 @ [(C_ReadFile ?f, r)]"
    and c: "mem_contents (world (snd (?run ?s1))) = mem_contents (world ?s1)"
    and "r = None \<longrightarrow> fst (?run ?s1) = None"
    by blast
  with l2 have "fst (?run ?s1) = None"
    by simp
  with r1 t1 c show ?thesis by simp
qed

subsection \<open>The extraction plan and a run on a populated node\<close>

lemma extract_loop_skip:
  "map_of dirs (Dir (Name h)) = None \<Longrightarrow>
     extract_loop os t dirs (h # hs) fin s = extract_loop os t dirs hs fin s"
  by (simp add: Let_def split: typeflag.splits)

lemma fst_dirExists:
  "fst (dirExists os dir s) = (\<exists>fi. fst (os_Stat os dir (world s)) = Inr fi \<and> IsDir fi)"
  by (auto simp: dirExists_def Stat_def sysv_def split: prod.splits sum.splits)

lemma Stage_ok_trace:
  assumes ok: "Stage os dataDir privateRegistry resolver s = (Returns (Inr dir), s')"
  shows "(C_TempDir dataDir ''runtime-*'', None) \<in> set (trace s')
    \<and> (C_Walk (manifestsDir dataDir), None) \<in> set (trace s')"
proof -
  from ok obtain refDigest img dirs s5 where
    pl: "Stage_place os dataDir resolver img (binDirForDigest dataDir refDigest) dirs s5 = (Inr dir, s')"
    by (auto simp: Stage_def Let_def split: go.splits sum.splits prod.splits option.splits)
  from pl obtain s1 s2 s3 where
    ex: "extractToDirs os img dataDir dirs s5 = (None, s1)"
    and sc: "setChartValues os dataDir (Registry_Name resolver) s2 = (None, s3)"
    and e12: "extends s1 s2" and e3: "extends s3 s'"
    by (auto simp: Stage_place_def Let_def extends_def split: prod.splits option.splits dest!: calls_eq)
  from ex obtain tempDir s0 sa where
    td: "TempDir os dataDir ''runtime-*'' s5 = (Inr tempDir, s0)" and "extends s0 sa"
    and "s1 = snd (RemoveAll os tempDir (snd (sys C_imageReader_Close (imageReader_Close os) sa)))"
    by (auto simp: extractToDirs_def Let_def split: prod.splits sum.splits
        dest: extends_extractToDirs_body)
  then have "(C_TempDir dataDir ''runtime-*'', None) \<in> set (trace s1)"
    by (auto simp: extends_def dest!: calls_eq)
  with e12 have a: "(C_TempDir dataDir ''runtime-*'', None) \<in> set (trace s2)"
    by (auto simp: extends_def)
  from sc have "(C_Walk (manifestsDir dataDir), None) \<in> set (trace s3)"
    and "extends s2 s3"
    by (auto simp: setChartValues_def Let_def extends_def split: prod.splits sum.splits
        dest!: calls_eq extends_rewrite_charts [unfolded extends_def])
  with a e3 show ?thesis by (auto simp: extends_def)
qed

lemma Stage_eq:
  "Stage os dataDir privateRegistry resolver s =
     (case releaseRefDigest (sha256_Sum256 os) (MustGetReference_Runtime resolver) of
        Panic \<Rightarrow> (Panic, s)
      | Returns (Inl err) \<Rightarrow> (Returns (Inl err), s)
      | Returns (Inr refDigest) \<Rightarrow>
          (case Stage_image os dataDir privateRegistry resolver s of
             (Inl err, s4) \<Rightarrow> (Returns (Inl err), s4)
           | (Inr img, s4) \<Rightarrow>
               (case extractPaths os dataDir (MustGetReference_Runtime resolver) refDigest s4 of
                  (dirs, s5) \<Rightarrow>
                    (case Stage_place os dataDir resolver
                            (cache_Image os img (runtimeCacheDir dataDir))
                            (binDirForDigest dataDir refDigest) dirs s5 of
                       (r, s6) \<Rightarrow> (Returns r, s6)))))"
  by (simp add: Stage_def Stage_image_def Let_def
      split: go.splits sum.splits prod.splits option.splits)

lemma staging_call_simps [simp]:
  "staging_call t d hs (C_Stat p)"
  "staging_call t d hs (C_RemoveAll p)"
  "staging_call t d hs (C_Symlink p q)"
  "staging_call t d hs (C_Chmod p)"
  "staging_call t d hs (C_Close f)"
  "staging_call t d hs (C_Write f)"
  "staging_call t d hs (C_Copy f)"
  "staging_call t d hs (C_TempDir p pat)"
  "staging_call t d hs (C_ReadDir p)"
  "staging_call t d hs (C_ReadFile p)"
  "staging_call t d hs (C_Walk p)"
  "staging_call t d hs (C_tarball_Image opener p)"
  "staging_call t d hs (C_remote_Image ref)"
  "staging_call t d hs (C_getPrivateRegistries p)"
  "staging_call t d hs C_imageReader_Close"
  "staging_call t d hs (C_OpenFile p [O_RDWR, O_TRUNC])"
  by (simp_all add: staging_call_def)

lemma staging_call_mono:
  "staging_call t d hs c \<Longrightarrow> set hs \<subseteq> set hs' \<Longrightarrow> staging_call t d hs' c"
  by (cases c) (auto simp: staging_call_def)

lemma calls_are_refl [simp]: "calls_are P s s"
  by (simp add: calls_are_def)

lemma calls_are_trans: "calls_are P s s1 \<Longrightarrow> calls_are P s1 s2 \<Longrightarrow> calls_are P s s2"
  by (auto simp: calls_are_def)

lemma calls_are_mono:
  "calls_are P s s' \<Longrightarrow> (\<And>c. P c \<Longrightarrow> Q c) \<Longrightarrow> calls_are Q s s'"
  by (auto simp: calls_are_def list_all_iff)

lemma calls_are_since:
  "calls_are P s s' \<Longrightarrow> (c, r) \<in> set (since s s') \<Longrightarrow> P c"
  by (force simp: calls_are_def since_def list_all_iff)

lemma extends_since: "extends s s' \<Longrightarrow> trace s' = trace s @ since s s'"
  by (auto simp: extends_def since_def)

lemma calls_are_extract_loop:
  "extract_loop os t dirs hs fin s = (r, s') \<Longrightarrow> calls_are (staging_call t dirs hs) s s'"
proof (induction hs arbitrary: s)
  case Nil
  then show ?case by simp
next
  case (Cons h hs)
  have mono: "\<And>a b. calls_are (staging_call t dirs hs) a b
      \<Longrightarrow> calls_are (staging_call t dirs (h # hs)) a b"
    by (erule calls_are_mono) (auto elim: staging_call_mono)
  note IH = mono [OF Cons.IH, unfolded calls_are_def]
  have dir: "Typeflag h = TypeDir \<Longrightarrow> map_of dirs (Dir (Name h)) \<noteq> None
      \<Longrightarrow> staging_call t dirs (h # hs) (C_MkdirAll (Join [t, Name h]))"
    by (auto simp: staging_call_def)
  have reg: "Typeflag h = TypeReg \<Longrightarrow> map_of dirs (Dir (Name h)) \<noteq> None
      \<Longrightarrow> staging_call t dirs (h # hs) (C_OpenFile (Join [t, Name h]) [O_RDWR, O_CREATE, O_TRUNC])"
    by (auto simp: staging_call_def)
  from Cons.prems show ?case
    by (auto simp: Let_def calls_are_def dir reg
        split: typeflag.splits if_splits prod.splits sum.splits option.splits
        dest!: calls_eq IH)
qed

lemma set_go_range: "set (go_range order m) \<subseteq> set m"
  by (auto simp: go_range_def List.map_filter_def dest: map_of_SomeD)

lemma calls_are_extract':
  "extract' os t dirs reader s = (r, s') \<Longrightarrow> calls_are (staging_call t dirs (fst reader)) s s'"
proof -
  have t: "staging_call t dirs (fst reader) (C_MkdirAll t)"
    by (simp add: staging_call_def)
  show "extract' os t dirs reader s = (r, s') \<Longrightarrow> ?thesis"
    by (auto simp: extract'_def calls_are_def t split: prod.splits option.splits
        dest!: calls_eq calls_are_extract_loop [unfolded calls_are_def])
qed

lemma calls_are_move_files:
  assumes "(source, dest) \<in> set plan"
  shows "move_files os (Join [t, source]) dest files errs s = (errs', s')
    \<Longrightarrow> calls_are (staging_call t plan hs) s s'"
proof (induction files arbitrary: errs s)
  case Nil
  then show ?case by simp
next
  case (Cons f files)
  note IH = Cons.IH [unfolded calls_are_def]
  have rn: "staging_call t plan hs (C_Rename (Join [Join [t, source], f]) (Join [dest, f]))"
    using assms by (auto simp: staging_call_def)
  from Cons.prems show ?case
    by (auto simp: Let_def calls_are_def rn split: if_splits prod.splits option.splits
        dest!: calls_eq IH)
qed

lemma calls_are_move_dirs:
  "set ds \<subseteq> set plan \<Longrightarrow> move_dirs os t ds errs s = (r, s')
    \<Longrightarrow> calls_are (staging_call t plan hs) s s'"
proof (induction ds arbitrary: errs s)
  case Nil
  then show ?case by simp
next
  case (Cons d ds)
  obtain source dest where d: "d = (source, dest)" by (cases d)
  with Cons.prems(1) have mem: "(source, dest) \<in> set plan" and sub: "set ds \<subseteq> set plan"
    by auto
  note IH = Cons.IH [OF sub, unfolded calls_are_def]
  have mk: "staging_call t plan hs (C_MkdirAll (Dir dest))"
    using mem by (auto simp: staging_call_def)
  have rn: "staging_call t plan hs (C_Rename (Join [t, source]) dest)"
    using mem by (auto simp: staging_call_def)
  from Cons.prems(2) show ?case unfolding d
    by (auto simp: Let_def calls_are_def mk rn
        split: if_splits prod.splits option.splits sum.splits
        dest!: calls_eq IH calls_are_move_files [OF mem, unfolded calls_are_def])
qed

lemma calls_are_extractToDirs_body:
  "extractToDirs_body os img t dirs s = (r, s')
    \<Longrightarrow> calls_are (staging_call t dirs (fst (mutate_Extract os img))) s s'"
  by (auto simp: extractToDirs_body_def Let_def calls_are_def
      split: prod.splits option.splits sum.splits
      dest!: calls_are_extract' [unfolded calls_are_def]
        calls_are_move_dirs [OF set_go_range, unfolded calls_are_def])

lemma calls_are_preloadFile:
  "preloadFile os tg f s = (r, s') \<Longrightarrow> calls_are (staging_call t d hs) s s'"
  by (auto simp: preloadFile_def calls_are_def split: selected.splits prod.splits sum.splits
      dest!: sysv_eq)

lemma calls_are_preload_files:
  "preload_files os tg files s = (r, s') \<Longrightarrow> calls_are (staging_call t d hs) s s'"
proof (induction files arbitrary: s)
  case Nil
  then show ?case by simp
next
  case (Cons f files)
  note IH = Cons.IH [unfolded calls_are_def]
  obtain name info where f: "f = (name, info)" by (cases f)
  from Cons.prems show ?case unfolding f
    by (auto simp: calls_are_def split: prod.splits option.splits
        dest!: IH calls_are_preloadFile [where t = t and d = d and hs = hs, unfolded calls_are_def])
qed

lemma calls_are_preloadBootstrapImage:
  "preloadBootstrapImage os dataDir ref s = (r, s') \<Longrightarrow> calls_are (staging_call t d hs) s s'"
  by (auto simp: preloadBootstrapImage_def Let_def calls_are_def
      split: Reference.splits prod.splits sum.splits option.splits if_splits
      dest!: calls_eq
        calls_are_preload_files [where t = t and d = d and hs = hs, unfolded calls_are_def])

lemma calls_are_preload_refs:
  "preload_refs os dataDir refs s = (r, s') \<Longrightarrow> calls_are (staging_call t d hs) s s'"
proof (induction refs arbitrary: s)
  case Nil
  then show ?case by simp
next
  case (Cons ref refs)
  note IH = Cons.IH [unfolded calls_are_def]
  from Cons.prems show ?case
    by (auto simp: calls_are_def split: prod.splits option.splits
        dest!: IH
          calls_are_preloadBootstrapImage [where t = t and d = d and hs = hs,
            unfolded calls_are_def])
qed

lemma calls_are_Stage_image:
  "Stage_image os dataDir privateRegistry resolver s = (r, s')
    \<Longrightarrow> calls_are (staging_call t d hs) s s'"
  by (auto simp: Stage_image_def preloadBootstrapFromRuntime_def Let_def calls_are_def
      split: prod.splits sum.splits option.splits
      dest!: sysv_eq
        calls_are_preload_refs [where t = t and d = d and hs = hs, unfolded calls_are_def])

lemma calls_are_rewriteChart:
  "rewriteChart os fileName info dataDir reg s = (r, s') \<Longrightarrow> calls_are (staging_call t d hs) s s'"
  by (auto simp: rewriteChart_def calls_are_def
      split: prod.splits sum.splits option.splits object.splits if_splits
      dest!: calls_eq)

lemma calls_are_rewrite_charts:
  "rewrite_charts os files dataDir reg errs s = (errs', s')
    \<Longrightarrow> calls_are (staging_call t d hs) s s'"
proof (induction files arbitrary: errs s)
  case Nil
  then show ?case by simp
next
  case (Cons f files)
  note IH = Cons.IH [unfolded calls_are_def]
  obtain name info where f: "f = (name, info)" by (cases f)
  from Cons.prems show ?case unfolding f
    by (auto simp: calls_are_def split: prod.splits option.splits
        dest!: IH calls_are_rewriteChart [where t = t and d = d and hs = hs, unfolded calls_are_def])
qed

lemma calls_are_setChartValues:
  "setChartValues os dataDir reg s = (r, s') \<Longrightarrow> calls_are (staging_call t d hs) s s'"
  by (auto simp: setChartValues_def Let_def calls_are_def split: prod.splits sum.splits
      dest!: calls_eq
        calls_are_rewrite_charts [where t = t and d = d and hs = hs, unfolded calls_are_def])

lemma calls_are_extractPaths:
  "extractPaths os dataDir ref refDigest s = (dirs, s') \<Longrightarrow> calls_are (staging_call t d hs) s s'"
  by (auto simp: extractPaths_def dirExists_def Let_def calls_are_def
      split: prod.splits sum.splits bool.splits if_splits dest!: calls_eq)

lemma since_append: "trace s' = trace s @ tr \<Longrightarrow> since s s' = tr"
  by (simp add: since_def)

lemma since_trans:
  "extends s a \<Longrightarrow> extends a s' \<Longrightarrow> since s s' = since s a @ since a s'"
  by (auto simp: extends_def since_def)

lemma occurs_self [simp]: "occurs xs xs"
  unfolding occurs_def by (intro exI [of _ "[]"]) simp

lemma occurs_append: "occurs xs tr \<Longrightarrow> occurs xs (pre @ tr @ post)"
proof -
  assume "occurs xs tr"
  then obtain a b where "tr = a @ xs @ b" by (auto simp: occurs_def)
  then have "pre @ tr @ post = (pre @ a) @ xs @ (b @ post)" by simp
  then show ?thesis unfolding occurs_def by blast
qed

lemma occurs_since:
  assumes "extends s a" and "extends a b" and "extends b s'" and "occurs xs (since a b)"
  shows "occurs xs (since s s')"
proof -
  from assms(2,3) have "extends a s'" by (rule extends_trans)
  from since_trans [OF assms(1) this] since_trans [OF assms(2,3)]
  have "since s s' = since s a @ since a b @ since b s'" by simp
  with occurs_append [OF assms(4)] show ?thesis by simp
qed

lemma occurs_set: "occurs xs tr \<Longrightarrow> set xs \<subseteq> set tr"
  by (auto simp: occurs_def)

lemma mem_since:
  assumes "extends s a" and "extends a b" and "extends b s'" and "e \<in> set (since a b)"
  shows "e \<in> set (since s s')"
proof -
  from assms(2,3) have "extends a s'" by (rule extends_trans)
  from since_trans [OF assms(1) this] since_trans [OF assms(2,3)]
  have "since s s' = since s a @ since a b @ since b s'" by simp
  with assms(4) show ?thesis by simp
qed

text \<open>One entry of the image.\<close>

lemma extract_loop_step:
  assumes "extract_loop os t dirs (h # hs) fin s = (None, s')"
  shows "\<exists>sa. extends s sa \<and> extract_loop os t dirs hs fin sa = (None, s')
    \<and> (Typeflag h = TypeReg \<and> map_of dirs (Dir (Name h)) \<noteq> None \<longrightarrow>
         (\<exists>fd. since s sa
            = [(C_OpenFile (Join [t, Name h]) [O_RDWR, O_CREATE, O_TRUNC], None),
               (C_Copy fd, None), (C_Close fd, None)]))
    \<and> (Typeflag h = TypeDir \<and> map_of dirs (Dir (Name h)) \<noteq> None \<longrightarrow>
         since s sa = [(C_Stat (Join [t, Name h]), None)]
         \<or> (\<exists>e. since s sa
              = [(C_Stat (Join [t, Name h]), Some e), (C_MkdirAll (Join [t, Name h]), None)]))"
proof (cases "map_of dirs (Dir (Name h)) = None \<or> Typeflag h = TypeOther")
  case True
  with assms have "extract_loop os t dirs hs fin s = (None, s')"
    by (auto simp: Let_def split: typeflag.splits)
  with True show ?thesis
    by (intro exI [of _ s]) auto
next
  case False
  then have inplan: "map_of dirs (Dir (Name h)) \<noteq> None" by simp
  show ?thesis
  proof (cases "Typeflag h")
    case TypeOther
    with False show ?thesis by simp
  next
    case TypeDir
    obtain x s1 where st: "Stat os (Join [t, Name h]) s = (x, s1)"
      by (cases "Stat os (Join [t, Name h]) s")
    show ?thesis
    proof (cases x)
      case (Inr fi)
      with assms TypeDir inplan st have "extract_loop os t dirs hs fin s1 = (None, s')"
        by (simp add: Let_def)
      moreover from calls_eq(9) [OF st] Inr have "extends s s1"
        and "since s s1 = [(C_Stat (Join [t, Name h]), None)]"
        by (simp_all add: extends_def since_def)
      ultimately show ?thesis using TypeDir
        by (intro exI [of _ s1]) simp
    next
      case (Inl e)
      obtain y s2 where mk: "MkdirAll os (Join [t, Name h]) perm_0755 s1 = (y, s2)"
        by (cases "MkdirAll os (Join [t, Name h]) perm_0755 s1")
      with assms TypeDir inplan st Inl have y: "y = None"
        and rest: "extract_loop os t dirs hs fin s2 = (None, s')"
        by (auto simp: Let_def split: option.splits)
      from calls_eq(9) [OF st] calls_eq(1) [OF mk] Inl y have "extends s s2"
        and "since s s2 = [(C_Stat (Join [t, Name h]), Some e), (C_MkdirAll (Join [t, Name h]), None)]"
        by (simp_all add: extends_def since_def)
      with rest TypeDir show ?thesis
        by (intro exI [of _ s2]) simp
    qed
  next
    case TypeReg
    let ?s1 = "logf InfoLevel ''Extracting file %s'' [S (Name h)] s"
    obtain x s2 where op: "OpenFile os (Join [t, Name h]) [O_RDWR, O_CREATE, O_TRUNC]
        (entry_Mode h AND perm_0755) ?s1 = (x, s2)"
      by (cases "OpenFile os (Join [t, Name h]) [O_RDWR, O_CREATE, O_TRUNC]
        (entry_Mode h AND perm_0755) ?s1")
    with assms TypeReg inplan obtain fd where x: "x = Inr fd"
      by (cases x) (auto simp: Let_def)
    obtain y s3 where cp: "Copy os fd (Body h) s2 = (y, s3)"
      by (cases "Copy os fd (Body h) s2")
    with assms TypeReg inplan op x have y: "y = None"
      by (cases y) (auto simp: Let_def)
    obtain z s4 where cl: "Close os fd s3 = (z, s4)"
      by (cases "Close os fd s3")
    with assms TypeReg inplan op x cp y have z: "z = None"
      and rest: "extract_loop os t dirs hs fin s4 = (None, s')"
      by (auto simp: Let_def split: option.splits)
    from calls_eq(10) [OF op] calls_eq(8) [OF cp] calls_eq(6) [OF cl] x y z
    have "extends s s4"
      and "since s s4 = [(C_OpenFile (Join [t, Name h]) [O_RDWR, O_CREATE, O_TRUNC], None),
               (C_Copy fd, None), (C_Close fd, None)]"
      by (simp_all add: extends_def since_def)
    with rest TypeReg show ?thesis
      by (intro exI [of _ s4]) auto
  qed
qed

lemma extract_loop_staged:
  "extract_loop os t dirs hs fin s = (None, s') \<Longrightarrow>
    (\<forall>h \<in> set hs. Typeflag h = TypeReg \<and> map_of dirs (Dir (Name h)) \<noteq> None \<longrightarrow>
       (\<exists>fd. occurs [(C_OpenFile (Join [t, Name h]) [O_RDWR, O_CREATE, O_TRUNC], None),
               (C_Copy fd, None), (C_Close fd, None)] (since s s')))
    \<and> (\<forall>h \<in> set hs. Typeflag h = TypeDir \<and> map_of dirs (Dir (Name h)) \<noteq> None \<longrightarrow>
         occurs [(C_Stat (Join [t, Name h]), None)] (since s s')
         \<or> (\<exists>e. occurs [(C_Stat (Join [t, Name h]), Some e),
                  (C_MkdirAll (Join [t, Name h]), None)] (since s s')))"
proof (induction hs arbitrary: s)
  case Nil
  then show ?case by simp
next
  case (Cons h hs)
  from extract_loop_step [OF Cons.prems] obtain sa where
    e1: "extends s sa" and rest: "extract_loop os t dirs hs fin sa = (None, s')"
    and reg: "Typeflag h = TypeReg \<and> map_of dirs (Dir (Name h)) \<noteq> None \<longrightarrow>
         (\<exists>fd. since s sa
            = [(C_OpenFile (Join [t, Name h]) [O_RDWR, O_CREATE, O_TRUNC], None),
               (C_Copy fd, None), (C_Close fd, None)])"
    and dir: "Typeflag h = TypeDir \<and> map_of dirs (Dir (Name h)) \<noteq> None \<longrightarrow>
         since s sa = [(C_Stat (Join [t, Name h]), None)]
         \<or> (\<exists>e. since s sa
              = [(C_Stat (Join [t, Name h]), Some e), (C_MkdirAll (Join [t, Name h]), None)])"
    by blast
  from extends_extract_loop [OF rest] have e2: "extends sa s'" .
  note here = occurs_since [OF extends_refl e1 e2]
  note later = occurs_since [OF e1 e2 extends_refl]
  from Cons.IH [OF rest] have
    IHreg: "\<forall>h \<in> set hs. Typeflag h = TypeReg \<and> map_of dirs (Dir (Name h)) \<noteq> None \<longrightarrow>
       (\<exists>fd. occurs [(C_OpenFile (Join [t, Name h]) [O_RDWR, O_CREATE, O_TRUNC], None),
               (C_Copy fd, None), (C_Close fd, None)] (since sa s'))"
    and IHdir: "\<forall>h \<in> set hs. Typeflag h = TypeDir \<and> map_of dirs (Dir (Name h)) \<noteq> None \<longrightarrow>
         occurs [(C_Stat (Join [t, Name h]), None)] (since sa s')
         \<or> (\<exists>e. occurs [(C_Stat (Join [t, Name h]), Some e),
                  (C_MkdirAll (Join [t, Name h]), None)] (since sa s'))"
    by blast+
  have "\<forall>h' \<in> set (h # hs). Typeflag h' = TypeReg \<and> map_of dirs (Dir (Name h')) \<noteq> None \<longrightarrow>
       (\<exists>fd. occurs [(C_OpenFile (Join [t, Name h']) [O_RDWR, O_CREATE, O_TRUNC], None),
               (C_Copy fd, None), (C_Close fd, None)] (since s s'))"
  proof (intro ballI impI)
    fix h' assume m: "h' \<in> set (h # hs)"
      and p: "Typeflag h' = TypeReg \<and> map_of dirs (Dir (Name h')) \<noteq> None"
    show "\<exists>fd. occurs [(C_OpenFile (Join [t, Name h']) [O_RDWR, O_CREATE, O_TRUNC], None),
               (C_Copy fd, None), (C_Close fd, None)] (since s s')"
    proof (cases "h' = h")
      case True
      with reg p obtain fd where "since s sa
            = [(C_OpenFile (Join [t, Name h']) [O_RDWR, O_CREATE, O_TRUNC], None),
               (C_Copy fd, None), (C_Close fd, None)]"
        by blast
      then have "occurs [(C_OpenFile (Join [t, Name h']) [O_RDWR, O_CREATE, O_TRUNC], None),
               (C_Copy fd, None), (C_Close fd, None)] (since s sa)"
        by simp
      from here [OF this] show ?thesis ..
    next
      case False
      with m IHreg p obtain fd where
        "occurs [(C_OpenFile (Join [t, Name h']) [O_RDWR, O_CREATE, O_TRUNC], None),
               (C_Copy fd, None), (C_Close fd, None)] (since sa s')"
        by auto
      from later [OF this] show ?thesis ..
    qed
  qed
  moreover
  have "\<forall>h' \<in> set (h # hs). Typeflag h' = TypeDir \<and> map_of dirs (Dir (Name h')) \<noteq> None \<longrightarrow>
         occurs [(C_Stat (Join [t, Name h']), None)] (since s s')
         \<or> (\<exists>e. occurs [(C_Stat (Join [t, Name h']), Some e),
                  (C_MkdirAll (Join [t, Name h']), None)] (since s s'))"
  proof (intro ballI impI)
    fix h' assume m: "h' \<in> set (h # hs)"
      and p: "Typeflag h' = TypeDir \<and> map_of dirs (Dir (Name h')) \<noteq> None"
    show "occurs [(C_Stat (Join [t, Name h']), None)] (since s s')
         \<or> (\<exists>e. occurs [(C_Stat (Join [t, Name h']), Some e),
                  (C_MkdirAll (Join [t, Name h']), None)] (since s s'))"
    proof (cases "h' = h")
      case True
      with dir p have "occurs [(C_Stat (Join [t, Name h']), None)] (since s sa)
         \<or> (\<exists>e. occurs [(C_Stat (Join [t, Name h']), Some e),
                  (C_MkdirAll (Join [t, Name h']), None)] (since s sa))"
        by (metis occurs_self)
      with here show ?thesis by blast
    next
      case False
      with m IHdir p have "occurs [(C_Stat (Join [t, Name h']), None)] (since sa s')
         \<or> (\<exists>e. occurs [(C_Stat (Join [t, Name h']), Some e),
                  (C_MkdirAll (Join [t, Name h']), None)] (since sa s'))"
        by auto
      with later show ?thesis by blast
    qed
  qed
  ultimately show ?case by blast
qed

lemma move_files_errs:
  "move_files os src dest files errs s = (errs', s') \<Longrightarrow> \<exists>others. errs' = errs @ others"
proof (induction files arbitrary: errs s)
  case Nil
  then show ?case by simp
next
  case (Cons f files)
  from Cons.prems show ?case
    by (auto simp: Let_def split: if_splits prod.splits option.splits dest!: Cons.IH)
qed

lemma move_files_step:
  assumes "move_files os src dest (f # files) errs s = (errs', s')"
  shows "\<exists>others sa. extends s sa \<and> move_files os src dest files (errs @ others) sa = (errs', s')
    \<and> (others = [] \<longrightarrow> (C_Rename (Join [src, f]) (Join [dest, f]), None) \<in> set (since s sa))"
proof -
  obtain x s1 where r1: "Rename os (Join [src, f]) (Join [dest, f]) s = (x, s1)"
    by (cases "Rename os (Join [src, f]) (Join [dest, f]) s")
  note t1 = calls_eq(2) [OF r1]
  show ?thesis
  proof (cases x)
    case None
    with assms r1 have "move_files os src dest files (errs @ []) s1 = (errs', s')"
      by (simp add: Let_def)
    moreover from t1 None have "extends s s1"
      and "(C_Rename (Join [src, f]) (Join [dest, f]), None) \<in> set (since s s1)"
      by (simp_all add: extends_def since_def)
    ultimately show ?thesis by blast
  next
    case (Some err)
    show ?thesis
    proof (cases "IsExist err")
      case False
      with assms r1 Some
      have "move_files os src dest files
          (errs @ [Wrap err (''failed to rename '' @ Join [src, f] @ '' to '' @ Join [dest, f])]) s1
          = (errs', s')"
        by (simp add: Let_def)
      moreover from t1 have "extends s s1" by (simp add: extends_def)
      ultimately show ?thesis by blast
    next
      case True
      obtain y s2 where rm: "RemoveAll os (Join [dest, f]) s1 = (y, s2)"
        by (cases "RemoveAll os (Join [dest, f]) s1")
      note t2 = calls_eq(3) [OF rm]
      show ?thesis
      proof (cases y)
        case (Some err2)
        with assms r1 \<open>x = Some err\<close> True rm
        have "move_files os src dest files
            (errs @ [Wrap err2 (''failed to remove '' @ Join [dest, f])]) s2 = (errs', s')"
          by (simp add: Let_def)
        moreover from t1 t2 have "extends s s2" by (simp add: extends_def)
        ultimately show ?thesis by blast
      next
        case None
        obtain z s3 where r2: "Rename os (Join [src, f]) (Join [dest, f]) s2 = (z, s3)"
          by (cases "Rename os (Join [src, f]) (Join [dest, f]) s2")
        note t3 = calls_eq(2) [OF r2]
        from t1 t2 t3 have e: "extends s s3" by (simp add: extends_def)
        show ?thesis
        proof (cases z)
          case None
          with assms r1 \<open>x = Some err\<close> True rm \<open>y = None\<close> r2
          have "move_files os src dest files (errs @ []) s3 = (errs', s')"
            by (simp add: Let_def)
          moreover from t1 t2 t3 None
          have "(C_Rename (Join [src, f]) (Join [dest, f]), None) \<in> set (since s s3)"
            by (simp add: since_def)
          ultimately show ?thesis using e by blast
        next
          case (Some err3)
          with assms r1 \<open>x = Some err\<close> True rm \<open>y = None\<close> r2
          have "move_files os src dest files
              (errs @ [Wrap err3 (''failed to rename '' @ Join [src, f] @ '' to '' @ Join [dest, f])])
              s3 = (errs', s')"
            by (simp add: Let_def)
          with e show ?thesis by blast
        qed
      qed
    qed
  qed
qed

lemma move_files_moved:
  "move_files os src dest files errs s = (errs, s') \<Longrightarrow>
    \<forall>f \<in> set files. (C_Rename (Join [src, f]) (Join [dest, f]), None) \<in> set (since s s')"
proof (induction files arbitrary: s)
  case Nil
  then show ?case by simp
next
  case (Cons f files)
  from move_files_step [OF Cons.prems] obtain others sa where
    e1: "extends s sa" and rest: "move_files os src dest files (errs @ others) sa = (errs, s')"
    and ok: "others = [] \<longrightarrow> (C_Rename (Join [src, f]) (Join [dest, f]), None) \<in> set (since s sa)"
    by blast
  from move_files_errs [OF rest] have o: "others = []" by simp
  from extends_move_files [OF rest] have e2: "extends sa s'" .
  from ok o mem_since [OF extends_refl e1 e2]
  have "(C_Rename (Join [src, f]) (Join [dest, f]), None) \<in> set (since s s')"
    by blast
  moreover from Cons.IH [of sa] rest o mem_since [OF e1 e2 extends_refl]
  have "\<forall>f \<in> set files. (C_Rename (Join [src, f]) (Join [dest, f]), None) \<in> set (since s s')"
    by auto
  ultimately show ?case by simp
qed

lemma placed_lift:
  assumes e1: "extends s a" and e2: "extends a b" and e3: "extends b s'"
    and p: "placed os t source dest a b"
  shows "placed os t source dest s s'"
proof -
  note up = mem_since [OF e1 e2 e3]
  from p have st: "(C_Stat (Join [t, source]), None) \<in> set (since a b)"
    by (simp add: placed_def)
  from p consider
    (one) "(C_Rename (Join [t, source]) dest, None) \<in> set (since a b)"
  | (each) e sa sb files where "IsExist e"
      "(C_Rename (Join [t, source]) dest, Some e) \<in> set (since a b)"
      "extends a sa" "extends sb b" "ReadDir os (Join [t, source]) sa = (Inr files, sb)"
      "\<forall>file \<in> set files.
          (C_Rename (Join [Join [t, source], file]) (Join [dest, file]), None) \<in> set (since sb b)"
    unfolding placed_def by blast
  then show ?thesis
  proof cases
    case one
    with st up show ?thesis by (simp add: placed_def)
  next
    case each
    from e1 each(3) have "extends s sa" by (rule extends_trans)
    moreover from each(4) e3 have "extends sb s'" by (rule extends_trans)
    moreover from each(6) mem_since [OF extends_refl each(4) e3]
    have "\<forall>file \<in> set files.
          (C_Rename (Join [Join [t, source], file]) (Join [dest, file]), None) \<in> set (since sb s')"
      by blast
    ultimately show ?thesis
      using st up each(1,2,5) unfolding placed_def by blast
  qed
qed

lemma move_dirs_errs:
  "move_dirs os t ds errs s = (Inr errs', s') \<Longrightarrow> \<exists>others. errs' = errs @ others"
proof (induction ds arbitrary: errs s)
  case Nil
  then show ?case by simp
next
  case (Cons d ds)
  obtain source dest where d: "d = (source, dest)" by (cases d)
  from Cons.prems show ?case unfolding d
    by (auto simp: Let_def split: if_splits prod.splits option.splits sum.splits
        dest!: Cons.IH move_files_errs)
qed

lemma move_dirs_step:
  assumes "move_dirs os t ((source, dest) # rest) errs s = (Inr errs', s')"
  shows "\<exists>others sa. extends s sa \<and> move_dirs os t rest (errs @ others) sa = (Inr errs', s')
    \<and> (others = [] \<longrightarrow> placed os t source dest s sa)"
proof -
  let ?src = "Join [t, source]"
  obtain x s1 where st: "Stat os ?src s = (x, s1)"
    by (cases "Stat os ?src s")
  note t1 = calls_eq(9) [OF st]
  show ?thesis
  proof (cases x)
    case (Inl err)
    with assms st have "move_dirs os t rest (errs @ [err]) s1 = (Inr errs', s')"
      by (simp add: Let_def)
    moreover from t1 have "extends s s1" by (simp add: extends_def)
    ultimately show ?thesis by blast
  next
    case (Inr fi)
    let ?s2 = "logf DebugLevel ''Moving extracted content from %s to %s'' [S ?src, S dest] s1"
    obtain made s3 where mk: "(case Stat os (Dir dest) ?s2 of
                       (Inr fi', s') \<Rightarrow> (None, s')
                     | (Inl err, s') \<Rightarrow> MkdirAll os (Dir dest) perm_0755 s') = (made, s3)"
      by (cases "(case Stat os (Dir dest) ?s2 of
                       (Inr fi', s') \<Rightarrow> (None, s')
                     | (Inl err, s') \<Rightarrow> MkdirAll os (Dir dest) perm_0755 s')")
    then have e23: "\<exists>tr. trace s3 = trace s1 @ tr"
      by (auto split: prod.splits sum.splits dest!: calls_eq)
    with t1 Inr have pre: "\<exists>tr. trace s3 = trace s @ (C_Stat ?src, None) # tr"
      by auto
    from mk have "\<exists>ls. logs s3 = logs s1 @ ls"
      by (auto split: prod.splits sum.splits dest!: calls_eq)
    with t1 pre have e3: "extends s s3"
      by (auto simp: extends_def)
    from assms st Inr mk have made: "made = None"
      by (cases made) (simp_all add: Let_def)
    obtain z s4 where rn: "Rename os ?src dest s3 = (z, s4)"
      by (cases "Rename os ?src dest s3")
    note t4 = calls_eq(2) [OF rn]
    from e3 t4 have e4: "extends s s4"
      by (auto simp: extends_def)
    from pre t4 have st4: "(C_Stat ?src, None) \<in> set (since s s4)"
      and rn4: "(C_Rename ?src dest, z) \<in> set (since s s4)"
      by (auto simp: since_def)
    show ?thesis
    proof (cases z)
      case None
      with assms st Inr mk made rn have "move_dirs os t rest (errs @ []) s4 = (Inr errs', s')"
        by (simp add: Let_def)
      moreover from st4 rn4 None have "placed os t source dest s s4"
        by (simp add: placed_def)
      ultimately show ?thesis using e4 by blast
    next
      case (Some err)
      show ?thesis
      proof (cases "IsExist err")
        case False
        with assms st Inr mk made rn Some
        have "move_dirs os t rest (errs @ [err]) s4 = (Inr errs', s')"
          by (simp add: Let_def)
        with e4 show ?thesis by blast
      next
        case True
        obtain v s5 where rd: "ReadDir os ?src s4 = (v, s5)"
          by (cases "ReadDir os ?src s4")
        note t5 = calls_eq(12) [OF rd]
        from t5 have e45: "extends s4 s5" by (simp add: extends_def)
        show ?thesis
        proof (cases v)
          case (Inl err2)
          with assms st Inr mk made rn Some True rd
          have "move_dirs os t rest (errs @ [err2]) s5 = (Inr errs', s')"
            by (simp add: Let_def)
          moreover from e4 e45 have "extends s s5" by (rule extends_trans)
          ultimately show ?thesis by blast
        next
          case (Inr files)
          obtain errs1 s6 where mf: "move_files os ?src dest files errs s5 = (errs1, s6)"
            by (cases "move_files os ?src dest files errs s5")
          from move_files_errs [OF mf] obtain others where o: "errs1 = errs @ others"
            by blast
          from extends_move_files [OF mf] have e56: "extends s5 s6" .
          from e4 e45 e56 have e6: "extends s s6"
            by (blast intro: extends_trans)
          from assms st \<open>x = Inr fi\<close> mk made rn Some True rd Inr mf o
          have rest: "move_dirs os t rest (errs @ others) s6 = (Inr errs', s')"
            by (simp add: Let_def)
          have "others = [] \<longrightarrow> placed os t source dest s s6"
          proof
            assume "others = []"
            with mf o have "move_files os ?src dest files errs s5 = (errs, s6)"
              by simp
            from move_files_moved [OF this]
            have all: "\<forall>f \<in> set files. (C_Rename (Join [?src, f]) (Join [dest, f]), None)
                \<in> set (since s5 s6)" .
            from e45 e56 have e46: "extends s4 s6" by (rule extends_trans)
            from mem_since [OF extends_refl e4 e46] st4 rn4 Some
            have "(C_Stat ?src, None) \<in> set (since s s6)"
              and "(C_Rename ?src dest, Some err) \<in> set (since s s6)"
              by simp_all
            with True e4 e56 rd Inr all show "placed os t source dest s s6"
              unfolding placed_def by blast
          qed
          with rest e6 show ?thesis by blast
        qed
      qed
    qed
  qed
qed

lemma move_dirs_placed:
  "move_dirs os t ds errs s = (Inr errs, s') \<Longrightarrow>
    \<forall>d \<in> set ds. placed os t (fst d) (snd d) s s'"
proof (induction ds arbitrary: s)
  case Nil
  then show ?case by simp
next
  case (Cons d ds)
  obtain source dest where d: "d = (source, dest)" by (cases d)
  from move_dirs_step [OF Cons.prems [unfolded d]] obtain others sa where
    e1: "extends s sa" and rest: "move_dirs os t ds (errs @ others) sa = (Inr errs, s')"
    and ok: "others = [] \<longrightarrow> placed os t source dest s sa"
    by blast
  from move_dirs_errs [OF rest] have o: "others = []" by simp
  from extends_move_dirs [OF rest] have e2: "extends sa s'" .
  from ok o placed_lift [OF extends_refl e1 e2]
  have "placed os t source dest s s'"
    by blast
  moreover have "\<forall>d \<in> set ds. placed os t (fst d) (snd d) s s'"
  proof
    fix d' assume "d' \<in> set ds"
    with Cons.IH [of sa] rest o have "placed os t (fst d') (snd d') sa s'"
      by simp
    then show "placed os t (fst d') (snd d') s s'"
      by (rule placed_lift [OF e1 e2 extends_refl])
  qed
  ultimately show ?case by (simp add: d)
qed

lemma rewriteChart_reads:
  "rewriteChart os f info dataDir reg s = (None, s1) \<Longrightarrow> (C_ReadFile f, None) \<in> set (since s s1)"
  by (auto simp: rewriteChart_def since_def
      split: prod.splits sum.splits option.splits object.splits if_splits
      dest!: calls_eq)

lemma rewrite_charts_reads:
  "rewrite_charts os files dataDir reg errs s = (errs, s') \<Longrightarrow>
    \<forall>f \<in> fst ` set files. (C_ReadFile f, None) \<in> set (since s s')"
proof (induction files arbitrary: s)
  case Nil
  then show ?case by simp
next
  case (Cons a files)
  obtain f info where a: "a = (f, info)" by (cases a)
  obtain r sa where run: "rewriteChart os f info dataDir reg s = (r, sa)"
    by (cases "rewriteChart os f info dataDir reg s")
  show ?case
  proof (cases r)
    case (Some err)
    with Cons.prems a run
    have "rewrite_charts os files dataDir reg (errs @ [err]) sa = (errs, s')"
      by simp
    from rewrite_charts_errs [OF this] show ?thesis by simp
  next
    case None
    with Cons.prems a run have rest: "rewrite_charts os files dataDir reg errs sa = (errs, s')"
      by simp
    from extends_rewriteChart [OF run] have e1: "extends s sa" .
    from extends_rewrite_charts [OF rest] have e2: "extends sa s'" .
    from rewriteChart_reads [OF run [unfolded None]] mem_since [OF extends_refl e1 e2]
    have "(C_ReadFile f, None) \<in> set (since s s')" by blast
    moreover from Cons.IH [OF rest] mem_since [OF e1 e2 extends_refl]
    have "\<forall>f \<in> fst ` set files. (C_ReadFile f, None) \<in> set (since s s')"
      by blast
    ultimately show ?thesis by (simp add: a)
  qed
qed

lemma go_range_mem:
  assumes "set (order (map fst m)) = set (map fst m)" and "map_of m k = Some v"
  shows "(k, v) \<in> set (go_range order m)"
proof -
  from map_of_SomeD [OF assms(2)] have "k \<in> set (map fst m)"
    by force
  with assms show ?thesis
    by (force simp: go_range_def List.map_filter_def)
qed

lemma setChartValues_run:
  assumes "setChartValues os dataDir reg s = (None, s1)"
  shows "\<exists>sa files. extends s sa \<and> extends sa s1
    \<and> walk_manifests (fst (filepath_Walk os (manifestsDir dataDir) (world s))) [] = Inr files
    \<and> rewrite_charts os (go_range (range_keys os) files) dataDir reg [] sa = ([], s1)"
proof -
  obtain items sa where wk: "Walk os (manifestsDir dataDir) s = (items, sa)"
    by (cases "Walk os (manifestsDir dataDir) s")
  note w = Walk_world [OF wk]
  from calls_eq(14) [OF wk] have e1: "extends s sa"
    by (simp add: extends_def)
  from assms wk obtain files where f: "walk_manifests items [] = Inr files"
    by (cases "walk_manifests items []") (auto simp: setChartValues_def)
  obtain errs s' where rc: "rewrite_charts os (go_range (range_keys os) files) dataDir reg [] sa = (errs, s')"
    by (cases "rewrite_charts os (go_range (range_keys os) files) dataDir reg [] sa")
  from assms wk f rc have "NewErrors errs = None" and "s' = s1"
    by (simp_all add: setChartValues_def)
  with rc NewErrors_None have rc': "rewrite_charts os (go_range (range_keys os) files) dataDir reg [] sa = ([], s1)"
    by auto
  from extends_rewrite_charts [OF rc'] have "extends sa s1" .
  with e1 f w rc' show ?thesis
    by auto
qed

lemma extractToDirs_run:
  assumes ok: "extractToDirs os img dataDir dirs s = (None, s')"
    and K5: "\<forall>ks. set (range_keys os ks) = set ks"
  shows "\<exists>tempDir s6. TempDir os dataDir ''runtime-*'' s = (Inr tempDir, s6) \<and> extends s6 s'
    \<and> calls_are (staging_call tempDir dirs (fst (mutate_Extract os img))) s s'
    \<and> (\<forall>h \<in> set (fst (mutate_Extract os img)).
          Typeflag h = TypeReg \<and> map_of dirs (Dir (Name h)) \<noteq> None \<longrightarrow>
            (\<exists>fd. occurs [(C_OpenFile (Join [tempDir, Name h]) [O_RDWR, O_CREATE, O_TRUNC], None),
               (C_Copy fd, None), (C_Close fd, None)] (since s s')))
    \<and> (\<forall>source dest. map_of dirs source = Some dest \<longrightarrow> placed os tempDir source dest s s')"
proof -
  let ?hs = "fst (mutate_Extract os img)"
  obtain x s6 where td: "TempDir os dataDir ''runtime-*'' s = (x, s6)"
    by (cases "TempDir os dataDir ''runtime-*'' s")
  with ok obtain tempDir where x: "x = Inr tempDir"
    by (cases x) (auto simp: extractToDirs_def)
  note t6 = calls_eq(11) [OF td]
  from t6 have e6: "extends s s6" by (simp add: extends_def)
  let ?P = "staging_call tempDir dirs ?hs"
  from t6 have c6: "calls_are ?P s s6"
    by (simp add: calls_are_def)
  obtain r sb where body: "extractToDirs_body os img tempDir dirs s6 = (r, sb)"
    by (cases "extractToDirs_body os img tempDir dirs s6")
  let ?sc = "snd (sys C_imageReader_Close (imageReader_Close os) sb)"
  from ok td x body have r: "r = None" and s': "s' = snd (RemoveAll os tempDir ?sc)"
    by (simp_all add: extractToDirs_def Let_def)
  from s' have eb: "extends sb s'" and cb: "calls_are ?P sb s'"
    by (simp_all add: extends_def calls_are_def)
  from extends_extractToDirs_body [OF body] have e6b: "extends s6 sb" .
  from calls_are_extractToDirs_body [OF body] have c6b: "calls_are ?P s6 sb" .
  from c6 c6b cb have calls: "calls_are ?P s s'"
    by (blast intro: calls_are_trans)
  from body r obtain sx errs where ex: "extract' os tempDir dirs (mutate_Extract os img) s6 = (None, sx)"
    and mv: "move_dirs os tempDir (go_range (range_keys os) dirs) [] sx = (Inr errs, sb)"
    and ne: "NewErrors errs = None"
    by (auto simp: extractToDirs_body_def Let_def split: prod.splits option.splits sum.splits)
  from ne have "errs = []" by (rule NewErrors_None)
  with mv have mv': "move_dirs os tempDir (go_range (range_keys os) dirs) [] sx = (Inr [], sb)"
    by simp
  from extends_extract' [OF ex] have e6x: "extends s6 sx" .
  from extends_move_dirs [OF mv'] have exb: "extends sx sb" .
  from ex obtain sm where mk: "MkdirAll os tempDir perm_0755 s6 = (None, sm)"
    and lp: "extract_loop os tempDir dirs ?hs (snd (mutate_Extract os img)) sm = (None, sx)"
    by (auto simp: extract'_def split: prod.splits option.splits)
  from calls_eq(1) [OF mk] have e6m: "extends s6 sm" by (simp add: extends_def)
  from extends_extract_loop [OF lp] have emx: "extends sm sx" .
  from e6 e6m have esm: "extends s sm" by (rule extends_trans)
  from exb eb have exs': "extends sx s'" by (rule extends_trans)
  from e6 e6x have esx: "extends s sx" by (rule extends_trans)
  have staged: "\<forall>h \<in> set ?hs.
          Typeflag h = TypeReg \<and> map_of dirs (Dir (Name h)) \<noteq> None \<longrightarrow>
            (\<exists>fd. occurs [(C_OpenFile (Join [tempDir, Name h]) [O_RDWR, O_CREATE, O_TRUNC], None),
               (C_Copy fd, None), (C_Close fd, None)] (since s s'))"
  proof (intro ballI impI)
    fix h assume "h \<in> set ?hs"
      and "Typeflag h = TypeReg \<and> map_of dirs (Dir (Name h)) \<noteq> None"
    with extract_loop_staged [OF lp] obtain fd where
      "occurs [(C_OpenFile (Join [tempDir, Name h]) [O_RDWR, O_CREATE, O_TRUNC], None),
               (C_Copy fd, None), (C_Close fd, None)] (since sm sx)"
      by blast
    from occurs_since [OF esm emx exs' this]
    show "\<exists>fd. occurs [(C_OpenFile (Join [tempDir, Name h]) [O_RDWR, O_CREATE, O_TRUNC], None),
               (C_Copy fd, None), (C_Close fd, None)] (since s s')" ..
  qed
  have placed: "\<forall>source dest. map_of dirs source = Some dest
      \<longrightarrow> placed os tempDir source dest s s'"
  proof (intro allI impI)
    fix source dest assume "map_of dirs source = Some dest"
    with K5 have "(source, dest) \<in> set (go_range (range_keys os) dirs)"
      by (intro go_range_mem) simp_all
    with move_dirs_placed [OF mv'] have "placed os tempDir source dest sx sb"
      by force
    then show "placed os tempDir source dest s s'"
      by (rule placed_lift [OF esx exb eb])
  qed
  from e6b eb have "extends s6 s'" by (rule extends_trans)
  with td x calls staged placed show ?thesis
    by blast
qed

lemma extends_Stage_image:
  "Stage_image os dataDir privateRegistry resolver s = (r, s') \<Longrightarrow> extends s s'"
  by (auto simp: Stage_image_def preloadBootstrapFromRuntime_def Let_def extends_def
      split: prod.splits sum.splits option.splits
      dest!: sysv_eq extends_preload_refs [unfolded extends_def])

lemma Stage_place_run:
  assumes ok: "Stage_place os dataDir resolver img refBinDir dirs s5 = (Inr dir, s')"
    and K5: "\<forall>ks. set (range_keys os ks) = set ks"
  shows "\<exists>tempDir s6 s7 s9 s10. dir = refBinDir
    \<and> TempDir os dataDir ''runtime-*'' s5 = (Inr tempDir, s6)
    \<and> extractToDirs os img dataDir dirs s5 = (None, s7)
    \<and> Chmod os refBinDir perm_0755 s7 = (None, s9)
    \<and> setChartValues os dataDir (Registry_Name resolver) s9 = (None, s10)
    \<and> extends s10 s'
    \<and> calls_are (staging_call tempDir dirs (fst (mutate_Extract os img))) s5 s'
    \<and> (\<forall>h \<in> set (fst (mutate_Extract os img)).
          Typeflag h = TypeReg \<and> map_of dirs (Dir (Name h)) \<noteq> None \<longrightarrow>
            (\<exists>fd. occurs [(C_OpenFile (Join [tempDir, Name h]) [O_RDWR, O_CREATE, O_TRUNC], None),
               (C_Copy fd, None), (C_Close fd, None)] (since s5 s')))
    \<and> (\<forall>source dest. map_of dirs source = Some dest \<longrightarrow> placed os tempDir source dest s5 s')"
proof -
  let ?hs = "fst (mutate_Extract os img)"
  obtain x7 s7 where ex0: "extractToDirs os img dataDir dirs s5 = (x7, s7)"
    by (cases "extractToDirs os img dataDir dirs s5")
  with ok have x7: "x7 = None"
    by (cases x7) (simp_all add: Stage_place_def)
  obtain x8 s8 where ch0: "Chmod os refBinDir perm_0755 s7 = (x8, s8)"
    by (cases "Chmod os refBinDir perm_0755 s7")
  with ok ex0 x7 have x8: "x8 = None"
    by (cases x8) (simp_all add: Stage_place_def)
  obtain x10 s10 where sc0: "setChartValues os dataDir (Registry_Name resolver) s8 = (x10, s10)"
    by (cases "setChartValues os dataDir (Registry_Name resolver) s8")
  with ok ex0 x7 ch0 x8 have x10: "x10 = None"
    by (cases x10) (simp_all add: Stage_place_def)
  from ex0 x7 have ex: "extractToDirs os img dataDir dirs s5 = (None, s7)" by simp
  from ch0 x8 have ch: "Chmod os refBinDir perm_0755 s7 = (None, s8)" by simp
  from sc0 x10 have sc: "setChartValues os dataDir (Registry_Name resolver) s8 = (None, s10)"
    by simp
  from ok ex ch sc
  have s': "s' = snd (Symlink os refBinDir (symlinkBinDir dataDir)
          (snd (RemoveAll os (symlinkBinDir dataDir) s10)))"
    and dir: "dir = refBinDir"
    by (auto simp: Stage_place_def Let_def)
  from extractToDirs_run [OF ex K5] obtain tempDir s6 where
    td: "TempDir os dataDir ''runtime-*'' s5 = (Inr tempDir, s6)" and e67: "extends s6 s7"
    and c57: "calls_are (staging_call tempDir dirs ?hs) s5 s7"
    and staged: "\<forall>h \<in> set ?hs.
          Typeflag h = TypeReg \<and> map_of dirs (Dir (Name h)) \<noteq> None \<longrightarrow>
            (\<exists>fd. occurs [(C_OpenFile (Join [tempDir, Name h]) [O_RDWR, O_CREATE, O_TRUNC], None),
               (C_Copy fd, None), (C_Close fd, None)] (since s5 s7))"
    and placed: "\<forall>source dest. map_of dirs source = Some dest
        \<longrightarrow> placed os tempDir source dest s5 s7"
    by blast
  let ?P = "staging_call tempDir dirs ?hs"
  from extends_extractToDirs [OF ex] have e57: "extends s5 s7" .
  from calls_eq(5) [OF ch] have e78: "extends s7 s8" and c78: "calls_are ?P s7 s8"
    by (simp_all add: extends_def calls_are_def)
  from extends_setChartValues [OF sc] have e8: "extends s8 s10" .
  from calls_are_setChartValues [OF sc] have c8: "calls_are ?P s8 s10" .
  from s' have e10: "extends s10 s'" and c10: "calls_are ?P s10 s'"
    by (simp_all add: extends_def calls_are_def)
  from e67 e78 have e68: "extends s6 s8" by (rule extends_trans)
  from e78 e8 e10 have e7': "extends s7 s'" by (blast intro: extends_trans)
  from c57 c78 c8 c10 have calls: "calls_are ?P s5 s'"
    by (blast intro: calls_are_trans)
  have staged': "\<forall>h \<in> set ?hs.
          Typeflag h = TypeReg \<and> map_of dirs (Dir (Name h)) \<noteq> None \<longrightarrow>
            (\<exists>fd. occurs [(C_OpenFile (Join [tempDir, Name h]) [O_RDWR, O_CREATE, O_TRUNC], None),
               (C_Copy fd, None), (C_Close fd, None)] (since s5 s'))"
    using staged occurs_since [OF extends_refl e57 e7'] by blast
  have placed': "\<forall>source dest. map_of dirs source = Some dest
        \<longrightarrow> placed os tempDir source dest s5 s'"
    using placed placed_lift [OF extends_refl e57 e7'] by blast
  from dir td ex ch sc e10 calls staged' placed' show ?thesis
    by blast
qed

lemma Stage_rerun:
  assumes ok: "Stage os dataDir privateRegistry resolver s = (Returns (Inr dir), s')"
    and K5: "\<forall>ks. set (range_keys os ks) = set ks"
  shows "\<exists>rd img s4 tempDir s6 s7 s9 s10 files.
      releaseRefDigest (sha256_Sum256 os) (MustGetReference_Runtime resolver) = Returns (Inr rd)
    \<and> dir = binDirForDigest dataDir rd
    \<and> Stage_image os dataDir privateRegistry resolver s = (Inr img, s4)
    \<and> TempDir os dataDir ''runtime-*''
          (snd (extractPaths os dataDir (MustGetReference_Runtime resolver) rd s4))
        = (Inr tempDir, s6)
    \<and> extractToDirs os (cache_Image os img (runtimeCacheDir dataDir)) dataDir
          (fst (extractPaths os dataDir (MustGetReference_Runtime resolver) rd s4))
          (snd (extractPaths os dataDir (MustGetReference_Runtime resolver) rd s4))
        = (None, s7)
    \<and> Chmod os dir perm_0755 s7 = (None, s9)
    \<and> setChartValues os dataDir (Registry_Name resolver) s9 = (None, s10)
    \<and> extends s10 s'
    \<and> walk_manifests (fst (filepath_Walk os (manifestsDir dataDir) (world s9))) [] = Inr files
    \<and> (let plan = fst (extractPaths os dataDir (MustGetReference_Runtime resolver) rd s4);
            entries = fst (mutate_Extract os (cache_Image os img (runtimeCacheDir dataDir)))
        in (\<forall>c r. (c, r) \<in> set (since s s') \<longrightarrow> staging_call tempDir plan entries c)
         \<and> (\<forall>h \<in> set entries.
               Typeflag h = TypeReg \<and> map_of plan (Dir (Name h)) \<noteq> None \<longrightarrow>
                 (\<exists>fd. occurs
                    [(C_OpenFile (Join [tempDir, Name h]) [O_RDWR, O_CREATE, O_TRUNC], None),
                     (C_Copy fd, None), (C_Close fd, None)] (since s s')))
         \<and> (\<forall>source dest. map_of plan source = Some dest \<longrightarrow>
               placed os tempDir source dest s s'))
    \<and> (\<forall>f \<in> fst ` set files. (C_ReadFile f, None) \<in> set (since s s'))
    \<and> ((\<forall>c b. ser_Encode os c = Inr b \<longrightarrow>
          (\<exists>c'. ser_Decode os b = Inr (HelmChartObj c')
            \<and> spec_JobImage c' = spec_JobImage c
            \<and> Set_StrVal c' ''global.rke2DataDir'' = Set_StrVal c ''global.rke2DataDir''
            \<and> Set_StrVal c' ''global.systemDefaultRegistry''
                = Set_StrVal c ''global.systemDefaultRegistry''))
        \<and> (\<forall>f w b w'. ioutil_ReadFile os f w = (Inr b, w') \<longrightarrow> contents w f = Some b)
        \<and> (\<forall>f w. contents (snd (ioutil_ReadFile os f w)) = contents w)
        \<and> (\<forall>f m w fd w1 b w2 w3. os_OpenFile os f [O_RDWR, O_TRUNC] m w = (Inr fd, w1)
              \<and> file_Write os fd b w1 = (None, w2) \<and> file_Close os fd w2 = (None, w3)
              \<longrightarrow> contents w3 = (contents w)(f \<mapsto> b))
        \<longrightarrow> (\<forall>f \<in> fst ` set files.
              settled os contents dataDir (Registry_Name resolver) (world s10) f))"
proof -
  let ?ref = "MustGetReference_Runtime resolver"
  from ok obtain rd where rd: "releaseRefDigest (sha256_Sum256 os) ?ref = Returns (Inr rd)"
    by (auto simp: Stage_eq split: go.splits sum.splits)
  obtain x s4 where im: "Stage_image os dataDir privateRegistry resolver s = (x, s4)"
    by (cases "Stage_image os dataDir privateRegistry resolver s")
  with ok rd obtain img where x: "x = Inr img"
    by (cases x) (auto simp: Stage_eq)
  obtain plan s5 where ep: "extractPaths os dataDir ?ref rd s4 = (plan, s5)"
    by (cases "extractPaths os dataDir ?ref rd s4")
  let ?img = "cache_Image os img (runtimeCacheDir dataDir)"
  let ?hs = "fst (mutate_Extract os ?img)"
  from ok rd im x ep
  have pl: "Stage_place os dataDir resolver ?img (binDirForDigest dataDir rd) plan s5 = (Inr dir, s')"
    by (auto simp: Stage_eq split: prod.splits)
  from Stage_place_run [OF pl K5] obtain tempDir s6 s7 s9 s10 where
    dir: "dir = binDirForDigest dataDir rd"
    and td: "TempDir os dataDir ''runtime-*'' s5 = (Inr tempDir, s6)"
    and ex: "extractToDirs os ?img dataDir plan s5 = (None, s7)"
    and ch: "Chmod os (binDirForDigest dataDir rd) perm_0755 s7 = (None, s9)"
    and sc: "setChartValues os dataDir (Registry_Name resolver) s9 = (None, s10)"
    and e10: "extends s10 s'"
    and c5: "calls_are (staging_call tempDir plan ?hs) s5 s'"
    and staged: "\<forall>h \<in> set ?hs.
          Typeflag h = TypeReg \<and> map_of plan (Dir (Name h)) \<noteq> None \<longrightarrow>
            (\<exists>fd. occurs [(C_OpenFile (Join [tempDir, Name h]) [O_RDWR, O_CREATE, O_TRUNC], None),
               (C_Copy fd, None), (C_Close fd, None)] (since s5 s'))"
    and placed: "\<forall>source dest. map_of plan source = Some dest
        \<longrightarrow> placed os tempDir source dest s5 s'"
    by blast
  let ?P = "staging_call tempDir plan ?hs"
  from extends_Stage_image [OF im] have e4: "extends s s4" .
  from extends_extractPaths [OF ep] have e45: "extends s4 s5" .
  from e4 e45 have e5: "extends s s5" by (rule extends_trans)
  from extends_Stage_place [OF pl] have e5': "extends s5 s'" .
  from calls_are_Stage_image [OF im] calls_are_extractPaths [OF ep] c5
  have "calls_are ?P s s'"
    by (blast intro: calls_are_trans)
  then have calls: "\<forall>c r. (c, r) \<in> set (since s s') \<longrightarrow> ?P c"
    by (blast dest: calls_are_since)
  have staged': "\<forall>h \<in> set ?hs.
          Typeflag h = TypeReg \<and> map_of plan (Dir (Name h)) \<noteq> None \<longrightarrow>
            (\<exists>fd. occurs [(C_OpenFile (Join [tempDir, Name h]) [O_RDWR, O_CREATE, O_TRUNC], None),
               (C_Copy fd, None), (C_Close fd, None)] (since s s'))"
    using staged occurs_since [OF e5 e5' extends_refl] by blast
  have placed': "\<forall>source dest. map_of plan source = Some dest
        \<longrightarrow> placed os tempDir source dest s s'"
    using placed placed_lift [OF e5 e5' extends_refl] by blast
  from setChartValues_run [OF sc] obtain sa files where
    e9a: "extends s9 sa" and ea10: "extends sa s10"
    and wm: "walk_manifests (fst (filepath_Walk os (manifestsDir dataDir) (world s9))) [] = Inr files"
    and rc: "rewrite_charts os (go_range (range_keys os) files) dataDir (Registry_Name resolver) [] sa
        = ([], s10)"
    by blast
  from K5 have keys: "fst ` set (go_range (range_keys os) files) = fst ` set files"
    by (intro keys_go_range) simp
  from extends_extractToDirs [OF ex] have e57: "extends s5 s7" .
  from calls_eq(5) [OF ch] have e79: "extends s7 s9"
    by (simp add: extends_def)
  from e5 e57 e79 e9a have esa: "extends s sa"
    by (blast intro: extends_trans)
  from rewrite_charts_reads [OF rc] keys mem_since [OF esa ea10 e10]
  have reads: "\<forall>f \<in> fst ` set files. (C_ReadFile f, None) \<in> set (since s s')"
    by blast
  have patched: "(\<forall>c b. ser_Encode os c = Inr b \<longrightarrow>
          (\<exists>c'. ser_Decode os b = Inr (HelmChartObj c')
            \<and> spec_JobImage c' = spec_JobImage c
            \<and> Set_StrVal c' ''global.rke2DataDir'' = Set_StrVal c ''global.rke2DataDir''
            \<and> Set_StrVal c' ''global.systemDefaultRegistry''
                = Set_StrVal c ''global.systemDefaultRegistry''))
        \<and> (\<forall>f w b w'. ioutil_ReadFile os f w = (Inr b, w') \<longrightarrow> contents w f = Some b)
        \<and> (\<forall>f w. contents (snd (ioutil_ReadFile os f w)) = contents w)
        \<and> (\<forall>f m w fd w1 b w2 w3. os_OpenFile os f [O_RDWR, O_TRUNC] m w = (Inr fd, w1)
              \<and> file_Write os fd b w1 = (None, w2) \<and> file_Close os fd w2 = (None, w3)
              \<longrightarrow> contents w3 = (contents w)(f \<mapsto> b))
        \<longrightarrow> (\<forall>f \<in> fst ` set files.
              settled os contents dataDir (Registry_Name resolver) (world s10) f)"
  proof (intro impI, elim conjE)
    assume R: "\<forall>c b. ser_Encode os c = Inr b \<longrightarrow>
          (\<exists>c'. ser_Decode os b = Inr (HelmChartObj c')
            \<and> spec_JobImage c' = spec_JobImage c
            \<and> Set_StrVal c' ''global.rke2DataDir'' = Set_StrVal c ''global.rke2DataDir''
            \<and> Set_StrVal c' ''global.systemDefaultRegistry''
                = Set_StrVal c ''global.systemDefaultRegistry'')"
      and K1: "\<forall>f w b w'. ioutil_ReadFile os f w = (Inr b, w') \<longrightarrow> contents w f = Some b"
      and K2: "\<forall>f w. contents (snd (ioutil_ReadFile os f w)) = contents w"
      and K3: "\<forall>f m w fd w1 b w2 w3. os_OpenFile os f [O_RDWR, O_TRUNC] m w = (Inr fd, w1)
              \<and> file_Write os fd b w1 = (None, w2) \<and> file_Close os fd w2 = (None, w3)
              \<longrightarrow> contents w3 = (contents w)(f \<mapsto> b)"
    from rewrite_charts_settles [OF R K1 K2 K3 rc] keys
    show "\<forall>f \<in> fst ` set files.
        settled os contents dataDir (Registry_Name resolver) (world s10) f"
      by simp
  qed
  from ep have plan: "fst (extractPaths os dataDir ?ref rd s4) = plan"
    and s5: "snd (extractPaths os dataDir ?ref rd s4) = s5"
    by simp_all
  show ?thesis
    apply (rule exI [of _ rd], rule exI [of _ img], rule exI [of _ s4],
        rule exI [of _ tempDir], rule exI [of _ s6], rule exI [of _ s7], rule exI [of _ s9],
        rule exI [of _ s10], rule exI [of _ files])
    apply (simp only: plan s5 Let_def)
    apply (intro conjI)
    subgoal by (rule rd)
    subgoal by (rule dir)
    subgoal using im x by simp
    subgoal by (rule td)
    subgoal by (rule ex)
    subgoal using ch dir by simp
    subgoal by (rule sc)
    subgoal by (rule e10)
    subgoal by (rule wm)
    subgoal by (rule calls)
    subgoal by (rule staged')
    subgoal by (rule placed')
    subgoal by (rule reads)
    subgoal by (rule patched)
    done
qed



subsection \<open>Decompression adapters\<close>

text \<open>
  C7 (as amended). Every adapter's \<open>Close\<close> runs the \<open>Close\<close> of the underlying file
  handle \<open>c\<close>, last. The split and zstd adapters return exactly what the file
  handle's \<open>Close\<close> returns: no error when it succeeds, its error when it fails; the
  decompressor adds none. The multi adapter closes the decompressor \<open>r'\<close> first and
  then the file handle in any case; it returns the file handle's result when the
  decompressor closed without error, the decompressor's error when only that failed,
  and the aggregate of both errors when both failed.
\<close>

theorem adapters_Close:
  "splitReadCloser_Close c w = c w
   \<and> zstdReadCloser_Close r c w = c (r w)
   \<and> snd (multiReadCloser_Close r' c w) = snd (c (snd (r' w)))
   \<and> (fst (r' w) = None \<longrightarrow> fst (multiReadCloser_Close r' c w) = fst (c (snd (r' w))))
   \<and> (fst (r' w) = Some e1 \<and> fst (c (snd (r' w))) = None \<longrightarrow>
        fst (multiReadCloser_Close r' c w) = Some e1)
   \<and> (fst (r' w) = Some e1 \<and> fst (c (snd (r' w))) = Some e2 \<longrightarrow>
        fst (multiReadCloser_Close r' c w) = Some (Errors [e1, e2]))"
  by (auto simp: splitReadCloser_Close_def zstdReadCloser_Close_def multiReadCloser_Close_def
      split: prod.splits option.splits)

text \<open>
  The world of the witness is the list of the handles closed so far; both closes of
  the multi adapter fail.
\<close>

theorem adapters_Close_witness:
  "splitReadCloser_Close (\<lambda>w. (None, w @ [''file''])) [] = (None, [''file''])
   \<and> zstdReadCloser_Close (\<lambda>w. w @ [''decoder'']) (\<lambda>w. (None, w @ [''file''])) []
       = (None, [''decoder'', ''file''])
   \<and> multiReadCloser_Close (\<lambda>w. (Some (ErrorString ''gzip: invalid checksum''), w @ [''gzip'']))
         (\<lambda>w. (Some (Errno EIO), w @ [''file''])) []
       = (Some (Errors [ErrorString ''gzip: invalid checksum'', Errno EIO]), [''gzip'', ''file''])"
  using adapters_Close [of "\<lambda>w. (None, w @ [''file''])" "[]" "\<lambda>w. w @ [''decoder'']"
      "\<lambda>w. (Some (ErrorString ''gzip: invalid checksum''), w @ [''gzip''])"
      "ErrorString ''gzip: invalid checksum''" "Errno EIO"]
    adapters_Close [of "\<lambda>w. (Some (Errno EIO), w @ [''file''])" "[]" "\<lambda>w. w @ [''decoder'']"
      "\<lambda>w. (Some (ErrorString ''gzip: invalid checksum''), w @ [''gzip''])"
      "ErrorString ''gzip: invalid checksum''" "Errno EIO"]
  by (simp add: prod_eq_iff)

text \<open>
  The claim as stated says that the split and zstd adapters return no error. With a
  file handle whose \<open>Close\<close> fails, both return that error.
\<close>

theorem adapters_Close_counterexample:
  "splitReadCloser_Close (\<lambda>w. (Some (Errno EIO), w @ [''file''])) []
      = (Some (Errno EIO), [''file''])
   \<and> zstdReadCloser_Close (\<lambda>w. w @ [''decoder'']) (\<lambda>w. (Some (Errno EIO), w @ [''file''])) []
      = (Some (Errno EIO), [''decoder'', ''file''])"
  by (simp add: splitReadCloser_Close_def zstdReadCloser_Close_def)

subsection \<open>Archive format selection\<close>

text \<open>
  C6 (the code at the failing input). The file name \<open>bundletar.zst\<close> ends in none of
  the suffixes of the table (its suffix is \<open>.zst\<close>; \<open>.tar.zst\<close> and \<open>.tzst\<close> do not
  match), yet the switch of \<open>preloadFile\<close> selects the zstd opener for it, and
  \<open>preloadFile\<close> returns no error: the first suffix of the zstd case is written
  \<open>tar.zst\<close>, without the dot that every other case has.
\<close>

theorem preloadFile_tar_zst_without_dot:
  "preloadFile_switch ''bundletar.zst'' = Use OpenZstd_ZstdReadCloser
   \<and> snd (fst (preloadFile os imageTag ''bundletar.zst'' s)) = None
   \<and> HasSuffixI ''bundletar.zst'' [''.tar.zst'', ''.tzst''] = False"
proof -
  have sw: "preloadFile_switch ''bundletar.zst'' = Use OpenZstd_ZstdReadCloser"
    by code_simp
  have no: "HasSuffixI ''bundletar.zst'' [''.tar.zst'', ''.tzst''] = False"
    by code_simp
  show ?thesis
    by (simp add: sw no preloadFile_def split: prod.splits sum.splits)
qed

end
